theory Spec2Isabelle
  imports Complex_Main "HOL-Library.Sublist" "HOL-Library.List_Lexorder" "HOL-Library.Char_ord"
begin

section \<open>FiableAuto mission backend: a shallow embedding\<close>

text \<open>
  The repository holds two versions of one Express server over PostgreSQL:
  \<^verbatim>\<open>src/server.js\<close> (the basic server) and \<^verbatim>\<open>src/unnamed/part_000\<close> (the enhanced
  server, which adds the inspections table, search and advanced statistics).
  Every handler is a few parameterised SQL statements, so the embedding is a
  relational store (tables as lists of rows in insertion order, serial counters),
  handlers as functions from a store to a response and a new store, and an
  environment that supplies what a handler reads from outside: the clock of the
  Node process, the clock of the database, the random number, and whether each
  query of the request reaches the database.

  Modelling conventions.
  \<^item> Strings are lists of characters that a text of the database can hold (the
    NUL character is not among them); case folding (ILIKE, route matching) is
    ASCII case folding.
  \<^item> A nullable column is an \<open>option\<close>; JavaScript's \<open>undefined\<close> and \<open>null\<close> in a
    request body are both \<open>None\<close> (node-postgres sends both as NULL). The
    checklist of an inspection is the exception: it goes through
    \<^verbatim>\<open>JSON.stringify\<close>, which keeps \<open>null\<close> as the JSON value null.
  \<^item> A request field is typed as the column it is written to: a text, an
    integer, a timestamp, a JSON value. Whether a text is within the width of a
    VARCHAR column and an integer within the range of an INTEGER column is
    decided by the model for the two statements that write a JSON body to the
    database, the insert into \<^verbatim>\<open>missions\<close> and the upsert into \<^verbatim>\<open>inspections\<close>
    (subsection Column types). The texts of a photo upload (photo type, file
    names) are taken to be within the widths of their columns.
  \<^item> A serial key is a natural number and the sequences are far from their
    last value; a path parameter that is compared with a serial key is a
    natural number.
  \<^item> Timestamps are natural numbers (a count of seconds).
  \<^item> The declared constraints that the handlers rely on are part of the model:
    UNIQUE(mission_code), UNIQUE(mission_id, photo_type), UNIQUE(mission_id) on
    inspections, the NOT NULL of photo_type and the foreign keys to missions.
\<close>

subsection \<open>Strings and numbers as JavaScript and SQL treat them\<close>

definition digit_char :: "nat \<Rightarrow> char" where
  "digit_char d = char_of (48 + d)"

text \<open>\<^verbatim>\<open>Number.prototype.toString()\<close> on a non-negative integer.\<close>

fun string_of_nat :: "nat \<Rightarrow> string" where
  "string_of_nat n =
     (if n < 10 then [digit_char n]
      else string_of_nat (n div 10) @ [digit_char (n mod 10)])"

declare string_of_nat.simps [simp del]

text \<open>
  A JavaScript number as the code generator meets it: an integer or NaN.
  (Mission codes are VARCHAR(20), so a parsed sequence has at most eight digits
  and the double arithmetic of the source is exact.)
\<close>

datatype jsnum = NaN | Num int

fun js_add1 :: "jsnum \<Rightarrow> jsnum" where
  "js_add1 NaN = NaN"
| "js_add1 (Num i) = Num (i + 1)"

fun js_toString :: "jsnum \<Rightarrow> string" where
  "js_toString NaN = ''NaN''"
| "js_toString (Num i) =
     (if i < 0 then CHR ''-'' # string_of_nat (nat (- i)) else string_of_nat (nat i))"

text \<open>\<^verbatim>\<open>s.padStart(n, '0')\<close>: pads on the left, never truncates.\<close>

definition padStart0 :: "nat \<Rightarrow> string \<Rightarrow> string" where
  "padStart0 n s = replicate (n - length s) (CHR ''0'') @ s"

text \<open>\<^verbatim>\<open>s.split(d)\<close> for a one-character separator.\<close>

fun split_on :: "char \<Rightarrow> string \<Rightarrow> string list" where
  "split_on d [] = [[]]"
| "split_on d (c # cs) =
     (if c = d then [] # split_on d cs
      else (case split_on d cs of
              [] \<Rightarrow> [[c]]
            | x # xs \<Rightarrow> (c # x) # xs))"

text \<open>\<^verbatim>\<open>xs[i]\<close>: \<open>undefined\<close> out of range.\<close>

definition js_index :: "'a list \<Rightarrow> nat \<Rightarrow> 'a option" where
  "js_index xs i = (if i < length xs then Some (xs ! i) else None)"

text \<open>
  \<^verbatim>\<open>parseInt(s)\<close> with no radix: leading white space is skipped, a sign is read,
  a \<^verbatim>\<open>0x\<close> prefix selects base 16, the longest prefix of digits is the value, and
  no digit at all is NaN. \<^verbatim>\<open>parseInt(undefined)\<close> is NaN.
\<close>

definition is_space :: "char \<Rightarrow> bool" where
  "is_space c = (of_char c \<in> {9, 10, 11, 12, 13, 32 :: nat})"

definition digit_value :: "char \<Rightarrow> nat option" where
  "digit_value c =
     (let n = (of_char c :: nat) in
      if 48 \<le> n \<and> n \<le> 57 then Some (n - 48)
      else if 97 \<le> n \<and> n \<le> 102 then Some (n - 87)
      else if 65 \<le> n \<and> n \<le> 70 then Some (n - 55)
      else None)"

definition is_radix_digit :: "nat \<Rightarrow> char \<Rightarrow> bool" where
  "is_radix_digit r c = (case digit_value c of None \<Rightarrow> False | Some v \<Rightarrow> v < r)"

definition radix_value :: "nat \<Rightarrow> string \<Rightarrow> nat" where
  "radix_value r ds = foldl (\<lambda>acc c. acc * r + (case digit_value c of None \<Rightarrow> 0 | Some v \<Rightarrow> v)) 0 ds"

definition parse_digits :: "nat \<Rightarrow> string \<Rightarrow> nat option" where
  "parse_digits r s =
     (let z = takeWhile (is_radix_digit r) s in
      if z = [] then None else Some (radix_value r z))"

definition parse_radix :: "string \<Rightarrow> nat option" where
  "parse_radix s =
     (if take 2 s = ''0x'' \<or> take 2 s = ''0X'' then parse_digits 16 (drop 2 s)
      else parse_digits 10 s)"

definition parseInt :: "string option \<Rightarrow> jsnum" where
  "parseInt v =
     (case v of
        None \<Rightarrow> NaN
      | Some str \<Rightarrow>
          (let s = dropWhile is_space str;
               neg = (take 1 s = ''-'');
               s' = (if take 1 s = ''-'' \<or> take 1 s = ''+'' then drop 1 s else s)
           in case parse_radix s' of
                None \<Rightarrow> NaN
              | Some n \<Rightarrow> Num (if neg then - int n else int n)))"

text \<open>ASCII case folding.\<close>

definition lower_char :: "char \<Rightarrow> char" where
  "lower_char c =
     (let n = (of_char c :: nat) in if 65 \<le> n \<and> n \<le> 90 then char_of (n + 32) else c)"

definition lower :: "string \<Rightarrow> string" where
  "lower s = map lower_char s"

text \<open>
  SQL \<^verbatim>\<open>LIKE\<close>: \<^verbatim>\<open>%\<close> matches any run of characters, \<^verbatim>\<open>_\<close> any one character, a
  backslash takes the next pattern character literally. The first argument is
  the pattern. (PostgreSQL raises an error when matching reaches a pattern that
  ends in a lone backslash; every pattern built by this server ends in \<^verbatim>\<open>%\<close>, so
  that case is modelled as no match.)
\<close>

fun like_match :: "string \<Rightarrow> string \<Rightarrow> bool" where
  "like_match [] s = (s = [])"
| "like_match (p # ps) s =
     (if p = CHR ''%'' then
        (like_match ps s \<or> (case s of [] \<Rightarrow> False | c # t \<Rightarrow> like_match (p # ps) t))
      else if p = CHR ''_'' then
        (case s of [] \<Rightarrow> False | c # t \<Rightarrow> like_match ps t)
      else if p = CHR 0x5C then
        (case ps of
           [] \<Rightarrow> False
         | e # ps' \<Rightarrow> (case s of [] \<Rightarrow> False | c # t \<Rightarrow> c = e \<and> like_match ps' t))
      else
        (case s of [] \<Rightarrow> False | c # t \<Rightarrow> c = p \<and> like_match ps t))"

declare like_match.simps(2) [simp del]

text \<open>\<^verbatim>\<open>text ILIKE pattern\<close>: LIKE on the case-folded text and pattern.\<close>

definition ilike :: "string \<Rightarrow> string \<Rightarrow> bool" where
  "ilike txt pat = like_match (lower pat) (lower txt)"

definition like :: "string \<Rightarrow> string \<Rightarrow> bool" where
  "like txt pat = like_match pat txt"

text \<open>
  \<^verbatim>\<open>encodeURIComponent\<close>: the unreserved characters stay, every other byte becomes
  \<^verbatim>\<open>%XX\<close> in upper-case hexadecimal.
\<close>

definition hex_char :: "nat \<Rightarrow> char" where
  "hex_char d = (if d < 10 then char_of (48 + d) else char_of (55 + d))"

definition uri_unreserved :: "char \<Rightarrow> bool" where
  "uri_unreserved c =
     (let n = (of_char c :: nat) in
      (48 \<le> n \<and> n \<le> 57) \<or> (65 \<le> n \<and> n \<le> 90) \<or> (97 \<le> n \<and> n \<le> 122)
      \<or> c \<in> set ''-_.!~*'()'')"

definition encodeURIComponent :: "string \<Rightarrow> string" where
  "encodeURIComponent s =
     concat (map (\<lambda>c. if uri_unreserved c then [c]
                      else [CHR ''%'', hex_char (of_char c div 16), hex_char (of_char c mod 16)]) s)"

subsection \<open>Column types\<close>

text \<open>
  INTEGER is a signed integer of 32 bits. A parameter bound to an INTEGER column
  that lies outside its range makes the statement fail before it runs; NULL is
  accepted.
\<close>

definition integer_range :: "int \<Rightarrow> bool" where
  "integer_range v = (- 2147483648 \<le> v \<and> v \<le> 2147483647)"

definition integer_column :: "int option \<Rightarrow> bool" where
  "integer_column v = (case v of None \<Rightarrow> True | Some x \<Rightarrow> integer_range x)"

text \<open>
  VARCHAR(n): a text of at most n characters is stored as it is. A longer text
  is refused with an error, unless every character after the n-th is a space;
  then its first n characters are stored. NULL is accepted.
\<close>

definition varchar_fits :: "nat \<Rightarrow> string \<Rightarrow> bool" where
  "varchar_fits n x = list_all (\<lambda>c. c = CHR 0x20) (drop n x)"

definition varchar_column :: "nat \<Rightarrow> string option \<Rightarrow> bool" where
  "varchar_column n v = (case v of None \<Rightarrow> True | Some x \<Rightarrow> varchar_fits n x)"

definition varchar :: "nat \<Rightarrow> string \<Rightarrow> string" where
  "varchar n x = take n x"

text \<open>
  A JSON value, as \<^verbatim>\<open>express.json()\<close> parses it from a request body and as a
  JSONB column holds it. (JSONB does not keep the order of the keys of an
  object; the list of members is kept here as the request gave it.)
\<close>

datatype json =
    JNull
  | JBool bool
  | JNum rat
  | JStr string
  | JArr "json list"
  | JObj "(string \<times> json) list"

subsection \<open>The tables\<close>

type_synonym timestamp = nat

text \<open>
  A row of \<^verbatim>\<open>missions\<close> (the enhanced schema; the basic schema lacks fuel_level,
  interior_condition, exterior_condition and mission_type, which stay NULL in
  rows written by the basic server). The serial key \<^verbatim>\<open>id\<close> is \<open>m_id\<close>.
\<close>

record mission =
  m_id :: nat
  mission_code :: string
  vehicle_brand :: string
  vehicle_model :: string
  vehicle_year :: "int option"
  license_plate :: "string option"
  vin :: "string option"
  mileage :: "int option"
  fuel_level :: "string option"
  interior_condition :: "string option"
  exterior_condition :: "string option"
  mission_type :: "string option"
  pickup_location :: string
  delivery_location :: string
  pickup_date :: "timestamp option"
  delivery_date :: "timestamp option"
  urgency :: "string option"
  client_name :: string
  client_email :: string
  client_phone :: "string option"
  client_company :: "string option"
  provider_name :: "string option"
  provider_email :: "string option"
  provider_phone :: "string option"
  status :: string
  created_at :: timestamp
  updated_at :: timestamp
  started_at :: "timestamp option"
  completed_at :: "timestamp option"
  observations :: "string option"
  internal_notes :: "string option"
  client_signature :: "string option"
  signature_timestamp :: "timestamp option"
  created_by :: "nat option"
  assigned_to :: "nat option"

text \<open>A row of \<^verbatim>\<open>mission_photos\<close>; \<open>p_id\<close> is the serial key, \<open>p_mission_id\<close> the foreign key.\<close>

record photo =
  p_id :: nat
  p_mission_id :: nat
  photo_type :: string
  filename :: string
  original_name :: "string option"
  file_size :: "int option"
  mime_type :: "string option"
  storage_url :: string
  uploaded_at :: timestamp
  gps_latitude :: "rat option"
  gps_longitude :: "rat option"
  device_info :: "string option"

text \<open>A row of \<^verbatim>\<open>inspections\<close>; the checklist column is JSONB.\<close>

record inspection =
  i_id :: nat
  i_mission_id :: nat
  i_observations :: "string option"
  signature :: "string option"
  checklist :: "json option"
  key_count :: "int option"
  optional_photos_count :: "int option"
  i_created_at :: timestamp
  i_updated_at :: timestamp

text \<open>The database: the three tables the handlers touch and their serial counters.\<close>

record store =
  missions :: "mission list"
  mission_photos :: "photo list"
  inspections :: "inspection list"
  missions_id_seq :: nat
  mission_photos_id_seq :: nat
  inspections_id_seq :: nat

definition empty_store :: store where
  "empty_store = \<lparr> missions = [], mission_photos = [], inspections = [],
     missions_id_seq = 1, mission_photos_id_seq = 1, inspections_id_seq = 1 \<rparr>"

text \<open>
  The constraints declared by \<^verbatim>\<open>CREATE TABLE\<close> that PostgreSQL maintains: primary
  keys, the three UNIQUE constraints and the two foreign keys; and every serial
  key in use is below the next value of its sequence.
\<close>

definition constraints_hold :: "store \<Rightarrow> bool" where
  "constraints_hold s =
     (distinct (map m_id (missions s))
      \<and> distinct (map mission_code (missions s))
      \<and> distinct (map p_id (mission_photos s))
      \<and> distinct (map (\<lambda>p. (p_mission_id p, photo_type p)) (mission_photos s))
      \<and> distinct (map i_id (inspections s))
      \<and> distinct (map i_mission_id (inspections s))
      \<and> list_all (\<lambda>p. p_mission_id p \<in> set (map m_id (missions s))) (mission_photos s)
      \<and> list_all (\<lambda>i. i_mission_id i \<in> set (map m_id (missions s))) (inspections s)
      \<and> list_all (\<lambda>m. m_id m < missions_id_seq s) (missions s)
      \<and> list_all (\<lambda>p. p_id p < mission_photos_id_seq s) (mission_photos s)
      \<and> list_all (\<lambda>i. i_id i < inspections_id_seq s) (inspections s))"

subsection \<open>The environment of a request and its response\<close>

text \<open>The UTC calendar date that \<^verbatim>\<open>new Date()\<close> reads.\<close>

record jsdate =
  utc_year :: nat
  utc_month :: nat
  utc_day :: nat

definition valid_date :: "jsdate \<Rightarrow> bool" where
  "valid_date d = (utc_year d \<le> 9999 \<and> 1 \<le> utc_month d \<and> utc_month d \<le> 12
                   \<and> 1 \<le> utc_day d \<and> utc_day d \<le> 31)"

text \<open>
  \<open>today\<close> is \<^verbatim>\<open>new Date()\<close>, \<open>epoch_ms\<close> is \<^verbatim>\<open>Date.now()\<close>, \<open>db_now\<close> is
  \<^verbatim>\<open>CURRENT_TIMESTAMP\<close>, \<open>random1000\<close> is \<^verbatim>\<open>Math.floor(Math.random() * 1000)\<close>,
  and \<open>up k\<close> says whether the k-th query of the request (counted from 0) reaches
  the database; a query that does not makes \<^verbatim>\<open>pool.query\<close> reject.
\<close>

record env =
  today :: jsdate
  epoch_ms :: nat
  db_now :: timestamp
  random1000 :: nat
  up :: "nat \<Rightarrow> bool"

text \<open>
  The error classes of the specification and the HTTP status each handler gives
  them; a successful response carries its status (200 or 201) and its data.
\<close>

datatype error = ValidationError | NotFoundError | ServerError

datatype 'a response = Success nat 'a | Failure error

fun http_status :: "'a response \<Rightarrow> nat" where
  "http_status (Success code d) = code"
| "http_status (Failure ValidationError) = 400"
| "http_status (Failure NotFoundError) = 404"
| "http_status (Failure ServerError) = 500"

subsection \<open>PUT /api/missions/:id/status\<close>

text \<open>
  The handler assembles the SET list of an UPDATE statement piece by piece; the
  pieces are kept as a list of assignments, executed on every row the WHERE
  clause selects. \<^verbatim>\<open>RETURNING *\<close> gives the rows as updated.
\<close>

datatype assignment =
    Set_status string
  | Set_updated_at_now
  | Set_started_at_now
  | Set_completed_at_now

fun assign :: "timestamp \<Rightarrow> mission \<Rightarrow> assignment \<Rightarrow> mission" where
  "assign now m (Set_status v) = m\<lparr>status := v\<rparr>"
| "assign now m Set_updated_at_now = m\<lparr>updated_at := now\<rparr>"
| "assign now m Set_started_at_now = m\<lparr>started_at := Some now\<rparr>"
| "assign now m Set_completed_at_now = m\<lparr>completed_at := Some now\<rparr>"






subsection \<open>generateMissionCode\<close>

text \<open>
  The date part of \<^verbatim>\<open>toISOString()\<close>: a four-digit year (six digits and a sign
  beyond 9999), month and day, each padded. It is never shorter than ten
  characters, so \<^verbatim>\<open>slice(0, 10)\<close> of the full ISO string lies within it.
\<close>

definition toISOString_date :: "jsdate \<Rightarrow> string" where
  "toISOString_date d =
     (if utc_year d \<le> 9999 then padStart0 4 (string_of_nat (utc_year d))
      else CHR ''+'' # padStart0 6 (string_of_nat (utc_year d)))
     @ ''-'' @ padStart0 2 (string_of_nat (utc_month d))
     @ ''-'' @ padStart0 2 (string_of_nat (utc_day d))"

text \<open>\<^verbatim>\<open>now.toISOString().slice(0, 10).replace(/-/g, '')\<close>\<close>

definition date_stamp :: "jsdate \<Rightarrow> string" where
  "date_stamp d = filter (\<lambda>c. c \<noteq> CHR ''-'') (take 10 (toISOString_date d))"

text \<open>
  \<^verbatim>\<open>SELECT mission_code FROM missions WHERE mission_code LIKE $1
  ORDER BY mission_code DESC LIMIT 1\<close>; strings are ordered lexicographically.
\<close>

definition select_last_code :: "string \<Rightarrow> store \<Rightarrow> string list" where
  "select_last_code pat s =
     take 1 (rev (sort (filter (\<lambda>c. like c pat) (map mission_code (missions s)))))"

definition generateMissionCode :: "env \<Rightarrow> store \<Rightarrow> string" where
  "generateMissionCode e s =
     (let date = date_stamp (today e) in
      if up e 0 then
        (let rows = select_last_code (''FA-'' @ date @ ''-%'') s;
             sequence = (case rows of
                           [] \<Rightarrow> Num 1
                         | lastCode # rest \<Rightarrow>
                             js_add1 (parseInt (js_index (split_on CHR ''-'' lastCode) 2)))
         in ''FA-'' @ date @ ''-'' @ padStart0 3 (js_toString sequence))
      else ''FA-'' @ date @ ''-'' @ padStart0 3 (js_toString (Num (int (random1000 e)))))"

subsection \<open>POST /api/missions\<close>

text \<open>The JSON body; the four names that are also column names carry the prefix \<open>b_\<close>.\<close>

record create_body =
  vehicleBrand :: "string option"
  vehicleModel :: "string option"
  vehicleYear :: "int option"
  licensePlate :: "string option"
  b_vin :: "string option"
  b_mileage :: "int option"
  fuelLevel :: "string option"
  interiorCondition :: "string option"
  exteriorCondition :: "string option"
  missionType :: "string option"
  pickupLocation :: "string option"
  deliveryLocation :: "string option"
  pickupDate :: "timestamp option"
  deliveryDate :: "timestamp option"
  b_urgency :: "string option"
  clientName :: "string option"
  clientEmail :: "string option"
  clientPhone :: "string option"
  clientCompany :: "string option"
  providerName :: "string option"
  providerEmail :: "string option"
  providerPhone :: "string option"
  b_observations :: "string option"
  internalNotes :: "string option"

text \<open>\<^verbatim>\<open>!v\<close> on a string field: true for undefined, null and the empty string.\<close>

definition falsy :: "string option \<Rightarrow> bool" where
  "falsy v = (case v of None \<Rightarrow> True | Some x \<Rightarrow> x = [])"

text \<open>\<^verbatim>\<open>v || d\<close>\<close>

definition or_default :: "string option \<Rightarrow> string \<Rightarrow> string" where
  "or_default v d = (case v of None \<Rightarrow> d | Some x \<Rightarrow> if x = [] then d else x)"

text \<open>The text bound to a NOT NULL column once validation has passed.\<close>

definition text_value :: "string option \<Rightarrow> string" where
  "text_value v = (case v of None \<Rightarrow> [] | Some x \<Rightarrow> x)"

text \<open>
  The columns of \<^verbatim>\<open>missions\<close> that the INSERT binds a parameter to, by type:
  vehicle_year and mileage are INTEGER; the VARCHAR columns have the widths of
  \<^verbatim>\<open>CREATE TABLE\<close>; pickup_location, delivery_location, observations and
  internal_notes are TEXT, without a width. (The basic schema lacks fuel_level,
  the two condition columns and mission_type; its rows carry NULL there.)
\<close>

definition integers_fit :: "mission \<Rightarrow> bool" where
  "integers_fit r = (integer_column (vehicle_year r) \<and> integer_column (mileage r))"

definition texts_fit :: "mission \<Rightarrow> bool" where
  "texts_fit r =
     (varchar_fits 20 (mission_code r) \<and> varchar_fits 100 (vehicle_brand r)
      \<and> varchar_fits 100 (vehicle_model r) \<and> varchar_column 20 (license_plate r)
      \<and> varchar_column 50 (vin r) \<and> varchar_column 20 (fuel_level r)
      \<and> varchar_column 20 (interior_condition r) \<and> varchar_column 20 (exterior_condition r)
      \<and> varchar_column 20 (mission_type r) \<and> varchar_column 20 (urgency r)
      \<and> varchar_fits 255 (client_name r) \<and> varchar_fits 255 (client_email r)
      \<and> varchar_column 20 (client_phone r) \<and> varchar_column 255 (client_company r)
      \<and> varchar_column 255 (provider_name r) \<and> varchar_column 255 (provider_email r)
      \<and> varchar_column 20 (provider_phone r) \<and> varchar_fits 50 (status r))"

text \<open>The row as the VARCHAR columns keep it.\<close>

definition as_stored :: "mission \<Rightarrow> mission" where
  "as_stored r =
     r\<lparr> mission_code := varchar 20 (mission_code r),
        vehicle_brand := varchar 100 (vehicle_brand r),
        vehicle_model := varchar 100 (vehicle_model r),
        license_plate := map_option (varchar 20) (license_plate r),
        vin := map_option (varchar 50) (vin r),
        fuel_level := map_option (varchar 20) (fuel_level r),
        interior_condition := map_option (varchar 20) (interior_condition r),
        exterior_condition := map_option (varchar 20) (exterior_condition r),
        mission_type := map_option (varchar 20) (mission_type r),
        urgency := map_option (varchar 20) (urgency r),
        client_name := varchar 255 (client_name r),
        client_email := varchar 255 (client_email r),
        client_phone := map_option (varchar 20) (client_phone r),
        client_company := map_option (varchar 255) (client_company r),
        provider_name := map_option (varchar 255) (provider_name r),
        provider_email := map_option (varchar 255) (provider_email r),
        provider_phone := map_option (varchar 20) (provider_phone r),
        status := varchar 50 (status r) \<rparr>"

text \<open>
  \<^verbatim>\<open>INSERT INTO missions (...) VALUES (...) RETURNING *\<close>. The row arrives without
  key and timestamps. An integer outside the INTEGER range is refused when the
  parameters are bound. Otherwise the database draws the key from the sequence
  (also when the insert is then refused), fills created_at and updated_at with
  their default, and refuses a text that does not fit its VARCHAR column and a
  mission_code that is already stored.
\<close>

definition insert_mission :: "timestamp \<Rightarrow> mission \<Rightarrow> store \<Rightarrow> mission option \<times> store" where
  "insert_mission now row s =
     (if \<not> integers_fit row then (None, s)
      else
        let s1 = s\<lparr>missions_id_seq := missions_id_seq s + 1\<rparr>;
            r = (as_stored row)\<lparr>m_id := missions_id_seq s, created_at := now, updated_at := now\<rparr>
        in if \<not> texts_fit row \<or> mission_code r \<in> set (map mission_code (missions s))
           then (None, s1)
           else (Some r, s1\<lparr>missions := missions s @ [r]\<rparr>))"

definition new_mission_row :: "string \<Rightarrow> create_body \<Rightarrow> mission" where
  "new_mission_row missionCode b =
     \<lparr> m_id = 0, mission_code = missionCode,
       vehicle_brand = text_value (vehicleBrand b), vehicle_model = text_value (vehicleModel b),
       vehicle_year = vehicleYear b, license_plate = licensePlate b, vin = b_vin b,
       mileage = b_mileage b, fuel_level = fuelLevel b,
       interior_condition = interiorCondition b, exterior_condition = exteriorCondition b,
       mission_type = Some (or_default (missionType b) ''inspection''),
       pickup_location = text_value (pickupLocation b),
       delivery_location = text_value (deliveryLocation b),
       pickup_date = pickupDate b, delivery_date = deliveryDate b,
       urgency = Some (or_default (b_urgency b) ''normal''),
       client_name = text_value (clientName b), client_email = text_value (clientEmail b),
       client_phone = clientPhone b, client_company = clientCompany b,
       provider_name = providerName b, provider_email = providerEmail b,
       provider_phone = providerPhone b,
       status = ''pending'', created_at = 0, updated_at = 0,
       started_at = None, completed_at = None,
       observations = b_observations b, internal_notes = internalNotes b,
       client_signature = None, signature_timestamp = None,
       created_by = None, assigned_to = None \<rparr>"

text \<open>The basic server's INSERT names neither the three condition columns nor mission_type.\<close>

definition new_mission_row_basic :: "string \<Rightarrow> create_body \<Rightarrow> mission" where
  "new_mission_row_basic missionCode b =
     (new_mission_row missionCode b)
       \<lparr> fuel_level := None, interior_condition := None, exterior_condition := None,
         mission_type := None \<rparr>"

definition required_missing :: "create_body \<Rightarrow> bool" where
  "required_missing b =
     (falsy (vehicleBrand b) \<or> falsy (vehicleModel b) \<or> falsy (pickupLocation b)
      \<or> falsy (deliveryLocation b) \<or> falsy (clientName b) \<or> falsy (clientEmail b))"

text \<open>Query 0 is the lookup of the code generator, query 1 the insert.\<close>

definition create_with ::
  "(string \<Rightarrow> create_body \<Rightarrow> mission) \<Rightarrow> env \<Rightarrow> create_body \<Rightarrow> store
     \<Rightarrow> mission response \<times> store" where
  "create_with build e b s =
     (if required_missing b then (Failure ValidationError, s)
      else
        let missionCode = generateMissionCode e s in
        if \<not> up e 1 then (Failure ServerError, s)
        else (case insert_mission (db_now e) (build missionCode b) s of
                (None, s') \<Rightarrow> (Failure ServerError, s')
              | (Some row, s') \<Rightarrow> (Success 201 row, s')))"

definition create :: "env \<Rightarrow> create_body \<Rightarrow> store \<Rightarrow> mission response \<times> store" where
  "create = create_with new_mission_row"

definition create_basic :: "env \<Rightarrow> create_body \<Rightarrow> store \<Rightarrow> mission response \<times> store" where
  "create_basic = create_with new_mission_row_basic"

subsection \<open>POST /api/missions/:id/inspection\<close>

text \<open>
  The JSON body. \<open>ib_checklist\<close> is \<open>None\<close> when the body has no checklist
  (\<^verbatim>\<open>undefined\<close>) and the JSON value otherwise, \<open>JNull\<close> included.
\<close>

record inspection_body =
  ib_observations :: "string option"
  ib_signature :: "string option"
  ib_checklist :: "json option"
  keyCount :: "int option"
  optionalPhotos :: "int option"

text \<open>
  \<^verbatim>\<open>INSERT INTO inspections ... ON CONFLICT (mission_id) DO UPDATE SET ...
  RETURNING *\<close>. The fourth parameter is \<^verbatim>\<open>JSON.stringify(checklist)\<close>, the JSON
  text of the value in the body, which the JSONB column reads back as that
  value; for \<^verbatim>\<open>undefined\<close> it is \<^verbatim>\<open>undefined\<close>, which is bound as NULL. The two
  counts are bound to INTEGER columns: outside the INTEGER range the statement
  is refused when the parameters are bound, and nothing is written. Otherwise a
  row of the mission is rewritten in place (key and created_at stay); without
  one, a row is added, which the foreign key refuses when the mission does not
  exist.
\<close>

definition upsert_inspection ::
  "timestamp \<Rightarrow> nat \<Rightarrow> inspection_body \<Rightarrow> store \<Rightarrow> inspection option \<times> store" where
  "upsert_inspection now i b s =
     (if \<not> (integer_column (keyCount b) \<and> integer_column (optionalPhotos b)) then (None, s)
      else
        let s1 = s\<lparr>inspections_id_seq := inspections_id_seq s + 1\<rparr>;
            overwrite = (\<lambda>r. r\<lparr> i_observations := ib_observations b, signature := ib_signature b,
                                 checklist := ib_checklist b, key_count := keyCount b,
                                 optional_photos_count := optionalPhotos b,
                                 i_updated_at := now \<rparr>)
        in case filter (\<lambda>r. i_mission_id r = i) (inspections s) of
             old # rest \<Rightarrow>
               (Some (overwrite old),
                s1\<lparr>inspections :=
                      map (\<lambda>r. if i_mission_id r = i then overwrite r else r) (inspections s)\<rparr>)
           | [] \<Rightarrow>
               if i \<notin> set (map m_id (missions s)) then (None, s1)
               else
                 let r = \<lparr> i_id = inspections_id_seq s, i_mission_id = i,
                           i_observations = ib_observations b, signature = ib_signature b,
                           checklist = ib_checklist b, key_count = keyCount b,
                           optional_photos_count = optionalPhotos b,
                           i_created_at = now, i_updated_at = now \<rparr>
                 in (Some r, s1\<lparr>inspections := inspections s @ [r]\<rparr>))"

text \<open>
  \<^verbatim>\<open>UPDATE missions SET observations = $2, client_signature = $3,
  updated_at = CURRENT_TIMESTAMP WHERE id = $1\<close>
\<close>

definition sync_mission :: "timestamp \<Rightarrow> nat \<Rightarrow> inspection_body \<Rightarrow> store \<Rightarrow> store" where
  "sync_mission now i b s =
     s\<lparr>missions :=
         map (\<lambda>m. if m_id m = i
                   then m\<lparr> observations := ib_observations b,
                           client_signature := ib_signature b, updated_at := now \<rparr>
                   else m) (missions s)\<rparr>"

text \<open>The two statements run one after the other, outside any transaction.\<close>

definition submitInspection ::
  "env \<Rightarrow> nat \<Rightarrow> inspection_body \<Rightarrow> store \<Rightarrow> inspection response \<times> store" where
  "submitInspection e i b s =
     (if \<not> up e 0 then (Failure ServerError, s)
      else (case upsert_inspection (db_now e) i b s of
              (None, s1) \<Rightarrow> (Failure ServerError, s1)
            | (Some row, s1) \<Rightarrow>
                if \<not> up e 1 then (Failure ServerError, s1)
                else (Success 200 row, sync_mission (db_now e) i b s1)))"

subsection \<open>POST /api/uploads/photos/:missionId\<close>



text \<open>The placeholder locator; the two servers differ in the colour only.\<close>

definition mockUrl :: "string \<Rightarrow> string option \<Rightarrow> string" where
  "mockUrl colour photoType =
     ''https://via.placeholder.com/400x300/'' @ colour @ ''/ffffff?text=''
       @ encodeURIComponent (case photoType of None \<Rightarrow> ''undefined'' | Some t \<Rightarrow> t)"





subsection \<open>GET /api/missions/:code\<close>

text \<open>One element of the \<^verbatim>\<open>photos\<close> array built by \<^verbatim>\<open>json_build_object\<close>.\<close>

record photo_summary =
  ps_id :: nat
  ps_type :: string
  ps_url :: string
  ps_filename :: string
  ps_uploaded_at :: timestamp

definition summary :: "photo \<Rightarrow> photo_summary" where
  "summary p = \<lparr> ps_id = p_id p, ps_type = photo_type p, ps_url = storage_url p,
                 ps_filename = filename p, ps_uploaded_at = uploaded_at p \<rparr>"

text \<open>A result row: \<^verbatim>\<open>m.*\<close>, the three inspection columns and the photos array.\<close>

record mission_view =
  v_mission :: mission
  v_checklist :: "json option"
  v_key_count :: "int option"
  v_optional_photos_count :: "int option"
  v_photos :: "photo_summary list"

definition inspection_columns :: "inspection \<Rightarrow> json option \<times> int option \<times> int option" where
  "inspection_columns i = (checklist i, key_count i, optional_photos_count i)"

text \<open>
  The rows the grouped double LEFT JOIN yields for one mission: one group per
  distinct triple of inspection columns (one group of NULLs when the mission has
  no inspection); a group aggregates the photos joined to its inspection rows,
  ordered by upload time, and \<^verbatim>\<open>COALESCE(..., '[]')\<close> turns the empty aggregate
  into the empty array.
\<close>

definition aggregate :: "store \<Rightarrow> mission \<Rightarrow> mission_view list" where
  "aggregate s m =
     (let is = filter (\<lambda>i. i_mission_id i = m_id m) (inspections s);
          ps = filter (\<lambda>p. p_mission_id p = m_id m) (mission_photos s)
      in if is = [] then
           [\<lparr> v_mission = m, v_checklist = None, v_key_count = None,
              v_optional_photos_count = None,
              v_photos = map summary (sort_key uploaded_at ps) \<rparr>]
         else
           map (\<lambda>g. \<lparr> v_mission = m, v_checklist = fst g, v_key_count = fst (snd g),
                       v_optional_photos_count = snd (snd g),
                       v_photos = map summary (sort_key uploaded_at
                          (concat (map (\<lambda>i. ps) (filter (\<lambda>i. inspection_columns i = g) is)))) \<rparr>)
               (remdups (map inspection_columns is)))"

text \<open>\<^verbatim>\<open>WHERE m.mission_code = $1 OR m.id::text = $1\<close>\<close>

definition code_or_id :: "string \<Rightarrow> mission \<Rightarrow> bool" where
  "code_or_id token m = (mission_code m = token \<or> string_of_nat (m_id m) = token)"

definition getByCodeOrId :: "env \<Rightarrow> string \<Rightarrow> store \<Rightarrow> mission_view response" where
  "getByCodeOrId e code s =
     (if \<not> up e 0 then Failure ServerError
      else (case concat (map (aggregate s) (filter (code_or_id code) (missions s))) of
              [] \<Rightarrow> Failure NotFoundError
            | row # rest \<Rightarrow> Success 200 row))"

subsection \<open>GET /api/stats and GET /api/stats/advanced\<close>

record basic_stats =
  st_total :: nat
  st_pending :: nat
  st_in_progress :: nat
  st_completed :: nat
  st_cancelled :: nat

definition count_status :: "string \<Rightarrow> store \<Rightarrow> nat" where
  "count_status x s = length (filter (\<lambda>m. status m = x) (missions s))"

definition status_counts :: "store \<Rightarrow> basic_stats" where
  "status_counts s =
     \<lparr> st_total = length (missions s), st_pending = count_status ''pending'' s,
       st_in_progress = count_status ''in_progress'' s,
       st_completed = count_status ''completed'' s,
       st_cancelled = count_status ''cancelled'' s \<rparr>"

text \<open>The catch branch answers with success and the default counts.\<close>

definition basicStats :: "env \<Rightarrow> store \<Rightarrow> basic_stats response" where
  "basicStats e s =
     (if up e 0 then Success 200 (status_counts s)
      else Success 200 \<lparr> st_total = 0, st_pending = 0, st_in_progress = 0,
                         st_completed = 0, st_cancelled = 0 \<rparr>)"

record advanced_stats =
  basic :: basic_stats
  monthly :: "(timestamp \<times> nat) list"
  topVehicles :: "(string \<times> nat) list"
  avgProcessingHours :: rat

text \<open>
  The calendar functions of PostgreSQL are parameters: \<open>trunc_month\<close> is
  \<^verbatim>\<open>DATE_TRUNC('month', _)\<close> and \<open>minus_12_months\<close> is \<^verbatim>\<open>_ - INTERVAL '12 months'\<close>.
\<close>

definition monthly_counts ::
  "(timestamp \<Rightarrow> timestamp) \<Rightarrow> (timestamp \<Rightarrow> timestamp) \<Rightarrow> timestamp \<Rightarrow> store
     \<Rightarrow> (timestamp \<times> nat) list" where
  "monthly_counts trunc_month minus_12_months now s =
     (let rows = filter (\<lambda>m. minus_12_months now \<le> created_at m) (missions s);
          months = sort (remdups (map (\<lambda>m. trunc_month (created_at m)) rows))
      in map (\<lambda>mo. (mo, length (filter (\<lambda>m. trunc_month (created_at m) = mo) rows))) months)"

definition top_vehicles :: "store \<Rightarrow> (string \<times> nat) list" where
  "top_vehicles s =
     (let groups = remdups (map (\<lambda>m. (vehicle_brand m, vehicle_model m)) (missions s));
          counted = map (\<lambda>g. (fst g @ '' '' @ snd g,
                               length (filter (\<lambda>m. (vehicle_brand m, vehicle_model m) = g)
                                              (missions s)))) groups
      in take 10 (sort_key (\<lambda>r. - int (snd r)) counted))"

text \<open>
  \<^verbatim>\<open>AVG(EXTRACT(EPOCH FROM (completed_at - created_at))/3600)\<close> over the rows with a
  completion time, as an exact rational; NULL over no row.
\<close>

definition avg_hours :: "store \<Rightarrow> rat option" where
  "avg_hours s =
     (let hs = concat (map (\<lambda>m. case completed_at m of
                                   None \<Rightarrow> []
                                 | Some c \<Rightarrow> [(of_nat c - of_nat (created_at m)) / 3600])
                            (missions s))
      in if hs = [] then None else Some (sum_list hs / of_nat (length hs)))"

text \<open>\<^verbatim>\<open>Promise.all\<close> of four queries (0 to 3): one rejection fails the request.\<close>

definition advancedStats ::
  "(timestamp \<Rightarrow> timestamp) \<Rightarrow> (timestamp \<Rightarrow> timestamp) \<Rightarrow> env \<Rightarrow> store
     \<Rightarrow> advanced_stats response" where
  "advancedStats trunc_month minus_12_months e s =
     (if up e 0 \<and> up e 1 \<and> up e 2 \<and> up e 3 then
        Success 200
          \<lparr> basic = status_counts s,
            monthly = monthly_counts trunc_month minus_12_months (db_now e) s,
            topVehicles = top_vehicles s,
            avgProcessingHours = (case avg_hours s of None \<Rightarrow> 0 | Some a \<Rightarrow> a) \<rparr>
      else Failure ServerError)"

subsection \<open>GET /api/missions/search\<close>

text \<open>
  The query string. A filter that is missing or empty is \<open>None\<close> for the two
  dates (they are bound to timestamp comparisons); the text filters keep the
  empty string, which the handler's \<^verbatim>\<open>if (q)\<close> then skips.
\<close>

record search_filters =
  query_q :: "string option"
  query_status :: "string option"
  query_dateFrom :: "timestamp option"
  query_dateTo :: "timestamp option"
  query_vehicleBrand :: "string option"

text \<open>
  The handler appends one condition to the WHERE clause per filter present;
  the clause is their conjunction.
\<close>

definition search_conditions :: "search_filters \<Rightarrow> (mission \<Rightarrow> bool) list" where
  "search_conditions f =
     (if falsy (query_q f) then []
      else [\<lambda>m. ilike (mission_code m) (''%'' @ text_value (query_q f) @ ''%'')
               \<or> ilike (client_name m) (''%'' @ text_value (query_q f) @ ''%'')
               \<or> ilike (vehicle_brand m) (''%'' @ text_value (query_q f) @ ''%'')
               \<or> ilike (vehicle_model m) (''%'' @ text_value (query_q f) @ ''%'')])
     @ (if falsy (query_status f) then []
        else [\<lambda>m. status m = text_value (query_status f)])
     @ (case query_dateFrom f of None \<Rightarrow> [] | Some d \<Rightarrow> [\<lambda>m. d \<le> created_at m])
     @ (case query_dateTo f of None \<Rightarrow> [] | Some d \<Rightarrow> [\<lambda>m. created_at m \<le> d])
     @ (if falsy (query_vehicleBrand f) then []
        else [\<lambda>m. ilike (vehicle_brand m) (''%'' @ text_value (query_vehicleBrand f) @ ''%'')])"

text \<open>\<^verbatim>\<open>ORDER BY created_at DESC LIMIT 100\<close>\<close>

definition search :: "env \<Rightarrow> search_filters \<Rightarrow> store \<Rightarrow> mission list response" where
  "search e f s =
     (if \<not> up e 0 then Failure ServerError
      else Success 200
             (take 100 (sort_key (\<lambda>m. - int (created_at m))
                (filter (\<lambda>m. list_all (\<lambda>c. c m) (search_conditions f)) (missions s)))))"

subsection \<open>The route table of the enhanced server\<close>

datatype http_method = GET | POST | PUT | DELETE

datatype segment = Lit string | Param string

datatype handler =
    Health | Stats | ListMissions | CreateMission | SubmitInspection | GetMission
  | SetStatus | UploadPhoto | PutObservations | PostSignature | StatsAdvanced
  | SearchMissions | ReportPdf | Root | CatchAll

text \<open>The routes in the order in which \<^verbatim>\<open>app.get\<close>, \<^verbatim>\<open>app.post\<close> and \<^verbatim>\<open>app.put\<close> register them.\<close>

definition routes :: "(http_method \<times> segment list \<times> handler) list" where
  "routes =
     [(GET, [Lit ''api'', Lit ''health''], Health),
      (GET, [Lit ''api'', Lit ''stats''], Stats),
      (GET, [Lit ''api'', Lit ''missions''], ListMissions),
      (POST, [Lit ''api'', Lit ''missions''], CreateMission),
      (POST, [Lit ''api'', Lit ''missions'', Param ''id'', Lit ''inspection''], SubmitInspection),
      (GET, [Lit ''api'', Lit ''missions'', Param ''code''], GetMission),
      (PUT, [Lit ''api'', Lit ''missions'', Param ''id'', Lit ''status''], SetStatus),
      (POST, [Lit ''api'', Lit ''uploads'', Lit ''photos'', Param ''missionId''], UploadPhoto),
      (PUT, [Lit ''api'', Lit ''missions'', Param ''id'', Lit ''observations''], PutObservations),
      (POST, [Lit ''api'', Lit ''missions'', Param ''id'', Lit ''signature''], PostSignature),
      (GET, [Lit ''api'', Lit ''stats'', Lit ''advanced''], StatsAdvanced),
      (GET, [Lit ''api'', Lit ''missions'', Lit ''search''], SearchMissions),
      (GET, [Lit ''api'', Lit ''reports'', Param ''missionId'', Lit ''pdf''], ReportPdf),
      (GET, [], Root)]"

text \<open>
  Express matches a path segment by segment: a literal segment matches without
  regard to case, a parameter matches any non-empty segment and binds it.
\<close>

fun match_path :: "segment list \<Rightarrow> string list \<Rightarrow> (string \<times> string) list option" where
  "match_path [] [] = Some []"
| "match_path (Lit l # ps) (x # xs) = (if lower l = lower x then match_path ps xs else None)"
| "match_path (Param n # ps) (x # xs) =
     (if x = [] then None else map_option (\<lambda>bs. (n, x) # bs) (match_path ps xs))"
| "match_path ps xs = None"

text \<open>The segments of a request path; one trailing slash is ignored.\<close>

definition path_segments :: "string \<Rightarrow> string list option" where
  "path_segments p =
     (case split_on CHR ''/'' p of
        [] # rest \<Rightarrow> Some (if rest \<noteq> [] \<and> last rest = [] then butlast rest else rest)
      | other \<Rightarrow> None)"

text \<open>
  The router runs the first route whose method and path match. No handler of
  this server calls \<^verbatim>\<open>next()\<close>, so no later route runs; a request that no route
  matches reaches the catch-all.
\<close>

fun first_match ::
  "(http_method \<times> segment list \<times> handler) list \<Rightarrow> http_method \<Rightarrow> string list
     \<Rightarrow> handler \<times> (string \<times> string) list" where
  "first_match [] m xs = (CatchAll, [])"
| "first_match ((m', pat, h) # rs) m xs =
     (if m' = m then
        (case match_path pat xs of
           Some params \<Rightarrow> (h, params)
         | None \<Rightarrow> first_match rs m xs)
      else first_match rs m xs)"

definition dispatch :: "http_method \<Rightarrow> string \<Rightarrow> handler \<times> (string \<times> string) list" where
  "dispatch m p =
     (case path_segments p of
        None \<Rightarrow> (CatchAll, [])
      | Some xs \<Rightarrow> first_match routes m xs)"

text \<open>\<^verbatim>\<open>req.params[name]\<close>\<close>

definition param :: "string \<Rightarrow> (string \<times> string) list \<Rightarrow> string" where
  "param n ps = (case map_of ps n of None \<Rightarrow> [] | Some v \<Rightarrow> v)"

text \<open>
  What a GET request under \<^verbatim>\<open>/api/missions/\<close> is answered with: the reply of the
  handler the router selects.
\<close>

datatype reply =
    Mission_reply "mission_view response"
  | Search_reply "mission list response"
  | Other_reply handler

definition serve_GET :: "env \<Rightarrow> string \<Rightarrow> search_filters \<Rightarrow> store \<Rightarrow> reply" where
  "serve_GET e p f s =
     (case dispatch GET p of
        (GetMission, ps) \<Rightarrow> Mission_reply (getByCodeOrId e (param ''code'' ps) s)
      | (SearchMissions, ps) \<Rightarrow> Search_reply (search e f s)
      | (h, ps) \<Rightarrow> Other_reply h)"

subsection \<open>The specification's reading of a status change\<close>

text \<open>
  What the specification says a status change does to the row: the status is
  overwritten, started_at is set exactly when the new status is in_progress,
  completed_at exactly when it is completed (and is never cleared), and
  updated_at is refreshed; the flag says whether the refresh takes place.
\<close>

definition status_transition :: "bool \<Rightarrow> timestamp \<Rightarrow> string \<Rightarrow> mission \<Rightarrow> mission" where
  "status_transition refresh now st m =
     m\<lparr> status := st,
        updated_at := (if refresh then now else updated_at m),
        started_at := (if st = ''in_progress'' then Some now else started_at m),
        completed_at := (if st = ''completed'' then Some now else completed_at m) \<rparr>"

subsection \<open>Sample data\<close>

text \<open>
  The creation request of the specification's scenario, a request environment
  on 2024-03-01 in which every query reaches the database, and a store holding
  one mission created the day before.
\<close>

definition scenario_body :: create_body where
  "scenario_body =
     \<lparr> vehicleBrand = Some ''Renault'', vehicleModel = Some ''Clio'', vehicleYear = None,
       licensePlate = None, b_vin = None, b_mileage = None, fuelLevel = None,
       interiorCondition = None, exteriorCondition = None, missionType = None,
       pickupLocation = Some ''Paris'', deliveryLocation = Some ''Lyon'',
       pickupDate = None, deliveryDate = None, b_urgency = None,
       clientName = Some ''A'', clientEmail = Some ''a@x.com'', clientPhone = None,
       clientCompany = None, providerName = None, providerEmail = None,
       providerPhone = None, b_observations = None, internalNotes = None \<rparr>"

definition march_first :: env where
  "march_first =
     \<lparr> today = \<lparr> utc_year = 2024, utc_month = 3, utc_day = 1 \<rparr>,
       epoch_ms = 1709287200000, db_now = 1709287200, random1000 = 999,
       up = (\<lambda>k. True) \<rparr>"

definition sample_mission :: mission where
  "sample_mission =
     (new_mission_row ''FA-20240229-001'' scenario_body)
       \<lparr> m_id := 1, created_at := 1709200800, updated_at := 1709200800 \<rparr>"

definition sample_store :: store where
  "sample_store = empty_store \<lparr> missions := [sample_mission], missions_id_seq := 2 \<rparr>"

subsection \<open>Vocabulary of the properties\<close>

text \<open>A decimal digit, and the value of a string of decimal digits, as \<open>parseInt\<close> reads them.\<close>

definition is_digit :: "char \<Rightarrow> bool" where
  "is_digit c = is_radix_digit 10 c"

definition decimal :: "string \<Rightarrow> nat" where
  "decimal ds = radix_value 10 ds"

text \<open>A text without the three characters that LIKE gives a meaning to.\<close>

definition wildcard_free :: "string \<Rightarrow> bool" where
  "wildcard_free s = list_all (\<lambda>c. c \<noteq> CHR ''%'' \<and> c \<noteq> CHR ''_'' \<and> c \<noteq> CHR 0x5C) s"

text \<open>The common prefix of the mission codes of one day.\<close>

definition day_prefix :: "jsdate \<Rightarrow> string" where
  "day_prefix d = ''FA-'' @ date_stamp d @ ''-''"


text \<open>
  The creation requests that the columns of \<^verbatim>\<open>missions\<close> accept, field by field
  against \<^verbatim>\<open>CREATE TABLE\<close>: on the enhanced server, and on the basic server, whose
  INSERT leaves out fuel level, the two conditions and the mission type.
\<close>

definition body_accepted :: "create_body \<Rightarrow> bool" where
  "body_accepted b =
     (integer_column (vehicleYear b) \<and> integer_column (b_mileage b)
      \<and> varchar_column 100 (vehicleBrand b) \<and> varchar_column 100 (vehicleModel b)
      \<and> varchar_column 20 (licensePlate b) \<and> varchar_column 50 (b_vin b)
      \<and> varchar_column 20 (fuelLevel b) \<and> varchar_column 20 (interiorCondition b)
      \<and> varchar_column 20 (exteriorCondition b) \<and> varchar_column 20 (missionType b)
      \<and> varchar_column 20 (b_urgency b)
      \<and> varchar_column 255 (clientName b) \<and> varchar_column 255 (clientEmail b)
      \<and> varchar_column 20 (clientPhone b) \<and> varchar_column 255 (clientCompany b)
      \<and> varchar_column 255 (providerName b) \<and> varchar_column 255 (providerEmail b)
      \<and> varchar_column 20 (providerPhone b))"

definition body_accepted_basic :: "create_body \<Rightarrow> bool" where
  "body_accepted_basic b =
     (integer_column (vehicleYear b) \<and> integer_column (b_mileage b)
      \<and> varchar_column 100 (vehicleBrand b) \<and> varchar_column 100 (vehicleModel b)
      \<and> varchar_column 20 (licensePlate b) \<and> varchar_column 50 (b_vin b)
      \<and> varchar_column 20 (b_urgency b)
      \<and> varchar_column 255 (clientName b) \<and> varchar_column 255 (clientEmail b)
      \<and> varchar_column 20 (clientPhone b) \<and> varchar_column 255 (clientCompany b)
      \<and> varchar_column 255 (providerName b) \<and> varchar_column 255 (providerEmail b)
      \<and> varchar_column 20 (providerPhone b))"

text \<open>
  A text field of at most \<open>n\<close> characters, and a creation request whose texts are
  within the widths of the VARCHAR columns they are written to and whose
  integers are within the INTEGER range.
\<close>

definition fits_width :: "nat \<Rightarrow> string option \<Rightarrow> bool" where
  "fits_width n v = (case v of None \<Rightarrow> True | Some x \<Rightarrow> length x \<le> n)"

definition body_fits :: "create_body \<Rightarrow> bool" where
  "body_fits b =
     (fits_width 100 (vehicleBrand b) \<and> fits_width 100 (vehicleModel b)
      \<and> integer_column (vehicleYear b) \<and> fits_width 20 (licensePlate b) \<and> fits_width 50 (b_vin b)
      \<and> integer_column (b_mileage b) \<and> fits_width 20 (fuelLevel b)
      \<and> fits_width 20 (interiorCondition b) \<and> fits_width 20 (exteriorCondition b)
      \<and> fits_width 20 (missionType b) \<and> fits_width 20 (b_urgency b)
      \<and> fits_width 255 (clientName b) \<and> fits_width 255 (clientEmail b)
      \<and> fits_width 20 (clientPhone b) \<and> fits_width 255 (clientCompany b)
      \<and> fits_width 255 (providerName b) \<and> fits_width 255 (providerEmail b)
      \<and> fits_width 20 (providerPhone b))"

text \<open>The specification's case-insensitive substring match.\<close>

definition contains_ci :: "string \<Rightarrow> string \<Rightarrow> bool" where
  "contains_ci needle hay = sublist (lower needle) (lower hay)"

text \<open>
  The same environment with the lookup query of the code generator failing (the
  insert still reaches the database), and three stores reached from the empty
  one by creations on 2024-03-01: after one creation whose lookup failed and
  drew the random suffix 999; after a further creation; and after a normal
  creation followed by one whose lookup failed and drew 003.
\<close>

definition lookup_down :: env where
  "lookup_down = march_first \<lparr> up := (\<lambda>k. k \<noteq> 0) \<rparr>"

definition store_999 :: store where
  "store_999 = snd (create lookup_down scenario_body empty_store)"

definition store_1000 :: store where
  "store_1000 = snd (create march_first scenario_body store_999)"



text \<open>
  A store whose only mission carries the highest eight-digit sequence of
  2024-03-01, a code of twenty characters.
\<close>

definition store_eight_nines :: store where
  "store_eight_nines =
     sample_store \<lparr> missions := [sample_mission \<lparr> mission_code := ''FA-20240301-99999999'' \<rparr>] \<rparr>"

text \<open>Two inspection payloads for the same mission, differing in every field.\<close>

definition first_inspection :: inspection_body where
  "first_inspection =
     \<lparr> ib_observations = Some ''scratch on the left door'', ib_signature = Some ''sig-1'',
       ib_checklist = Some (JObj [(''lights'', JBool True), (''tyres'', JStr ''worn'')]),
       keyCount = Some 2, optionalPhotos = Some 0 \<rparr>"

definition second_inspection :: inspection_body where
  "second_inspection =
     \<lparr> ib_observations = None, ib_signature = Some ''sig-2'',
       ib_checklist = Some (JObj [(''lights'', JBool False)]),
       keyCount = Some 1, optionalPhotos = Some 3 \<rparr>"

text \<open>The first payload with a key count of \<open>2\<^sup>3\<^sup>1\<close>, one above the INTEGER range.\<close>

definition large_key_count :: inspection_body where
  "large_key_count = first_inspection \<lparr> keyCount := Some 2147483648 \<rparr>"




text \<open>
  A store for reading: the sample mission with an inspection and two photos,
  the first of them uploaded again after the second.
\<close>

definition front_photo :: photo where
  "front_photo =
     \<lparr> p_id = 1, p_mission_id = 1, photo_type = ''front'',
       filename = ''1709290800000_retake.png'', original_name = Some ''retake.png'',
       file_size = Some 512000, mime_type = Some ''image/png'',
       storage_url = mockUrl ''007bff'' (Some ''front''), uploaded_at = 1709290800,
       gps_latitude = None, gps_longitude = None, device_info = None \<rparr>"

definition rear_photo :: photo where
  "rear_photo =
     \<lparr> p_id = 2, p_mission_id = 1, photo_type = ''rear'',
       filename = ''1709287300000_rear.jpg'', original_name = Some ''rear.jpg'',
       file_size = Some 204800, mime_type = Some ''image/jpeg'',
       storage_url = mockUrl ''007bff'' (Some ''rear''), uploaded_at = 1709287300,
       gps_latitude = None, gps_longitude = None, device_info = None \<rparr>"

definition sample_inspection :: inspection where
  "sample_inspection =
     \<lparr> i_id = 1, i_mission_id = 1, i_observations = Some ''scratch on the left door'',
       signature = Some ''sig-1'',
       checklist = Some (JObj [(''lights'', JBool True), (''tyres'', JStr ''worn'')]),
       key_count = Some 2,
       optional_photos_count = Some 0, i_created_at = 1709287200, i_updated_at = 1709287200 \<rparr>"

definition read_store :: store where
  "read_store =
     sample_store \<lparr> mission_photos := [front_photo, rear_photo],
                    inspections := [sample_inspection],
                    mission_photos_id_seq := 4, inspections_id_seq := 2 \<rparr>"

text \<open>The environment of a request during which the database is unreachable.\<close>

definition offline :: env where
  "offline = march_first \<lparr> up := (\<lambda>k. False) \<rparr>"

text \<open>
  The query of the specification's search scenario, the query without any
  filter, a query whose free text is the LIKE wildcard for one character, and a
  store holding one completed Renault.
\<close>

definition completed_ren :: search_filters where
  "completed_ren =
     \<lparr> query_q = None, query_status = Some ''completed'', query_dateFrom = None,
       query_dateTo = None, query_vehicleBrand = Some ''ren'' \<rparr>"

definition no_filters :: search_filters where
  "no_filters =
     \<lparr> query_q = None, query_status = None, query_dateFrom = None,
       query_dateTo = None, query_vehicleBrand = None \<rparr>"

definition underscore_query :: search_filters where
  "underscore_query = no_filters \<lparr> query_q := Some ''_'' \<rparr>"

definition completed_store :: store where
  "completed_store =
     sample_store \<lparr> missions := [sample_mission \<lparr> status := ''completed'' \<rparr>] \<rparr>"

text \<open>
  The specification's reading of the search filters: each filter that is given
  (not missing and not empty) must hold; the free text must occur, without
  regard to case, in the code, the client name, the brand or the model.
\<close>

definition spec_matches :: "search_filters \<Rightarrow> mission \<Rightarrow> bool" where
  "spec_matches f m =
     ((case query_q f of
         None \<Rightarrow> True
       | Some q \<Rightarrow> q = [] \<or> contains_ci q (mission_code m) \<or> contains_ci q (client_name m)
                   \<or> contains_ci q (vehicle_brand m) \<or> contains_ci q (vehicle_model m))
      \<and> (case query_status f of None \<Rightarrow> True | Some st \<Rightarrow> st = [] \<or> status m = st)
      \<and> (case query_dateFrom f of None \<Rightarrow> True | Some d \<Rightarrow> d \<le> created_at m)
      \<and> (case query_dateTo f of None \<Rightarrow> True | Some d \<Rightarrow> created_at m \<le> d)
      \<and> (case query_vehicleBrand f of
            None \<Rightarrow> True
          | Some b \<Rightarrow> b = [] \<or> contains_ci b (vehicle_brand m)))"

section \<open>Properties\<close>

subsection \<open>Row updates\<close>

lemma m_id_assign [simp]: "m_id (assign now m a) = m_id m"
  by (cases a) simp_all

lemma m_id_foldl_assign [simp]: "m_id (foldl (assign now) m sets) = m_id m"
  by (induction sets arbitrary: m) simp_all




lemma filter_map_same_key:
  assumes "\<And>m. key (f m) = key m"
  shows "filter (\<lambda>m. key m = i) (map (\<lambda>m. if key m = i then f m else m) xs)
         = map f (filter (\<lambda>m. key m = i) xs)"
  using assms by (induction xs) auto



subsection \<open>Status changes\<close>










lemma row_of_map:
  assumes "row \<in> set (map (\<lambda>m. if key m = i then f m else m) xs)" "key row = i"
    and "\<And>m. key (f m) = key m"
  shows "\<exists>m \<in> set xs. row = f m"
proof -
  from assms(1) obtain m where m: "m \<in> set xs" "row = (if key m = i then f m else m)"
    by auto
  show ?thesis
  proof (cases "key m = i")
    case True with m show ?thesis by auto
  next
    case False with m assms(2) show ?thesis by simp
  qed
qed

lemma m_id_status_transition [simp]: "m_id (status_transition r now st m) = m_id m"
  by (simp add: status_transition_def)



lemma sample_facts:
  "missions sample_store = [sample_mission]" "m_id sample_mission = 1"
  "updated_at sample_mission = 1709200800" "db_now march_first = 1709287200"
  "up march_first k"
  by (simp_all add: sample_store_def sample_mission_def march_first_def empty_store_def)








subsection \<open>LIKE patterns\<close>

lemma like_literal:
  "wildcard_free q \<Longrightarrow> like_match (q @ ps) s = (\<exists>t. s = q @ t \<and> like_match ps t)"
proof (induction q arbitrary: s)
  case Nil
  then show ?case by simp
next
  case (Cons c q)
  then have c: "c \<noteq> CHR ''%''" "c \<noteq> CHR ''_''" "c \<noteq> CHR 0x5C" and q: "wildcard_free q"
    by (simp_all add: wildcard_free_def)
  show ?case
  proof (cases s)
    case Nil
    with c show ?thesis by (simp add: like_match.simps(2))
  next
    case (Cons x t)
    with c Cons.IH[OF q] show ?thesis by (auto simp add: like_match.simps(2))
  qed
qed

lemma like_percent:
  "like_match (CHR ''%'' # ps) s = (\<exists>u t. s = u @ t \<and> like_match ps t)"
proof (induction s)
  case Nil
  then show ?case by (simp add: like_match.simps(2))
next
  case (Cons c s)
  have "like_match (CHR ''%'' # ps) (c # s)
        = (like_match ps (c # s) \<or> like_match (CHR ''%'' # ps) s)"
    by (simp add: like_match.simps(2))
  also have "\<dots> = (like_match ps (c # s) \<or> (\<exists>u t. s = u @ t \<and> like_match ps t))"
    using Cons.IH by simp
  also have "\<dots> = (\<exists>u t. c # s = u @ t \<and> like_match ps t)"
    by (auto simp: Cons_eq_append_conv)
  finally show ?case .
qed

lemma like_prefix:
  "wildcard_free q \<Longrightarrow> like_match (q @ ''%'') s = prefix q s"
  by (auto simp: like_literal like_percent prefix_def)

lemma like_contains:
  assumes "wildcard_free q"
  shows "like_match (''%'' @ q @ ''%'') s = sublist q s"
proof -
  have "like_match (''%'' @ q @ ''%'') s = (\<exists>u t. s = u @ t \<and> like_match (q @ ''%'') t)"
    using like_percent[of "q @ ''%''" s] by simp
  also have "\<dots> = (\<exists>u t. s = u @ t \<and> prefix q t)"
    using like_prefix[OF assms] by simp
  also have "\<dots> = sublist q s"
    by (auto simp: sublist_def prefix_def)
  finally show ?thesis .
qed

lemma lower_char_not_wild:
  "lower_char c = CHR ''%'' \<longleftrightarrow> c = CHR ''%''"
  "lower_char c = CHR ''_'' \<longleftrightarrow> c = CHR ''_''"
  "lower_char c = CHR 0x5C \<longleftrightarrow> c = CHR 0x5C"
  by (auto simp: lower_char_def Let_def dest: arg_cong[where f = "of_char :: char \<Rightarrow> nat"])

lemma wildcard_free_lower: "wildcard_free (lower q) = wildcard_free q"
  by (induction q) (simp_all add: wildcard_free_def lower_def lower_char_not_wild)

lemma lower_percent: "lower (''%'' @ q @ ''%'') = ''%'' @ lower q @ ''%''"
  by (simp add: lower_def lower_char_def)

lemma ilike_contains:
  "wildcard_free q \<Longrightarrow> ilike txt (''%'' @ q @ ''%'') = contains_ci q txt"
  unfolding ilike_def contains_ci_def lower_percent
  by (rule like_contains) (simp add: wildcard_free_lower)

subsection \<open>Decimal digits\<close>

lemma of_char_digit_char: "d < 10 \<Longrightarrow> (of_char (digit_char d) :: nat) = 48 + d"
  by (simp add: digit_char_def)

lemma digit_value_digit_char: "d < 10 \<Longrightarrow> digit_value (digit_char d) = Some d"
  by (simp add: digit_value_def of_char_digit_char Let_def)

lemma is_digit_digit_char: "d < 10 \<Longrightarrow> is_digit (digit_char d)"
  by (simp add: is_digit_def is_radix_digit_def digit_value_digit_char)

lemma is_digit_zero: "is_digit (CHR ''0'')"
  by (simp add: is_digit_def is_radix_digit_def digit_value_def)

lemma is_digit_range: "is_digit c \<longleftrightarrow> 48 \<le> (of_char c :: nat) \<and> (of_char c :: nat) \<le> 57"
  by (auto simp: is_digit_def is_radix_digit_def digit_value_def Let_def split: if_splits)

lemma is_digit_not_special:
  assumes "is_digit c"
  shows "c \<noteq> CHR ''-''" "c \<noteq> CHR ''+''" "c \<noteq> CHR ''%''" "c \<noteq> CHR ''_''" "c \<noteq> CHR 0x5C"
    "c \<noteq> CHR ''x''" "c \<noteq> CHR ''X''" "\<not> is_space c"
  using assms by (auto simp: is_digit_range is_space_def)

lemma digits_string_of_nat: "list_all is_digit (string_of_nat n)"
proof (induction n rule: string_of_nat.induct)
  case (1 n)
  show ?case
  proof (cases "n < 10")
    case True
    then show ?thesis by (subst string_of_nat.simps) (simp add: is_digit_digit_char)
  next
    case False
    with 1 show ?thesis
      by (subst string_of_nat.simps) (simp add: is_digit_digit_char)
  qed
qed

lemma string_of_nat_nonempty: "string_of_nat n \<noteq> []"
  by (subst string_of_nat.simps) simp



lemma digits_padStart0: "list_all is_digit s \<Longrightarrow> list_all is_digit (padStart0 k s)"
  by (auto simp: padStart0_def is_digit_zero list_all_iff)

lemma radix_value_snoc:
  "radix_value r (ds @ [c]) = radix_value r ds * r + (case digit_value c of None \<Rightarrow> 0 | Some v \<Rightarrow> v)"
  by (simp add: radix_value_def)

lemma decimal_string_of_nat: "decimal (string_of_nat n) = n"
proof (induction n rule: string_of_nat.induct)
  case (1 n)
  show ?case
  proof (cases "n < 10")
    case True
    then show ?thesis
      by (subst string_of_nat.simps) (simp add: decimal_def radix_value_def digit_value_digit_char)
  next
    case False
    with 1 have "decimal (string_of_nat (n div 10)) = n div 10" by simp
    with False show ?thesis
      by (subst string_of_nat.simps)
         (simp add: decimal_def radix_value_snoc digit_value_digit_char)
  qed
qed



lemma takeWhile_digits: "list_all is_digit ds \<Longrightarrow> takeWhile (is_radix_digit 10) ds = ds"
  by (induction ds) (simp_all add: is_digit_def)

lemma parseInt_digits:
  assumes "list_all is_digit ds" "ds \<noteq> []"
  shows "parseInt (Some ds) = Num (int (decimal ds))"
proof -
  from assms obtain c cs where ds: "ds = c # cs" "is_digit c" "list_all is_digit cs"
    by (cases ds) auto
  have sp: "dropWhile is_space ds = ds" using ds is_digit_not_special(8) by simp
  have sign: "take 1 ds \<noteq> ''-''" "take 1 ds \<noteq> ''+''"
    using ds is_digit_not_special(1,2) by auto
  have hex: "take 2 ds \<noteq> ''0x''" "take 2 ds \<noteq> ''0X''"
    using ds is_digit_not_special(6,7) by (cases cs; auto)+
  have "parse_radix ds = Some (decimal ds)"
    using hex assms by (simp add: parse_radix_def parse_digits_def takeWhile_digits decimal_def)
  then show ?thesis using sp sign by (simp add: parseInt_def Let_def)
qed

subsection \<open>Splitting at a separator\<close>

lemma split_on_none: "d \<notin> set a \<Longrightarrow> split_on d a = [a]"
  by (induction a) auto

lemma split_on_append: "d \<notin> set a \<Longrightarrow> split_on d (a @ d # b) = a # split_on d b"
  by (induction a) auto

subsection \<open>The date stamp\<close>


lemma date_stamp_chars:
  assumes "c \<in> set (date_stamp d)"
  shows "is_digit c \<or> c = CHR ''+''"
proof -
  have pad: "\<And>k n x. x \<in> set (padStart0 k (string_of_nat n)) \<Longrightarrow> is_digit x"
    using digits_padStart0[OF digits_string_of_nat] by (simp add: list_all_iff)
  from assms have "c \<in> set (toISOString_date d)" "c \<noteq> CHR ''-''"
    by (auto simp: date_stamp_def dest: in_set_takeD)
  then show ?thesis
    by (auto simp: toISOString_date_def dest: pad split: if_splits)
qed

lemma date_stamp_no_dash: "CHR ''-'' \<notin> set (date_stamp d)"
  by (simp add: date_stamp_def)

lemma date_stamp_wildcard_free: "wildcard_free (date_stamp d)"
  unfolding wildcard_free_def list_all_iff
  using date_stamp_chars[of _ d] is_digit_not_special(3,4,5) by fastforce


lemma day_prefix_wildcard_free: "wildcard_free (day_prefix d)"
  using date_stamp_wildcard_free[of d] by (simp add: day_prefix_def wildcard_free_def)

subsection \<open>The lookup of the last code\<close>

lemma sorted_le_last: "sorted ys \<Longrightarrow> y \<in> set ys \<Longrightarrow> y \<le> last ys"
  by (induction ys) (auto)

lemma take1_rev_sort:
  fixes xs :: "'a::linorder list"
  assumes "xs \<noteq> []"
  shows "\<exists>l. take 1 (rev (sort xs)) = [l] \<and> l \<in> set xs \<and> (\<forall>c\<in>set xs. c \<le> l)"
proof -
  let ?ys = "sort xs"
  have ne: "?ys \<noteq> []" using assms by (metis length_sort length_0_conv)
  then have t: "take 1 (rev ?ys) = [last ?ys]"
    by (cases ?ys rule: rev_cases) simp_all
  have m: "last ?ys \<in> set xs" using last_in_set[OF ne] by simp
  have "\<forall>c\<in>set xs. c \<le> last ?ys"
    using sorted_le_last[of ?ys] by simp
  with t m show ?thesis by blast
qed

lemma select_last_code_none:
  assumes "\<forall>c \<in> set (map mission_code (missions s)). \<not> prefix (day_prefix d) c"
  shows "select_last_code (day_prefix d @ ''%'') s = []"
proof -
  have "filter (\<lambda>c. like c (day_prefix d @ ''%'')) (map mission_code (missions s)) = []"
    using assms by (simp add: filter_empty_conv like_def like_prefix day_prefix_wildcard_free)
  then show ?thesis by (simp add: select_last_code_def)
qed

lemma select_last_code_max:
  assumes "l \<in> set (map mission_code (missions s))" "prefix (day_prefix d) l"
    and "\<forall>c \<in> set (map mission_code (missions s)). prefix (day_prefix d) c \<longrightarrow> c \<le> l"
  shows "select_last_code (day_prefix d @ ''%'') s = [l]"
proof -
  let ?xs = "filter (\<lambda>c. like c (day_prefix d @ ''%'')) (map mission_code (missions s))"
  have mem: "\<And>c. c \<in> set ?xs \<longleftrightarrow> c \<in> set (map mission_code (missions s)) \<and> prefix (day_prefix d) c"
    by (simp add: like_def like_prefix day_prefix_wildcard_free)
  from assms(1,2) have "l \<in> set ?xs" by (simp only: mem)
  then have "?xs \<noteq> []" by (metis empty_iff empty_set)
  from take1_rev_sort[OF this] obtain l' where l': "take 1 (rev (sort ?xs)) = [l']"
    "l' \<in> set ?xs" "\<forall>c\<in>set ?xs. c \<le> l'" by blast
  from l'(2) assms(3) have "l' \<le> l" using mem by blast
  moreover from l'(3) \<open>l \<in> set ?xs\<close> have "l \<le> l'" by blast
  ultimately have "l' = l" by simp
  with l'(1) show ?thesis by (simp add: select_last_code_def)
qed

subsection \<open>The code generator\<close>

lemma generate_pattern: "''FA-'' @ date_stamp d @ ''-%'' = day_prefix d @ ''%''"
  by (simp add: day_prefix_def)

lemma generate_fallback:
  "\<not> up e 0 \<Longrightarrow> generateMissionCode e s
     = day_prefix (today e) @ padStart0 3 (string_of_nat (random1000 e))"
  by (simp add: generateMissionCode_def day_prefix_def Let_def)

lemma generate_first:
  assumes "up e 0"
    and "\<forall>c \<in> set (map mission_code (missions s)). \<not> prefix (day_prefix (today e)) c"
  shows "generateMissionCode e s = day_prefix (today e) @ ''001''"
proof -
  have one: "padStart0 3 (js_toString (Num 1)) = ''001''"
    by code_simp
  show ?thesis
    using assms(1) select_last_code_none[OF assms(2)] one
    by (simp add: generateMissionCode_def Let_def generate_pattern) (simp add: day_prefix_def)
qed

lemma third_part:
  assumes "list_all is_digit ds"
  shows "js_index (split_on CHR ''-'' (day_prefix d @ ds)) 2 = Some ds"
proof -
  have "CHR ''-'' \<notin> set ds" using assms is_digit_not_special(1) by (auto simp: list_all_iff)
  then have 3: "split_on CHR ''-'' ds = [ds]" by (rule split_on_none)
  have 2: "split_on CHR ''-'' (date_stamp d @ CHR ''-'' # ds) = date_stamp d # [ds]"
    using split_on_append[OF date_stamp_no_dash] 3 by simp
  have "split_on CHR ''-'' (''FA'' @ CHR ''-'' # (date_stamp d @ CHR ''-'' # ds))
          = ''FA'' # split_on CHR ''-'' (date_stamp d @ CHR ''-'' # ds)"
    by (rule split_on_append) simp
  with 2 have "split_on CHR ''-'' (day_prefix d @ ds) = [''FA'', date_stamp d, ds]"
    by (simp add: day_prefix_def)
  then show ?thesis by (simp add: js_index_def)
qed

lemma generate_next:
  assumes "up e 0"
    and "day_prefix (today e) @ ds \<in> set (map mission_code (missions s))"
    and "\<forall>c \<in> set (map mission_code (missions s)).
           prefix (day_prefix (today e)) c \<longrightarrow> c \<le> day_prefix (today e) @ ds"
    and "list_all is_digit ds" "ds \<noteq> []"
  shows "generateMissionCode e s
           = day_prefix (today e) @ padStart0 3 (string_of_nat (decimal ds + 1))"
proof -
  have sel: "select_last_code (day_prefix (today e) @ ''%'') s = [day_prefix (today e) @ ds]"
    using select_last_code_max[OF assms(2) _ assms(3)] by simp
  have "js_add1 (parseInt (js_index (split_on CHR ''-'' (day_prefix (today e) @ ds)) 2))
          = Num (int (decimal ds) + 1)"
    by (simp add: third_part[OF assms(4)] parseInt_digits[OF assms(4,5)])
  moreover have "js_toString (Num (int (decimal ds) + 1)) = string_of_nat (decimal ds + 1)"
    by (simp add: nat_add_distrib)
  ultimately show ?thesis
    using assms(1) sel
    by (simp add: generateMissionCode_def Let_def generate_pattern) (simp add: day_prefix_def)
qed

subsection \<open>Evaluation on numerals\<close>

lemma digit_chars:
  "digit_char 0 = CHR ''0''" "digit_char 1 = CHR ''1''" "digit_char 2 = CHR ''2''"
  "digit_char 3 = CHR ''3''" "digit_char 4 = CHR ''4''" "digit_char 5 = CHR ''5''"
  "digit_char 6 = CHR ''6''" "digit_char 7 = CHR ''7''" "digit_char 8 = CHR ''8''"
  "digit_char 9 = CHR ''9''" "digit_char (Suc 0) = CHR ''1''"
  by (simp_all add: digit_char_def char_of_eq_iff)

lemma zeros: "replicate 2 c = [c, c]" "replicate 3 c = [c, c, c]"
  by (simp_all add: numeral_2_eq_2 numeral_3_eq_3)

lemma march_first_day:
  "valid_date (today march_first)"
  "date_stamp (today march_first) = ''20240301''"
  "day_prefix (today march_first) = ''FA-20240301-''"
  by (simp_all add: march_first_def valid_date_def day_prefix_def date_stamp_def
      toISOString_date_def padStart0_def string_of_nat.simps digit_chars zeros)

lemma seq_strings:
  "padStart0 3 (string_of_nat 1) = ''001''" "padStart0 3 (string_of_nat 3) = ''003''"
  "padStart0 3 (string_of_nat 4) = ''004''"
  "padStart0 3 (string_of_nat 999) = ''999''" "padStart0 3 (string_of_nat 1000) = ''1000''"
  by (simp_all add: padStart0_def string_of_nat.simps digit_chars zeros)

subsection \<open>Columns\<close>

lemma varchar_fits_length: "length x \<le> n \<Longrightarrow> varchar_fits n x"
  by (simp add: varchar_fits_def)

lemma varchar_id: "length x \<le> n \<Longrightarrow> varchar n x = x"
  by (simp add: varchar_def)

lemma varchar_fits_last:
  assumes "x \<noteq> []" "last x \<noteq> CHR 0x20"
  shows "varchar_fits n x \<longleftrightarrow> length x \<le> n"
proof
  assume f: "varchar_fits n x"
  show "length x \<le> n"
  proof (rule ccontr)
    assume "\<not> length x \<le> n"
    then have l: "n < length x" by simp
    then have "drop n x \<noteq> []" by simp
    then have "last (drop n x) \<in> set (drop n x)" by (rule last_in_set)
    moreover have "last (drop n x) = last x" using l by (rule last_drop)
    ultimately show False using f assms(2) by (auto simp: varchar_fits_def list_all_iff)
  qed
next
  assume "length x \<le> n"
  then show "varchar_fits n x" by (rule varchar_fits_length)
qed

lemma is_digit_no_space: "is_digit c \<Longrightarrow> c \<noteq> CHR 0x20"
  by (auto simp: is_digit_range)

lemma last_string_of_nat: "last (string_of_nat n) \<noteq> CHR 0x20"
proof -
  have "last (string_of_nat n) \<in> set (string_of_nat n)"
    using string_of_nat_nonempty by (rule last_in_set)
  with digits_string_of_nat[of n] have "is_digit (last (string_of_nat n))"
    by (simp add: list_all_iff)
  then show ?thesis by (rule is_digit_no_space)
qed

lemma js_toString_last: "js_toString x \<noteq> [] \<and> last (js_toString x) \<noteq> CHR 0x20"
  by (cases x) (simp_all add: string_of_nat_nonempty last_string_of_nat)

lemma padStart0_last: "t \<noteq> [] \<Longrightarrow> padStart0 n t \<noteq> [] \<and> last (padStart0 n t) = last t"
  by (simp add: padStart0_def)

lemma generated_shape:
  "\<exists>x. generateMissionCode e s = day_prefix (today e) @ padStart0 3 (js_toString x)"
  by (cases "up e 0")
     (auto simp add: generateMissionCode_def day_prefix_def Let_def simp del: js_toString.simps)

lemma generated_fits:
  "varchar_fits n (generateMissionCode e s) \<longleftrightarrow> length (generateMissionCode e s) \<le> n"
proof -
  from generated_shape obtain x
    where g: "generateMissionCode e s = day_prefix (today e) @ padStart0 3 (js_toString x)"
    by blast
  from js_toString_last[of x] padStart0_last[of "js_toString x" 3]
  have "padStart0 3 (js_toString x) \<noteq> []" "last (padStart0 3 (js_toString x)) \<noteq> CHR 0x20"
    by simp_all
  then have "generateMissionCode e s \<noteq> []" "last (generateMissionCode e s) \<noteq> CHR 0x20"
    unfolding g by simp_all
  then show ?thesis by (rule varchar_fits_last)
qed



lemma varchar_column_simps [simp]:
  "varchar_column n None" "varchar_column n (Some x) = varchar_fits n x"
  by (simp_all add: varchar_column_def)

lemma integer_column_iff:
  "integer_column v \<longleftrightarrow> (\<forall>x. v = Some x \<longrightarrow> - 2147483648 \<le> x \<and> x \<le> 2147483647)"
  by (cases v) (simp_all add: integer_column_def integer_range_def)

lemma varchar_fits_iff:
  "varchar_fits n x \<longleftrightarrow> (\<forall>k. n \<le> k \<and> k < length x \<longrightarrow> x ! k = CHR 0x20)"
proof
  assume f: "varchar_fits n x"
  show "\<forall>k. n \<le> k \<and> k < length x \<longrightarrow> x ! k = CHR 0x20"
  proof (intro allI impI)
    fix k assume k: "n \<le> k \<and> k < length x"
    then have "drop n x ! (k - n) = x ! k" by simp
    moreover from k have "k < length x" "n \<le> k" by blast+
    then have "k - n < length x - n" by (rule diff_less_mono)
    then have "k - n < length (drop n x)" by simp
    ultimately have "x ! k \<in> set (drop n x)" by (metis nth_mem)
    with f show "x ! k = CHR 0x20" by (simp add: varchar_fits_def list_all_iff)
  qed
next
  assume a: "\<forall>k. n \<le> k \<and> k < length x \<longrightarrow> x ! k = CHR 0x20"
  show "varchar_fits n x"
    unfolding varchar_fits_def list_all_iff
  proof
    fix c assume "c \<in> set (drop n x)"
    then obtain j where j: "j < length (drop n x)" "c = drop n x ! j"
      by (auto simp: in_set_conv_nth)
    then have "c = x ! (n + j)" "n + j < length x" by simp_all
    with a show "c = CHR 0x20" by simp
  qed
qed

lemma varchar_column_iff:
  "varchar_column n t
     \<longleftrightarrow> (\<forall>x. t = Some x \<longrightarrow> (\<forall>k. n \<le> k \<and> k < length x \<longrightarrow> x ! k = CHR 0x20))"
  by (cases t) (simp_all add: varchar_fits_iff)

lemma required_texts: "varchar_fits n (text_value v) \<longleftrightarrow> varchar_column n v"
  by (cases v) (simp_all add: text_value_def varchar_fits_def)

lemma default_texts: "length d \<le> n \<Longrightarrow> varchar_fits n (or_default v d) \<longleftrightarrow> varchar_column n v"
  by (cases v) (simp_all add: or_default_def varchar_fits_length)

lemma width_facts:
  assumes "fits_width n v"
  shows "varchar_column n v" "map_option (varchar n) v = v"
    "varchar_fits n (text_value v)" "varchar n (text_value v) = text_value v"
  using assms
  by (cases v; simp add: fits_width_def varchar_fits_length varchar_id text_value_def)+

lemma width_default:
  assumes "fits_width n v" "length d \<le> n"
  shows "varchar_fits n (or_default v d)" "varchar n (or_default v d) = or_default v d"
  using assms
  by (cases v; simp add: fits_width_def varchar_fits_length varchar_id or_default_def)+

subsection \<open>Creation\<close>

lemma mission_code_new_row [simp]:
  "mission_code (new_mission_row c b) = c" "mission_code (new_mission_row_basic c b) = c"
  "status (new_mission_row c b) = ''pending''" "status (new_mission_row_basic c b) = ''pending''"
  by (simp_all add: new_mission_row_def new_mission_row_basic_def)

lemma as_stored_fields [simp]:
  "mission_code (as_stored r) = varchar 20 (mission_code r)"
  "status (as_stored r) = varchar 50 (status r)"
  "vehicle_brand (as_stored r) = varchar 100 (vehicle_brand r)"
  "vehicle_model (as_stored r) = varchar 100 (vehicle_model r)"
  "pickup_location (as_stored r) = pickup_location r"
  "delivery_location (as_stored r) = delivery_location r"
  "client_name (as_stored r) = varchar 255 (client_name r)"
  "client_email (as_stored r) = varchar 255 (client_email r)"
  by (simp_all add: as_stored_def)

lemma pending_fits: "varchar_fits 50 ''pending''" "varchar 50 ''pending'' = ''pending''"
  by (simp_all add: varchar_fits_def varchar_def)

lemma new_row_integers:
  "integers_fit (new_mission_row c b)
     \<longleftrightarrow> integer_column (vehicleYear b) \<and> integer_column (b_mileage b)"
  "integers_fit (new_mission_row_basic c b)
     \<longleftrightarrow> integer_column (vehicleYear b) \<and> integer_column (b_mileage b)"
  by (simp_all add: integers_fit_def new_mission_row_def new_mission_row_basic_def)


lemma body_fits_row:
  assumes "body_fits b" "length c \<le> 20"
  shows "integers_fit (new_mission_row c b)" "texts_fit (new_mission_row c b)"
    "as_stored (new_mission_row c b) = new_mission_row c b"
proof -
  from assms(1) show "integers_fit (new_mission_row c b)"
    by (simp add: new_row_integers body_fits_def)
  from assms show "texts_fit (new_mission_row c b)"
    by (simp add: texts_fit_def new_mission_row_def body_fits_def width_facts width_default
        varchar_fits_length pending_fits)
  from assms show "as_stored (new_mission_row c b) = new_mission_row c b"
    by (simp add: as_stored_def new_mission_row_def body_fits_def width_facts width_default
        varchar_id pending_fits)
qed

lemma body_fits_row_basic:
  assumes "body_fits b" "length c \<le> 20"
  shows "integers_fit (new_mission_row_basic c b)" "texts_fit (new_mission_row_basic c b)"
    "as_stored (new_mission_row_basic c b) = new_mission_row_basic c b"
proof -
  from assms(1) show "integers_fit (new_mission_row_basic c b)"
    by (simp add: new_row_integers body_fits_def)
  from assms show "texts_fit (new_mission_row_basic c b)"
    by (simp add: texts_fit_def new_mission_row_basic_def new_mission_row_def body_fits_def
        width_facts width_default varchar_fits_length pending_fits)
  from assms show "as_stored (new_mission_row_basic c b) = new_mission_row_basic c b"
    by (simp add: as_stored_def new_mission_row_basic_def new_mission_row_def body_fits_def
        width_facts width_default varchar_id pending_fits)
qed

lemma row_accepted:
  "integers_fit (new_mission_row c b) \<and> texts_fit (new_mission_row c b)
     \<longleftrightarrow> varchar_fits 20 c \<and> body_accepted b"
  by (simp add: integers_fit_def texts_fit_def new_mission_row_def body_accepted_def
      required_texts default_texts pending_fits) blast

lemma row_accepted_basic:
  "integers_fit (new_mission_row_basic c b) \<and> texts_fit (new_mission_row_basic c b)
     \<longleftrightarrow> varchar_fits 20 c \<and> body_accepted_basic b"
  by (simp add: integers_fit_def texts_fit_def new_mission_row_basic_def new_mission_row_def
      body_accepted_basic_def required_texts default_texts pending_fits) blast


lemma new_row_texts:
  "vehicle_brand (new_mission_row c b) = text_value (vehicleBrand b)"
  "vehicle_model (new_mission_row c b) = text_value (vehicleModel b)"
  "pickup_location (new_mission_row c b) = text_value (pickupLocation b)"
  "delivery_location (new_mission_row c b) = text_value (deliveryLocation b)"
  "client_name (new_mission_row c b) = text_value (clientName b)"
  "client_email (new_mission_row c b) = text_value (clientEmail b)"
  "vehicle_brand (new_mission_row_basic c b) = text_value (vehicleBrand b)"
  "vehicle_model (new_mission_row_basic c b) = text_value (vehicleModel b)"
  "pickup_location (new_mission_row_basic c b) = text_value (pickupLocation b)"
  "delivery_location (new_mission_row_basic c b) = text_value (deliveryLocation b)"
  "client_name (new_mission_row_basic c b) = text_value (clientName b)"
  "client_email (new_mission_row_basic c b) = text_value (clientEmail b)"
  by (simp_all add: new_mission_row_def new_mission_row_basic_def)

lemma create_with_invalid:
  "required_missing b \<Longrightarrow> create_with build e b s = (Failure ValidationError, s)"
  by (simp add: create_with_def)

lemma create_with_stored:
  assumes "\<not> required_missing b" "up e 1"
    and "integers_fit (build (generateMissionCode e s) b)"
    and "texts_fit (build (generateMissionCode e s) b)"
    and "mission_code (as_stored (build (generateMissionCode e s) b))
           \<notin> set (map mission_code (missions s))"
  shows "create_with build e b s =
           (Success 201 ((as_stored (build (generateMissionCode e s) b))
                          \<lparr>m_id := missions_id_seq s, created_at := db_now e,
                            updated_at := db_now e\<rparr>),
            s\<lparr>missions_id_seq := missions_id_seq s + 1,
              missions := missions s @ [(as_stored (build (generateMissionCode e s) b))
                          \<lparr>m_id := missions_id_seq s, created_at := db_now e,
                            updated_at := db_now e\<rparr>]\<rparr>)"
  using assms by (simp add: create_with_def insert_mission_def Let_def del: set_map)

lemma create_with_refused:
  assumes "\<not> required_missing b"
    and "\<not> up e 1 \<or> \<not> integers_fit (build (generateMissionCode e s) b)
         \<or> \<not> texts_fit (build (generateMissionCode e s) b)
         \<or> mission_code (as_stored (build (generateMissionCode e s) b))
              \<in> set (map mission_code (missions s))"
  shows "fst (create_with build e b s) = Failure ServerError"
    "missions (snd (create_with build e b s)) = missions s"
  using assms by (auto simp add: create_with_def insert_mission_def Let_def simp del: set_map)


text \<open>
  What the two servers store when the request passes the validation, the insert
  reaches the database, the values fit their columns and the code is new.
\<close>

lemma create_eq:
  assumes "\<not> required_missing b" "up e 1" "body_fits b"
    and "length (generateMissionCode e s) \<le> 20"
    and "generateMissionCode e s \<notin> set (map mission_code (missions s))"
  shows "create e b s =
           (Success 201 ((new_mission_row (generateMissionCode e s) b)
                          \<lparr>m_id := missions_id_seq s, created_at := db_now e,
                            updated_at := db_now e\<rparr>),
            s\<lparr>missions_id_seq := missions_id_seq s + 1,
              missions := missions s @ [(new_mission_row (generateMissionCode e s) b)
                          \<lparr>m_id := missions_id_seq s, created_at := db_now e,
                            updated_at := db_now e\<rparr>]\<rparr>)"
proof -
  note f = body_fits_row[OF assms(3,4)]
  have "mission_code (as_stored (new_mission_row (generateMissionCode e s) b))
          \<notin> set (map mission_code (missions s))"
    unfolding f(3) using assms(5) by simp
  from create_with_stored[where build = new_mission_row, OF assms(1,2) f(1,2) this]
  show ?thesis unfolding create_def f(3) .
qed

lemma create_basic_eq:
  assumes "\<not> required_missing b" "up e 1" "body_fits b"
    and "length (generateMissionCode e s) \<le> 20"
    and "generateMissionCode e s \<notin> set (map mission_code (missions s))"
  shows "create_basic e b s =
           (Success 201 ((new_mission_row_basic (generateMissionCode e s) b)
                          \<lparr>m_id := missions_id_seq s, created_at := db_now e,
                            updated_at := db_now e\<rparr>),
            s\<lparr>missions_id_seq := missions_id_seq s + 1,
              missions := missions s @ [(new_mission_row_basic (generateMissionCode e s) b)
                          \<lparr>m_id := missions_id_seq s, created_at := db_now e,
                            updated_at := db_now e\<rparr>]\<rparr>)"
proof -
  note f = body_fits_row_basic[OF assms(3,4)]
  have "mission_code (as_stored (new_mission_row_basic (generateMissionCode e s) b))
          \<notin> set (map mission_code (missions s))"
    unfolding f(3) using assms(5) by simp
  from create_with_stored[where build = new_mission_row_basic, OF assms(1,2) f(1,2) this]
  show ?thesis unfolding create_basic_def f(3) .
qed

text \<open>A generated code that fits its column is stored as it is: it never ends in a space.\<close>

lemma generated_kept:
  assumes "varchar_fits 20 (generateMissionCode e s)"
  shows "length (generateMissionCode e s) \<le> 20"
    "varchar 20 (generateMissionCode e s) = generateMissionCode e s"
proof -
  from assms show "length (generateMissionCode e s) \<le> 20" by (simp add: generated_fits)
  then show "varchar 20 (generateMissionCode e s) = generateMissionCode e s" by (rule varchar_id)
qed

lemma create_accepted:
  assumes "\<not> required_missing b" "up e 1" "body_accepted b"
    and "length (generateMissionCode e s) \<le> 20"
    and "generateMissionCode e s \<notin> set (map mission_code (missions s))"
  shows "\<exists>row. create e b s =
           (Success 201 row,
            s\<lparr>missions_id_seq := missions_id_seq s + 1, missions := missions s @ [row]\<rparr>)
         \<and> mission_code row = generateMissionCode e s \<and> status row = ''pending''
         \<and> m_id row = missions_id_seq s \<and> created_at row = db_now e
         \<and> map_option (take 100) (vehicleBrand b) = Some (vehicle_brand row)
         \<and> map_option (take 100) (vehicleModel b) = Some (vehicle_model row)
         \<and> pickupLocation b = Some (pickup_location row)
         \<and> deliveryLocation b = Some (delivery_location row)
         \<and> map_option (take 255) (clientName b) = Some (client_name row)
         \<and> map_option (take 255) (clientEmail b) = Some (client_email row)"
proof -
  let ?R = "new_mission_row (generateMissionCode e s) b"
  let ?row = "(as_stored ?R)
     \<lparr>m_id := missions_id_seq s, created_at := db_now e, updated_at := db_now e\<rparr>"
  from varchar_fits_length[OF assms(4)] assms(3)
  have "integers_fit ?R \<and> texts_fit ?R" by (simp only: row_accepted)
  then have fi: "integers_fit ?R" and ft: "texts_fit ?R" by blast+
  have c: "mission_code (as_stored ?R) = generateMissionCode e s"
    using varchar_id[OF assms(4)] by simp
  then have "mission_code (as_stored ?R) \<notin> set (map mission_code (missions s))"
    using assms(5) by simp
  from create_with_stored[where build = new_mission_row, OF assms(1,2) fi ft this]
  have "create e b s =
           (Success 201 ?row,
            s\<lparr>missions_id_seq := missions_id_seq s + 1, missions := missions s @ [?row]\<rparr>)"
    unfolding create_def .
  moreover have "mission_code ?row = generateMissionCode e s \<and> status ?row = ''pending''
         \<and> m_id ?row = missions_id_seq s \<and> created_at ?row = db_now e"
    using c by (simp add: pending_fits)
  moreover from assms(1) have "map_option (take 100) (vehicleBrand b) = Some (vehicle_brand ?row)
         \<and> map_option (take 100) (vehicleModel b) = Some (vehicle_model ?row)
         \<and> pickupLocation b = Some (pickup_location ?row)
         \<and> deliveryLocation b = Some (delivery_location ?row)
         \<and> map_option (take 255) (clientName b) = Some (client_name ?row)
         \<and> map_option (take 255) (clientEmail b) = Some (client_email ?row)"
    by (auto simp add: required_missing_def falsy_def new_row_texts varchar_def text_value_def
        split: option.splits)
  ultimately show ?thesis by blast
qed

lemma create_basic_accepted:
  assumes "\<not> required_missing b" "up e 1" "body_accepted_basic b"
    and "length (generateMissionCode e s) \<le> 20"
    and "generateMissionCode e s \<notin> set (map mission_code (missions s))"
  shows "\<exists>row. create_basic e b s =
           (Success 201 row,
            s\<lparr>missions_id_seq := missions_id_seq s + 1, missions := missions s @ [row]\<rparr>)
         \<and> mission_code row = generateMissionCode e s \<and> status row = ''pending''
         \<and> m_id row = missions_id_seq s \<and> created_at row = db_now e
         \<and> map_option (take 100) (vehicleBrand b) = Some (vehicle_brand row)
         \<and> map_option (take 100) (vehicleModel b) = Some (vehicle_model row)
         \<and> pickupLocation b = Some (pickup_location row)
         \<and> deliveryLocation b = Some (delivery_location row)
         \<and> map_option (take 255) (clientName b) = Some (client_name row)
         \<and> map_option (take 255) (clientEmail b) = Some (client_email row)"
proof -
  let ?R = "new_mission_row_basic (generateMissionCode e s) b"
  let ?row = "(as_stored ?R)
     \<lparr>m_id := missions_id_seq s, created_at := db_now e, updated_at := db_now e\<rparr>"
  from varchar_fits_length[OF assms(4)] assms(3)
  have "integers_fit ?R \<and> texts_fit ?R" by (simp only: row_accepted_basic)
  then have fi: "integers_fit ?R" and ft: "texts_fit ?R" by blast+
  have c: "mission_code (as_stored ?R) = generateMissionCode e s"
    using varchar_id[OF assms(4)] by simp
  then have "mission_code (as_stored ?R) \<notin> set (map mission_code (missions s))"
    using assms(5) by simp
  from create_with_stored[where build = new_mission_row_basic, OF assms(1,2) fi ft this]
  have "create_basic e b s =
           (Success 201 ?row,
            s\<lparr>missions_id_seq := missions_id_seq s + 1, missions := missions s @ [?row]\<rparr>)"
    unfolding create_basic_def .
  moreover have "mission_code ?row = generateMissionCode e s \<and> status ?row = ''pending''
         \<and> m_id ?row = missions_id_seq s \<and> created_at ?row = db_now e"
    using c by (simp add: pending_fits)
  moreover from assms(1) have "map_option (take 100) (vehicleBrand b) = Some (vehicle_brand ?row)
         \<and> map_option (take 100) (vehicleModel b) = Some (vehicle_model ?row)
         \<and> pickupLocation b = Some (pickup_location ?row)
         \<and> deliveryLocation b = Some (delivery_location ?row)
         \<and> map_option (take 255) (clientName b) = Some (client_name ?row)
         \<and> map_option (take 255) (clientEmail b) = Some (client_email ?row)"
    by (auto simp add: required_missing_def falsy_def new_row_texts varchar_def text_value_def
        split: option.splits)
  ultimately show ?thesis by blast
qed

lemma create_refused:
  assumes "\<not> required_missing b"
    and "\<not> up e 1 \<or> \<not> body_accepted b \<or> 20 < length (generateMissionCode e s)
         \<or> generateMissionCode e s \<in> set (map mission_code (missions s))"
  shows "fst (create e b s) = Failure ServerError \<and> missions (snd (create e b s)) = missions s"
proof -
  let ?R = "new_mission_row (generateMissionCode e s) b"
  have "\<not> up e 1 \<or> \<not> integers_fit ?R \<or> \<not> texts_fit ?R
         \<or> mission_code (as_stored ?R) \<in> set (map mission_code (missions s))"
  proof (cases "integers_fit ?R \<and> texts_fit ?R")
    case True
    then have k: "varchar_fits 20 (generateMissionCode e s)" and a: "body_accepted b"
      by (simp_all only: row_accepted)
    from generated_kept[OF k] have l: "length (generateMissionCode e s) \<le> 20"
      and "mission_code (as_stored ?R) = generateMissionCode e s" by simp_all
    with assms(2) a show ?thesis by auto
  next
    case False
    then show ?thesis by blast
  qed
  from create_with_refused[where build = new_mission_row, OF assms(1) this]
  show ?thesis unfolding create_def by simp
qed

lemma create_basic_refused:
  assumes "\<not> required_missing b"
    and "\<not> up e 1 \<or> \<not> body_accepted_basic b \<or> 20 < length (generateMissionCode e s)
         \<or> generateMissionCode e s \<in> set (map mission_code (missions s))"
  shows "fst (create_basic e b s) = Failure ServerError \<and> missions (snd (create_basic e b s)) = missions s"
proof -
  let ?R = "new_mission_row_basic (generateMissionCode e s) b"
  have "\<not> up e 1 \<or> \<not> integers_fit ?R \<or> \<not> texts_fit ?R
         \<or> mission_code (as_stored ?R) \<in> set (map mission_code (missions s))"
  proof (cases "integers_fit ?R \<and> texts_fit ?R")
    case True
    then have k: "varchar_fits 20 (generateMissionCode e s)" and a: "body_accepted_basic b"
      by (simp_all only: row_accepted_basic)
    from generated_kept[OF k] have l: "length (generateMissionCode e s) \<le> 20"
      and "mission_code (as_stored ?R) = generateMissionCode e s" by simp_all
    with assms(2) a show ?thesis by auto
  next
    case False
    then show ?thesis by blast
  qed
  from create_with_refused[where build = new_mission_row_basic, OF assms(1) this]
  show ?thesis unfolding create_basic_def by simp
qed

subsection \<open>The sample stores\<close>

lemma scenario_body_ok: "\<not> required_missing scenario_body"
  by (simp add: required_missing_def scenario_body_def falsy_def)

lemma scenario_body_fits: "body_fits scenario_body"
  by (simp add: body_fits_def scenario_body_def fits_width_def integer_column_def)

lemma sample_envs:
  "up march_first k" "today lookup_down = today march_first" "\<not> up lookup_down 0"
  "up lookup_down 1" "random1000 lookup_down = 999" "random1000 march_first = 999"
  "today (lookup_down\<lparr>random1000 := 3\<rparr>) = today march_first"
  "\<not> up (lookup_down\<lparr>random1000 := 3\<rparr>) 0" "up (lookup_down\<lparr>random1000 := 3\<rparr>) 1"
  "random1000 (lookup_down\<lparr>random1000 := 3\<rparr>) = 3"
  "up lookup_down (Suc 0)" "up (lookup_down\<lparr>random1000 := 3\<rparr>) (Suc 0)"
  by (simp_all add: march_first_def lookup_down_def)

lemma digits_literals:
  "is_digit CHR ''0''" "is_digit CHR ''1''" "is_digit CHR ''3''" "is_digit CHR ''9''"
  "list_all is_digit ''001''" "list_all is_digit ''003''" "list_all is_digit ''999''"
  "decimal ''001'' = 1" "decimal ''003'' = 3" "decimal ''999'' = 999"
  by (simp_all add: is_digit_range decimal_def radix_value_def digit_value_def)

lemma codes_empty_store: "map mission_code (missions empty_store) = []"
  by (simp add: empty_store_def)

lemma generated_first: "generateMissionCode march_first empty_store = ''FA-20240301-001''"
  using generate_first[of march_first empty_store]
  by (simp add: sample_envs codes_empty_store march_first_day)

lemma generated_999: "generateMissionCode lookup_down empty_store = ''FA-20240301-999''"
  using generate_fallback[of lookup_down empty_store]
  by (simp add: sample_envs march_first_day seq_strings)

lemma codes_store_999: "map mission_code (missions store_999) = [''FA-20240301-999'']"
  unfolding store_999_def
  by (subst create_eq)
     (simp_all add: scenario_body_ok scenario_body_fits sample_envs generated_999 codes_empty_store)

lemma generated_1000: "generateMissionCode march_first store_999 = ''FA-20240301-1000''"
  using generate_next[of march_first "''999''" store_999]
  by (simp add: sample_envs codes_store_999 march_first_day digits_literals seq_strings)

lemma codes_store_1000:
  "map mission_code (missions store_1000) = [''FA-20240301-999'', ''FA-20240301-1000'']"
  unfolding store_1000_def
  by (subst create_eq)
     (simp_all add: scenario_body_ok scenario_body_fits sample_envs generated_1000 codes_store_999)

lemma generated_1000_again: "generateMissionCode march_first store_1000 = ''FA-20240301-1000''"
  using generate_next[of march_first "''999''" store_1000]
  by (simp add: sample_envs codes_store_1000 march_first_day digits_literals seq_strings)





lemma codes_eight_nines:
  "map mission_code (missions store_eight_nines) = [''FA-20240301-99999999'']"
  by (simp add: store_eight_nines_def sample_store_def)

lemma eight_nines:
  "list_all is_digit ''99999999''" "decimal ''99999999'' = 99999999"
  "padStart0 3 (string_of_nat 100000000) = ''100000000''"
  by (simp_all add: is_digit_range decimal_def radix_value_def digit_value_def
      padStart0_def string_of_nat.simps digit_chars)

lemma generated_nine_digits:
  "generateMissionCode march_first store_eight_nines = ''FA-20240301-100000000''"
  using generate_next[of march_first "''99999999''" store_eight_nines]
  by (simp add: sample_envs codes_eight_nines march_first_day eight_nines digits_literals)






subsection \<open>Three-digit sequences and the order of strings\<close>



lemma digit_char_eq: "a < 10 \<Longrightarrow> b < 10 \<Longrightarrow> (digit_char a = digit_char b) = (a = b)"
  by (auto dest: arg_cong[where f = "of_char :: char \<Rightarrow> nat"] simp: of_char_digit_char)







subsection \<open>Codes of one day\<close>








lemma not_falsy: "\<not> falsy v \<Longrightarrow> v = Some (text_value v)"
  by (cases v) (simp_all add: falsy_def text_value_def)

lemma new_row_fields:
  assumes "\<not> required_missing b"
  shows "vehicleBrand b = Some (vehicle_brand (new_mission_row c b))"
    "vehicleModel b = Some (vehicle_model (new_mission_row c b))"
    "pickupLocation b = Some (pickup_location (new_mission_row c b))"
    "deliveryLocation b = Some (delivery_location (new_mission_row c b))"
    "clientName b = Some (client_name (new_mission_row c b))"
    "clientEmail b = Some (client_email (new_mission_row c b))"
  using assms by (simp_all add: required_missing_def new_mission_row_def not_falsy[symmetric])

lemma new_row_basic_fields:
  assumes "\<not> required_missing b"
  shows "vehicleBrand b = Some (vehicle_brand (new_mission_row_basic c b))"
    "vehicleModel b = Some (vehicle_model (new_mission_row_basic c b))"
    "pickupLocation b = Some (pickup_location (new_mission_row_basic c b))"
    "deliveryLocation b = Some (delivery_location (new_mission_row_basic c b))"
    "clientName b = Some (client_name (new_mission_row_basic c b))"
    "clientEmail b = Some (client_email (new_mission_row_basic c b))"
  using assms
  by (simp_all add: required_missing_def new_mission_row_basic_def new_mission_row_def
      not_falsy[symmetric])

lemma create_stored:
  assumes "\<not> required_missing b" "up e 1" "body_fits b"
    and "length (generateMissionCode e s) \<le> 20"
    and "generateMissionCode e s \<notin> set (map mission_code (missions s))"
  shows "\<exists>row. create e b s =
           (Success 201 row,
            s\<lparr>missions_id_seq := missions_id_seq s + 1, missions := missions s @ [row]\<rparr>)
         \<and> mission_code row = generateMissionCode e s \<and> status row = ''pending''
         \<and> m_id row = missions_id_seq s \<and> created_at row = db_now e
         \<and> vehicleBrand b = Some (vehicle_brand row) \<and> vehicleModel b = Some (vehicle_model row)
         \<and> pickupLocation b = Some (pickup_location row)
         \<and> deliveryLocation b = Some (delivery_location row)
         \<and> clientName b = Some (client_name row) \<and> clientEmail b = Some (client_email row)"
proof -
  let ?row = "(new_mission_row (generateMissionCode e s) b)
     \<lparr>m_id := missions_id_seq s, created_at := db_now e, updated_at := db_now e\<rparr>"
  have "create e b s =
           (Success 201 ?row,
            s\<lparr>missions_id_seq := missions_id_seq s + 1, missions := missions s @ [?row]\<rparr>)"
    using assms by (rule create_eq)
  moreover have "mission_code ?row = generateMissionCode e s \<and> status ?row = ''pending''
         \<and> m_id ?row = missions_id_seq s \<and> created_at ?row = db_now e" by simp
  moreover have "vehicleBrand b = Some (vehicle_brand ?row) \<and> vehicleModel b = Some (vehicle_model ?row)
         \<and> pickupLocation b = Some (pickup_location ?row)
         \<and> deliveryLocation b = Some (delivery_location ?row)
         \<and> clientName b = Some (client_name ?row) \<and> clientEmail b = Some (client_email ?row)"
    using new_row_fields[OF assms(1), of "generateMissionCode e s"] by simp
  ultimately show ?thesis by blast
qed

lemma create_basic_stored:
  assumes "\<not> required_missing b" "up e 1" "body_fits b"
    and "length (generateMissionCode e s) \<le> 20"
    and "generateMissionCode e s \<notin> set (map mission_code (missions s))"
  shows "\<exists>row. create_basic e b s =
           (Success 201 row,
            s\<lparr>missions_id_seq := missions_id_seq s + 1, missions := missions s @ [row]\<rparr>)
         \<and> mission_code row = generateMissionCode e s \<and> status row = ''pending''
         \<and> m_id row = missions_id_seq s \<and> created_at row = db_now e
         \<and> vehicleBrand b = Some (vehicle_brand row) \<and> vehicleModel b = Some (vehicle_model row)
         \<and> pickupLocation b = Some (pickup_location row)
         \<and> deliveryLocation b = Some (delivery_location row)
         \<and> clientName b = Some (client_name row) \<and> clientEmail b = Some (client_email row)"
proof -
  let ?row = "(new_mission_row_basic (generateMissionCode e s) b)
     \<lparr>m_id := missions_id_seq s, created_at := db_now e, updated_at := db_now e\<rparr>"
  have "create_basic e b s =
           (Success 201 ?row,
            s\<lparr>missions_id_seq := missions_id_seq s + 1, missions := missions s @ [?row]\<rparr>)"
    using assms by (rule create_basic_eq)
  moreover have "mission_code ?row = generateMissionCode e s \<and> status ?row = ''pending''
         \<and> m_id ?row = missions_id_seq s \<and> created_at ?row = db_now e" by simp
  moreover have "vehicleBrand b = Some (vehicle_brand ?row) \<and> vehicleModel b = Some (vehicle_model ?row)
         \<and> pickupLocation b = Some (pickup_location ?row)
         \<and> deliveryLocation b = Some (delivery_location ?row)
         \<and> clientName b = Some (client_name ?row) \<and> clientEmail b = Some (client_email ?row)"
    using new_row_basic_fields[OF assms(1), of "generateMissionCode e s"] by simp
  ultimately show ?thesis by blast
qed









lemma required_missing_iff:
  "required_missing b \<longleftrightarrow>
     (\<exists>v \<in> {vehicleBrand b, vehicleModel b, pickupLocation b, deliveryLocation b,
              clientName b, clientEmail b}. v = None \<or> v = Some [])"
  by (auto simp: required_missing_def falsy_def split: option.splits)

lemma scenario_first_code:
  assumes "today e = \<lparr>utc_year = 2024, utc_month = 3, utc_day = 1\<rparr>" "up e 0"
    and "\<forall>c \<in> set (map mission_code (missions s)). \<not> prefix ''FA-20240301-'' c"
  shows "generateMissionCode e s = ''FA-20240301-001''"
    "generateMissionCode e s \<notin> set (map mission_code (missions s))"
proof -
  have t: "today e = today march_first" using assms(1) by (simp add: march_first_def)
  have "\<forall>c \<in> set (map mission_code (missions s)). \<not> prefix (day_prefix (today e)) c"
    using assms(3) by (simp add: t march_first_day)
  from generate_first[OF assms(2) this]
  show g: "generateMissionCode e s = ''FA-20240301-001''" by (simp add: t march_first_day)
  have "prefix ''FA-20240301-'' ''FA-20240301-001''" by simp
  with assms(3) show "generateMissionCode e s \<notin> set (map mission_code (missions s))"
    unfolding g by blast
qed

text \<open>
  Claim C7. As stated, the claim fails where the database refuses the insert.
  In the store that holds the codes 999 and 1000 of the day, the highest code in
  the order of strings is 999, so the generator yields 1000 again; the complete
  request of the scenario is answered with a server error (500) and no row is
  added.
\<close>

theorem create_refused_on_duplicate_code:
  "\<not> required_missing scenario_body
   \<and> map mission_code (missions store_1000) = [''FA-20240301-999'', ''FA-20240301-1000'']
   \<and> fst (create march_first scenario_body store_1000) = Failure ServerError
   \<and> http_status (fst (create march_first scenario_body store_1000)) = 500
   \<and> missions (snd (create march_first scenario_body store_1000)) = missions store_1000"
proof -
  have "\<not> up march_first 1 \<or> \<not> body_accepted scenario_body
     \<or> 20 < length (generateMissionCode march_first store_1000)
     \<or> generateMissionCode march_first store_1000 \<in> set (map mission_code (missions store_1000))"
    by (simp add: generated_1000_again codes_store_1000)
  from create_refused[OF scenario_body_ok this] scenario_body_ok codes_store_1000
  show ?thesis by simp
qed

text \<open>
  Claim C7, amended. On both servers: when one of vehicle brand, vehicle model,
  pickup location, delivery location, client name and client email is absent
  (undefined, null or the empty string), the creation fails with ValidationError
  (400) and the store is unchanged. Otherwise a code is allocated and the insert
  attempted with status pending. The columns accept the request when vehicle
  year and mileage are absent or within the INTEGER range (from \<open>-2\<^sup>3\<^sup>1\<close> to
  \<open>2\<^sup>3\<^sup>1 - 1\<close>) and every text bound to a VARCHAR column has only spaces after the
  width of its column. When the insert reaches the database, the columns accept
  the request, the code has at most twenty characters and is not stored yet,
  the answer is 201 with the new row, which is appended to the table with the
  code, the status pending and the required texts, cut to the width of their
  columns; a request whose texts are within the widths is stored as it was
  given. In every other case the answer is a server error (500) and no row is
  added. In the scenario (Renault, Clio, Paris, Lyon, A, a@x.com on 2024-03-01,
  the other fields within the widths and ranges, no stored code of that day) the
  created mission has the code FA-20240301-001 and the status pending.
\<close>

theorem create_contract:
  "(required_missing b \<longleftrightarrow>
       (\<exists>v \<in> {vehicleBrand b, vehicleModel b, pickupLocation b, deliveryLocation b,
                clientName b, clientEmail b}. v = None \<or> v = Some []))
   \<and> (integer_column i \<longleftrightarrow> (\<forall>x. i = Some x \<longrightarrow> - 2147483648 \<le> x \<and> x \<le> 2147483647))
   \<and> (varchar_column n t
        \<longleftrightarrow> (\<forall>x. t = Some x \<longrightarrow> (\<forall>k. n \<le> k \<and> k < length x \<longrightarrow> x ! k = CHR 0x20)))
   \<and> (required_missing b
        \<longrightarrow> create e b s = (Failure ValidationError, s)
            \<and> create_basic e b s = (Failure ValidationError, s))
   \<and> (\<not> required_missing b \<and> up e 1 \<and> body_accepted b
       \<and> length (generateMissionCode e s) \<le> 20
       \<and> generateMissionCode e s \<notin> set (map mission_code (missions s))
        \<longrightarrow> (\<exists>row. create e b s =
                 (Success 201 row,
                  s\<lparr>missions_id_seq := missions_id_seq s + 1, missions := missions s @ [row]\<rparr>)
               \<and> mission_code row = generateMissionCode e s \<and> status row = ''pending''
               \<and> m_id row = missions_id_seq s \<and> created_at row = db_now e
               \<and> map_option (take 100) (vehicleBrand b) = Some (vehicle_brand row)
               \<and> map_option (take 100) (vehicleModel b) = Some (vehicle_model row)
               \<and> pickupLocation b = Some (pickup_location row)
               \<and> deliveryLocation b = Some (delivery_location row)
               \<and> map_option (take 255) (clientName b) = Some (client_name row)
               \<and> map_option (take 255) (clientEmail b) = Some (client_email row)))
   \<and> (\<not> required_missing b \<and> up e 1 \<and> body_accepted_basic b
       \<and> length (generateMissionCode e s) \<le> 20
       \<and> generateMissionCode e s \<notin> set (map mission_code (missions s))
        \<longrightarrow> (\<exists>row. create_basic e b s =
                 (Success 201 row,
                  s\<lparr>missions_id_seq := missions_id_seq s + 1, missions := missions s @ [row]\<rparr>)
               \<and> mission_code row = generateMissionCode e s \<and> status row = ''pending''
               \<and> m_id row = missions_id_seq s \<and> created_at row = db_now e
               \<and> map_option (take 100) (vehicleBrand b) = Some (vehicle_brand row)
               \<and> map_option (take 100) (vehicleModel b) = Some (vehicle_model row)
               \<and> pickupLocation b = Some (pickup_location row)
               \<and> deliveryLocation b = Some (delivery_location row)
               \<and> map_option (take 255) (clientName b) = Some (client_name row)
               \<and> map_option (take 255) (clientEmail b) = Some (client_email row)))
   \<and> (\<not> required_missing b \<and> up e 1 \<and> body_fits b
       \<and> length (generateMissionCode e s) \<le> 20
       \<and> generateMissionCode e s \<notin> set (map mission_code (missions s))
        \<longrightarrow> (\<exists>row. create e b s =
                 (Success 201 row,
                  s\<lparr>missions_id_seq := missions_id_seq s + 1, missions := missions s @ [row]\<rparr>)
               \<and> mission_code row = generateMissionCode e s \<and> status row = ''pending''
               \<and> m_id row = missions_id_seq s \<and> created_at row = db_now e
               \<and> vehicleBrand b = Some (vehicle_brand row)
               \<and> vehicleModel b = Some (vehicle_model row)
               \<and> pickupLocation b = Some (pickup_location row)
               \<and> deliveryLocation b = Some (delivery_location row)
               \<and> clientName b = Some (client_name row)
               \<and> clientEmail b = Some (client_email row))
            \<and> (\<exists>row. create_basic e b s =
                 (Success 201 row,
                  s\<lparr>missions_id_seq := missions_id_seq s + 1, missions := missions s @ [row]\<rparr>)
               \<and> mission_code row = generateMissionCode e s \<and> status row = ''pending''
               \<and> m_id row = missions_id_seq s \<and> created_at row = db_now e
               \<and> vehicleBrand b = Some (vehicle_brand row)
               \<and> vehicleModel b = Some (vehicle_model row)
               \<and> pickupLocation b = Some (pickup_location row)
               \<and> deliveryLocation b = Some (delivery_location row)
               \<and> clientName b = Some (client_name row)
               \<and> clientEmail b = Some (client_email row)))
   \<and> (\<not> required_missing b
       \<and> (\<not> up e 1 \<or> \<not> body_accepted b \<or> 20 < length (generateMissionCode e s)
           \<or> generateMissionCode e s \<in> set (map mission_code (missions s)))
        \<longrightarrow> fst (create e b s) = Failure ServerError
            \<and> missions (snd (create e b s)) = missions s)
   \<and> (\<not> required_missing b
       \<and> (\<not> up e 1 \<or> \<not> body_accepted_basic b \<or> 20 < length (generateMissionCode e s)
           \<or> generateMissionCode e s \<in> set (map mission_code (missions s)))
        \<longrightarrow> fst (create_basic e b s) = Failure ServerError
            \<and> missions (snd (create_basic e b s)) = missions s)
   \<and> (vehicleBrand b = Some ''Renault'' \<and> vehicleModel b = Some ''Clio''
       \<and> pickupLocation b = Some ''Paris'' \<and> deliveryLocation b = Some ''Lyon''
       \<and> clientName b = Some ''A'' \<and> clientEmail b = Some ''a@x.com'' \<and> body_fits b
       \<and> today e = \<lparr>utc_year = 2024, utc_month = 3, utc_day = 1\<rparr> \<and> up e 0 \<and> up e 1
       \<and> (\<forall>c \<in> set (map mission_code (missions s)). \<not> prefix ''FA-20240301-'' c)
        \<longrightarrow> (\<exists>row s'. create e b s = (Success 201 row, s')
               \<and> mission_code row = ''FA-20240301-001'' \<and> status row = ''pending'')
            \<and> (\<exists>row s'. create_basic e b s = (Success 201 row, s')
               \<and> mission_code row = ''FA-20240301-001'' \<and> status row = ''pending''))"
proof (intro conjI impI)
  show "required_missing b \<longleftrightarrow>
       (\<exists>v \<in> {vehicleBrand b, vehicleModel b, pickupLocation b, deliveryLocation b,
                clientName b, clientEmail b}. v = None \<or> v = Some [])"
    by (rule required_missing_iff)
  show "integer_column i \<longleftrightarrow> (\<forall>x. i = Some x \<longrightarrow> - 2147483648 \<le> x \<and> x \<le> 2147483647)"
    by (rule integer_column_iff)
  show "varchar_column n t
        \<longleftrightarrow> (\<forall>x. t = Some x \<longrightarrow> (\<forall>k. n \<le> k \<and> k < length x \<longrightarrow> x ! k = CHR 0x20))"
    by (rule varchar_column_iff)
  show "create e b s = (Failure ValidationError, s)" if "required_missing b"
    using that by (simp add: create_def create_with_invalid)
  show "create_basic e b s = (Failure ValidationError, s)" if "required_missing b"
    using that by (simp add: create_basic_def create_with_invalid)
next
  assume "\<not> required_missing b \<and> up e 1 \<and> body_accepted b
       \<and> length (generateMissionCode e s) \<le> 20
       \<and> generateMissionCode e s \<notin> set (map mission_code (missions s))"
  then show "\<exists>row. create e b s =
                 (Success 201 row,
                  s\<lparr>missions_id_seq := missions_id_seq s + 1, missions := missions s @ [row]\<rparr>)
               \<and> mission_code row = generateMissionCode e s \<and> status row = ''pending''
               \<and> m_id row = missions_id_seq s \<and> created_at row = db_now e
               \<and> map_option (take 100) (vehicleBrand b) = Some (vehicle_brand row)
               \<and> map_option (take 100) (vehicleModel b) = Some (vehicle_model row)
               \<and> pickupLocation b = Some (pickup_location row)
               \<and> deliveryLocation b = Some (delivery_location row)
               \<and> map_option (take 255) (clientName b) = Some (client_name row)
               \<and> map_option (take 255) (clientEmail b) = Some (client_email row)"
    using create_accepted[of b e s] by blast
next
  assume "\<not> required_missing b \<and> up e 1 \<and> body_accepted_basic b
       \<and> length (generateMissionCode e s) \<le> 20
       \<and> generateMissionCode e s \<notin> set (map mission_code (missions s))"
  then show "\<exists>row. create_basic e b s =
                 (Success 201 row,
                  s\<lparr>missions_id_seq := missions_id_seq s + 1, missions := missions s @ [row]\<rparr>)
               \<and> mission_code row = generateMissionCode e s \<and> status row = ''pending''
               \<and> m_id row = missions_id_seq s \<and> created_at row = db_now e
               \<and> map_option (take 100) (vehicleBrand b) = Some (vehicle_brand row)
               \<and> map_option (take 100) (vehicleModel b) = Some (vehicle_model row)
               \<and> pickupLocation b = Some (pickup_location row)
               \<and> deliveryLocation b = Some (delivery_location row)
               \<and> map_option (take 255) (clientName b) = Some (client_name row)
               \<and> map_option (take 255) (clientEmail b) = Some (client_email row)"
    using create_basic_accepted[of b e s] by blast
next
  assume a: "\<not> required_missing b \<and> up e 1 \<and> body_fits b
       \<and> length (generateMissionCode e s) \<le> 20
       \<and> generateMissionCode e s \<notin> set (map mission_code (missions s))"
  show "\<exists>row. create e b s =
                 (Success 201 row,
                  s\<lparr>missions_id_seq := missions_id_seq s + 1, missions := missions s @ [row]\<rparr>)
               \<and> mission_code row = generateMissionCode e s \<and> status row = ''pending''
               \<and> m_id row = missions_id_seq s \<and> created_at row = db_now e
               \<and> vehicleBrand b = Some (vehicle_brand row)
               \<and> vehicleModel b = Some (vehicle_model row)
               \<and> pickupLocation b = Some (pickup_location row)
               \<and> deliveryLocation b = Some (delivery_location row)
               \<and> clientName b = Some (client_name row)
               \<and> clientEmail b = Some (client_email row)"
    using a create_stored[of b e s] by blast
  show "\<exists>row. create_basic e b s =
                 (Success 201 row,
                  s\<lparr>missions_id_seq := missions_id_seq s + 1, missions := missions s @ [row]\<rparr>)
               \<and> mission_code row = generateMissionCode e s \<and> status row = ''pending''
               \<and> m_id row = missions_id_seq s \<and> created_at row = db_now e
               \<and> vehicleBrand b = Some (vehicle_brand row)
               \<and> vehicleModel b = Some (vehicle_model row)
               \<and> pickupLocation b = Some (pickup_location row)
               \<and> deliveryLocation b = Some (delivery_location row)
               \<and> clientName b = Some (client_name row)
               \<and> clientEmail b = Some (client_email row)"
    using a create_basic_stored[of b e s] by blast
next
  assume a: "\<not> required_missing b
       \<and> (\<not> up e 1 \<or> \<not> body_accepted b \<or> 20 < length (generateMissionCode e s)
           \<or> generateMissionCode e s \<in> set (map mission_code (missions s)))"
  then have r: "fst (create e b s) = Failure ServerError
     \<and> missions (snd (create e b s)) = missions s"
    using create_refused[of b e s] by blast
  from r show "fst (create e b s) = Failure ServerError" by blast
  from r show "missions (snd (create e b s)) = missions s" by blast
next
  assume a: "\<not> required_missing b
       \<and> (\<not> up e 1 \<or> \<not> body_accepted_basic b \<or> 20 < length (generateMissionCode e s)
           \<or> generateMissionCode e s \<in> set (map mission_code (missions s)))"
  then have r: "fst (create_basic e b s) = Failure ServerError
     \<and> missions (snd (create_basic e b s)) = missions s"
    using create_basic_refused[of b e s] by blast
  from r show "fst (create_basic e b s) = Failure ServerError" by blast
  from r show "missions (snd (create_basic e b s)) = missions s" by blast
next
  assume a: "vehicleBrand b = Some ''Renault'' \<and> vehicleModel b = Some ''Clio''
       \<and> pickupLocation b = Some ''Paris'' \<and> deliveryLocation b = Some ''Lyon''
       \<and> clientName b = Some ''A'' \<and> clientEmail b = Some ''a@x.com'' \<and> body_fits b
       \<and> today e = \<lparr>utc_year = 2024, utc_month = 3, utc_day = 1\<rparr> \<and> up e 0 \<and> up e 1
       \<and> (\<forall>c \<in> set (map mission_code (missions s)). \<not> prefix ''FA-20240301-'' c)"
  then have ok: "\<not> required_missing b" by (simp add: required_missing_def falsy_def)
  from a have g: "generateMissionCode e s = ''FA-20240301-001''"
    "generateMissionCode e s \<notin> set (map mission_code (missions s))"
    using scenario_first_code[of e s] by blast+
  from a have u: "up e 1" and f: "body_fits b" by blast+
  from g(1) have l: "length (generateMissionCode e s) \<le> 20" by simp
  from create_stored[OF ok u f l g(2)] g(1)
  show "\<exists>row s'. create e b s = (Success 201 row, s')
               \<and> mission_code row = ''FA-20240301-001'' \<and> status row = ''pending''"
    by metis
  from create_basic_stored[OF ok u f l g(2)] g(1)
  show "\<exists>row s'. create_basic e b s = (Success 201 row, s')
               \<and> mission_code row = ''FA-20240301-001'' \<and> status row = ''pending''"
    by metis
qed

theorem create_contract_witness:
  "create march_first (scenario_body\<lparr>clientEmail := None\<rparr>) sample_store
     = (Failure ValidationError, sample_store)
   \<and> create_basic march_first (scenario_body\<lparr>vehicleModel := Some []\<rparr>) sample_store
     = (Failure ValidationError, sample_store)
   \<and> (\<exists>row. create march_first scenario_body empty_store =
          (Success 201 row,
           empty_store\<lparr>missions_id_seq := missions_id_seq empty_store + 1,
                        missions := missions empty_store @ [row]\<rparr>)
        \<and> mission_code row = ''FA-20240301-001'' \<and> vehicle_brand row = ''Renault'')
   \<and> (\<exists>row s'. create march_first
                   (scenario_body\<lparr>vehicleBrand := Some (''Renault'' @ replicate 100 (CHR 0x20))\<rparr>)
                   empty_store = (Success 201 row, s')
        \<and> vehicle_brand row = ''Renault'' @ replicate 93 (CHR 0x20))
   \<and> fst (create march_first (scenario_body\<lparr>vehicleBrand := Some (replicate 101 (CHR ''x''))\<rparr>)
             empty_store) = Failure ServerError
   \<and> fst (create march_first scenario_body store_1000) = Failure ServerError
   \<and> missions (snd (create_basic march_first scenario_body store_1000)) = missions store_1000
   \<and> generateMissionCode march_first store_eight_nines = ''FA-20240301-100000000''
   \<and> fst (create march_first scenario_body store_eight_nines) = Failure ServerError
   \<and> missions (snd (create march_first scenario_body store_eight_nines))
       = missions store_eight_nines
   \<and> fst (create_basic march_first (scenario_body\<lparr>vehicleYear := Some 2147483648\<rparr>) empty_store)
       = Failure ServerError
   \<and> (\<exists>row s'. create march_first scenario_body sample_store = (Success 201 row, s')
        \<and> mission_code row = ''FA-20240301-001'' \<and> status row = ''pending'')
   \<and> (\<exists>row s'. create_basic march_first scenario_body sample_store = (Success 201 row, s')
        \<and> mission_code row = ''FA-20240301-001'' \<and> status row = ''pending'')"
proof -
  note ok = scenario_body_ok
  have m1: "required_missing (scenario_body\<lparr>clientEmail := None\<rparr>)"
    "required_missing (scenario_body\<lparr>vehicleModel := Some []\<rparr>)"
    by (simp_all add: required_missing_def falsy_def)
  note c1 = create_contract[where b = "scenario_body\<lparr>clientEmail := None\<rparr>"
      and e = march_first and s = sample_store, THEN conjunct2, THEN conjunct2, THEN conjunct2, THEN conjunct1, THEN mp, OF m1(1)]
  note c2 = create_contract[where b = "scenario_body\<lparr>vehicleModel := Some []\<rparr>"
      and e = march_first and s = sample_store, THEN conjunct2, THEN conjunct2, THEN conjunct2, THEN conjunct1, THEN mp, OF m1(2)]
  from c1 have 1: "create march_first (scenario_body\<lparr>clientEmail := None\<rparr>) sample_store
     = (Failure ValidationError, sample_store)" by (rule conjunct1)
  from c2 have 2: "create_basic march_first (scenario_body\<lparr>vehicleModel := Some []\<rparr>) sample_store
     = (Failure ValidationError, sample_store)" by (rule conjunct2)
  have h3: "\<not> required_missing scenario_body \<and> up march_first 1 \<and> body_fits scenario_body
       \<and> length (generateMissionCode march_first empty_store) \<le> 20
       \<and> generateMissionCode march_first empty_store
            \<notin> set (map mission_code (missions empty_store))"
    by (simp add: ok scenario_body_fits sample_envs codes_empty_store generated_first)
  note c3 = create_contract[where b = scenario_body and e = march_first and s = empty_store,
      THEN conjunct2, THEN conjunct2, THEN conjunct2, THEN conjunct2, THEN conjunct2, THEN conjunct2, THEN conjunct1, THEN mp, OF h3, THEN conjunct1]
  from c3 obtain row where r: "create march_first scenario_body empty_store =
          (Success 201 row,
           empty_store\<lparr>missions_id_seq := missions_id_seq empty_store + 1,
                        missions := missions empty_store @ [row]\<rparr>)"
      "mission_code row = generateMissionCode march_first empty_store"
      "vehicleBrand scenario_body = Some (vehicle_brand row)"
    by (elim exE conjE) (rule that)
  from r(2,3) have "mission_code row = ''FA-20240301-001'' \<and> vehicle_brand row = ''Renault''"
    by (simp add: generated_first scenario_body_def)
  with r(1) have 3: "\<exists>row. create march_first scenario_body empty_store =
          (Success 201 row,
           empty_store\<lparr>missions_id_seq := missions_id_seq empty_store + 1,
                        missions := missions empty_store @ [row]\<rparr>)
        \<and> mission_code row = ''FA-20240301-001'' \<and> vehicle_brand row = ''Renault''"
    by blast
  let ?padded = "scenario_body\<lparr>vehicleBrand := Some (''Renault'' @ replicate 100 (CHR 0x20))\<rparr>"
  have hp: "\<not> required_missing ?padded \<and> up march_first 1 \<and> body_accepted ?padded
       \<and> length (generateMissionCode march_first empty_store) \<le> 20
       \<and> generateMissionCode march_first empty_store
            \<notin> set (map mission_code (missions empty_store))"
    by (simp add: required_missing_def falsy_def body_accepted_def scenario_body_def
        integer_column_def varchar_fits_def list_all_iff sample_envs codes_empty_store
        generated_first)
  note cp = create_contract[where b = ?padded and e = march_first and s = empty_store,
      THEN conjunct2, THEN conjunct2, THEN conjunct2, THEN conjunct2, THEN conjunct1, THEN mp, OF hp]
  from cp obtain rowp where rp: "create march_first ?padded empty_store =
          (Success 201 rowp,
           empty_store\<lparr>missions_id_seq := missions_id_seq empty_store + 1,
                        missions := missions empty_store @ [rowp]\<rparr>)"
      "map_option (take 100) (vehicleBrand ?padded) = Some (vehicle_brand rowp)"
    by (elim exE conjE) (rule that)
  from rp(2) have "vehicle_brand rowp = ''Renault'' @ replicate 93 (CHR 0x20)"
    by simp
  with rp(1) have P: "\<exists>row s'. create march_first ?padded empty_store = (Success 201 row, s')
        \<and> vehicle_brand row = ''Renault'' @ replicate 93 (CHR 0x20)"
    by blast
  let ?wide = "scenario_body\<lparr>vehicleBrand := Some (replicate 101 (CHR ''x''))\<rparr>"
  have hw: "\<not> required_missing ?wide
       \<and> (\<not> up march_first 1 \<or> \<not> body_accepted ?wide
           \<or> 20 < length (generateMissionCode march_first empty_store)
           \<or> generateMissionCode march_first empty_store
                \<in> set (map mission_code (missions empty_store)))"
    by (simp add: required_missing_def falsy_def body_accepted_def scenario_body_def
        varchar_fits_def)
  note cw = create_contract[where b = ?wide and e = march_first and s = empty_store,
      THEN conjunct2, THEN conjunct2, THEN conjunct2, THEN conjunct2, THEN conjunct2, THEN conjunct2, THEN conjunct2, THEN conjunct1, THEN mp, OF hw]
  from cw have W: "fst (create march_first ?wide empty_store) = Failure ServerError"
    by (rule conjunct1)
  have dup: "generateMissionCode march_first store_1000
                \<in> set (map mission_code (missions store_1000))"
    by (simp add: generated_1000_again codes_store_1000)
  have h4: "\<not> required_missing scenario_body
       \<and> (\<not> up march_first 1 \<or> \<not> body_accepted scenario_body
           \<or> 20 < length (generateMissionCode march_first store_1000)
           \<or> generateMissionCode march_first store_1000
                \<in> set (map mission_code (missions store_1000)))"
    using ok dup by blast
  have h5: "\<not> required_missing scenario_body
       \<and> (\<not> up march_first 1 \<or> \<not> body_accepted_basic scenario_body
           \<or> 20 < length (generateMissionCode march_first store_1000)
           \<or> generateMissionCode march_first store_1000
                \<in> set (map mission_code (missions store_1000)))"
    using ok dup by blast
  note c4 = create_contract[where b = scenario_body and e = march_first and s = store_1000,
      THEN conjunct2, THEN conjunct2, THEN conjunct2, THEN conjunct2, THEN conjunct2, THEN conjunct2, THEN conjunct2, THEN conjunct1, THEN mp, OF h4]
  note c5 = create_contract[where b = scenario_body and e = march_first and s = store_1000,
      THEN conjunct2, THEN conjunct2, THEN conjunct2, THEN conjunct2, THEN conjunct2, THEN conjunct2, THEN conjunct2, THEN conjunct2, THEN conjunct1, THEN mp, OF h5]
  from c4 have 4: "fst (create march_first scenario_body store_1000) = Failure ServerError"
    by (rule conjunct1)
  from c5 have 5: "missions (snd (create_basic march_first scenario_body store_1000))
              = missions store_1000" by (rule conjunct2)
  have h6: "\<not> required_missing scenario_body
       \<and> (\<not> up march_first 1 \<or> \<not> body_accepted scenario_body
           \<or> 20 < length (generateMissionCode march_first store_eight_nines)
           \<or> generateMissionCode march_first store_eight_nines
                \<in> set (map mission_code (missions store_eight_nines)))"
    by (simp add: ok generated_nine_digits)
  note c6 = create_contract[where b = scenario_body and e = march_first
      and s = store_eight_nines, THEN conjunct2, THEN conjunct2, THEN conjunct2, THEN conjunct2, THEN conjunct2, THEN conjunct2, THEN conjunct2, THEN conjunct1, THEN mp, OF h6]
  from c6 have 6: "fst (create march_first scenario_body store_eight_nines) = Failure ServerError"
    by (rule conjunct1)
  from c6 have 7: "missions (snd (create march_first scenario_body store_eight_nines))
              = missions store_eight_nines" by (rule conjunct2)
  let ?late = "scenario_body\<lparr>vehicleYear := Some 2147483648\<rparr>"
  have h8: "\<not> required_missing ?late
       \<and> (\<not> up march_first 1 \<or> \<not> body_accepted_basic ?late
           \<or> 20 < length (generateMissionCode march_first empty_store)
           \<or> generateMissionCode march_first empty_store
                \<in> set (map mission_code (missions empty_store)))"
    by (simp add: required_missing_def falsy_def body_accepted_basic_def scenario_body_def
        integer_column_def integer_range_def)
  note c8 = create_contract[where b = ?late and e = march_first and s = empty_store,
      THEN conjunct2, THEN conjunct2, THEN conjunct2, THEN conjunct2, THEN conjunct2, THEN conjunct2, THEN conjunct2, THEN conjunct2, THEN conjunct1, THEN mp, OF h8]
  from c8 have 8: "fst (create_basic march_first ?late empty_store) = Failure ServerError"
    by (rule conjunct1)
  have f9: "vehicleBrand scenario_body = Some ''Renault'' \<and> vehicleModel scenario_body = Some ''Clio''
       \<and> pickupLocation scenario_body = Some ''Paris''
       \<and> deliveryLocation scenario_body = Some ''Lyon''
       \<and> clientName scenario_body = Some ''A'' \<and> clientEmail scenario_body = Some ''a@x.com''"
    by (simp add: scenario_body_def)
  have e9: "today march_first = \<lparr>utc_year = 2024, utc_month = 3, utc_day = 1\<rparr>
       \<and> up march_first 0 \<and> up march_first 1
       \<and> (\<forall>c \<in> set (map mission_code (missions sample_store)). \<not> prefix ''FA-20240301-'' c)"
    by (simp add: march_first_def sample_store_def sample_mission_def)
  have h9: "vehicleBrand scenario_body = Some ''Renault'' \<and> vehicleModel scenario_body = Some ''Clio''
       \<and> pickupLocation scenario_body = Some ''Paris''
       \<and> deliveryLocation scenario_body = Some ''Lyon''
       \<and> clientName scenario_body = Some ''A'' \<and> clientEmail scenario_body = Some ''a@x.com''
       \<and> body_fits scenario_body
       \<and> today march_first = \<lparr>utc_year = 2024, utc_month = 3, utc_day = 1\<rparr>
       \<and> up march_first 0 \<and> up march_first 1
       \<and> (\<forall>c \<in> set (map mission_code (missions sample_store)). \<not> prefix ''FA-20240301-'' c)"
    using f9 e9 scenario_body_fits by blast
  note c9 = create_contract[where b = scenario_body and e = march_first and s = sample_store,
      THEN conjunct2, THEN conjunct2, THEN conjunct2, THEN conjunct2, THEN conjunct2, THEN conjunct2, THEN conjunct2, THEN conjunct2, THEN conjunct2, THEN mp, OF h9]
  from c9 have 9: "\<exists>row s'. create march_first scenario_body sample_store = (Success 201 row, s')
        \<and> mission_code row = ''FA-20240301-001'' \<and> status row = ''pending''"
    by (rule conjunct1)
  from c9 have 10: "\<exists>row s'. create_basic march_first scenario_body sample_store = (Success 201 row, s')
        \<and> mission_code row = ''FA-20240301-001'' \<and> status row = ''pending''"
    by (rule conjunct2)
  show ?thesis
    by (intro conjI) (fact 1 2 3 P W 4 5 generated_nine_digits 6 7 8 9 10)+
qed

subsection \<open>Upserts\<close>

lemma filter_key_distinct:
  "distinct (map key xs) \<Longrightarrow> r \<in> set xs \<Longrightarrow> filter (\<lambda>x. key x = key r) xs = [r]"
proof (induction xs)
  case Nil
  then show ?case by simp
next
  case (Cons x xs)
  show ?case
  proof (cases "x = r")
    case True
    with Cons.prems have "key r \<notin> key ` set xs" by simp
    then have "filter (\<lambda>x. key x = key r) xs = []"
      by (simp add: filter_empty_conv) (metis imageI)
    with True show ?thesis by simp
  next
    case False
    with Cons.prems have r: "r \<in> set xs" and d: "distinct (map key xs)" and "key x \<notin> key ` set xs"
      by auto
    then have "key x \<noteq> key r" by auto
    with Cons.IH[OF d r] show ?thesis by simp
  qed
qed

lemma filter_map_other:
  assumes "\<And>x. key (f x) = key x"
  shows "filter (\<lambda>x. key x \<noteq> i) (map (\<lambda>x. if key x = i then f x else x) xs)
         = filter (\<lambda>x. key x \<noteq> i) xs"
  using assms by (induction xs) auto

lemma upsert_inspection_refused:
  "\<not> (integer_column (keyCount b) \<and> integer_column (optionalPhotos b))
     \<Longrightarrow> upsert_inspection now i b s = (None, s)"
  by (simp add: upsert_inspection_def)

lemma upsert_inspection_result:
  assumes "distinct (map i_mission_id (inspections s))" "i \<in> set (map m_id (missions s))"
    and "integer_column (keyCount b)" "integer_column (optionalPhotos b)"
  shows "\<exists>row s'. upsert_inspection now i b s = (Some row, s')
     \<and> filter (\<lambda>r. i_mission_id r = i) (inspections s') = [row]
     \<and> filter (\<lambda>r. i_mission_id r \<noteq> i) (inspections s')
         = filter (\<lambda>r. i_mission_id r \<noteq> i) (inspections s)
     \<and> missions s' = missions s \<and> mission_photos s' = mission_photos s
     \<and> i_mission_id row = i
     \<and> i_observations row = ib_observations b \<and> signature row = ib_signature b
     \<and> checklist row = ib_checklist b \<and> key_count row = keyCount b
     \<and> optional_photos_count row = optionalPhotos b \<and> i_updated_at row = now"
proof (cases "filter (\<lambda>r. i_mission_id r = i) (inspections s)")
  case Nil
  then have "filter (\<lambda>r. i_mission_id r \<noteq> i) (inspections s) = inspections s"
    by (auto simp: filter_empty_conv filter_id_conv)
  with Nil assms(2,3,4) show ?thesis
    by (simp add: upsert_inspection_def Let_def del: set_map)
next
  case (Cons old rest)
  then have "old \<in> set (filter (\<lambda>r. i_mission_id r = i) (inspections s))" by simp
  then have o: "old \<in> set (inspections s)" "i_mission_id old = i" by simp_all
  from filter_key_distinct[OF assms(1) o(1)] o(2)
  have one: "filter (\<lambda>r. i_mission_id r = i) (inspections s) = [old]" by simp
  let ?ow = "\<lambda>r. r\<lparr> i_observations := ib_observations b, signature := ib_signature b,
                               checklist := ib_checklist b, key_count := keyCount b,
                               optional_photos_count := optionalPhotos b,
                               i_updated_at := now \<rparr>"
  have k: "\<And>r. i_mission_id (?ow r) = i_mission_id r" by simp
  have f1: "filter (\<lambda>r. i_mission_id r = i)
             (map (\<lambda>r. if i_mission_id r = i then ?ow r else r) (inspections s)) = [?ow old]"
    using filter_map_same_key[of i_mission_id ?ow i "inspections s", OF k] one by simp
  have f2: "filter (\<lambda>r. i_mission_id r \<noteq> i)
             (map (\<lambda>r. if i_mission_id r = i then ?ow r else r) (inspections s))
            = filter (\<lambda>r. i_mission_id r \<noteq> i) (inspections s)"
    using filter_map_other[of i_mission_id ?ow i "inspections s", OF k] .
  from one f1 f2 o(2) assms(3,4) show ?thesis
    by (simp add: upsert_inspection_def Let_def)
qed

lemma sync_mission_rows:
  "inspections (sync_mission now i b s) = inspections s"
  "mission_photos (sync_mission now i b s) = mission_photos s"
  "map m_id (missions (sync_mission now i b s)) = map m_id (missions s)"
  "map mission_code (missions (sync_mission now i b s)) = map mission_code (missions s)"
  by (simp_all add: sync_mission_def comp_def if_distrib[of m_id] if_distrib[of mission_code]
      cong: if_cong)

lemma sync_mission_target:
  assumes "m \<in> set (missions (sync_mission now i b s))" "m_id m = i"
  shows "observations m = ib_observations b" "client_signature m = ib_signature b"
    "updated_at m = now"
proof -
  let ?f = "\<lambda>m. m\<lparr> observations := ib_observations b,
                           client_signature := ib_signature b, updated_at := now \<rparr>"
  from assms(1) have "m \<in> set (map (\<lambda>m. if m_id m = i then ?f m else m) (missions s))"
    by (simp add: sync_mission_def)
  from row_of_map[OF this assms(2)] obtain m0 where "m = ?f m0" by auto
  then show "observations m = ib_observations b" "client_signature m = ib_signature b"
    "updated_at m = now" by simp_all
qed

lemma sync_mission_others:
  assumes "m \<in> set (missions (sync_mission now i b s))" "m_id m \<noteq> i"
  shows "m \<in> set (missions s)"
  using assms by (auto simp: sync_mission_def split: if_splits)

lemma constraints_sample_store: "constraints_hold sample_store"
  by (simp add: constraints_hold_def sample_store_def sample_mission_def empty_store_def)

lemma upsert_inspection_keeps_constraints:
  assumes "constraints_hold s"
  shows "constraints_hold (snd (upsert_inspection now i b s))"
proof (cases "integer_column (keyCount b) \<and> integer_column (optionalPhotos b)")
  case False
  with assms show ?thesis by (simp add: upsert_inspection_refused)
next
  case fits: True
  show ?thesis
  proof (cases "filter (\<lambda>r. i_mission_id r = i) (inspections s)")
  case Nil
  then have f: "i \<notin> set (map i_mission_id (inspections s))"
    by (auto simp: filter_empty_conv)
  from assms have "\<forall>r \<in> set (inspections s). i_id r < inspections_id_seq s"
    by (simp add: constraints_hold_def list_all_iff)
  then have fresh: "inspections_id_seq s \<notin> set (map i_id (inspections s))" by auto
  from assms Nil f fresh fits show ?thesis
    by (auto simp add: upsert_inspection_def Let_def constraints_hold_def list_all_iff
        simp del: set_map intro: less_SucI)
next
  case (Cons old rest)
  let ?ow = "\<lambda>r. r\<lparr> i_observations := ib_observations b, signature := ib_signature b,
                               checklist := ib_checklist b, key_count := keyCount b,
                               optional_photos_count := optionalPhotos b,
                               i_updated_at := now \<rparr>"
  let ?rows = "map (\<lambda>r. if i_mission_id r = i then ?ow r else r) (inspections s)"
  have m1: "map i_id ?rows = map i_id (inspections s)" by (induction "inspections s") auto
  have m2: "map i_mission_id ?rows = map i_mission_id (inspections s)"
    by (induction "inspections s") auto
  have m3: "list_all P (map i_id ?rows) = list_all P (map i_id (inspections s))" for P
    by (simp only: m1)
  have s': "snd (upsert_inspection now i b s)
      = s\<lparr>inspections_id_seq := inspections_id_seq s + 1, inspections := ?rows\<rparr>"
    using Cons fits by (simp add: upsert_inspection_def Let_def)
  have a: "\<forall>r \<in> set ?rows. i_mission_id r \<in> set (map m_id (missions s))"
    using assms by (auto simp: constraints_hold_def list_all_iff)
  have b: "\<forall>r \<in> set ?rows. i_id r < inspections_id_seq s + 1"
    using assms by (auto simp: constraints_hold_def list_all_iff intro: less_SucI)
  from assms a b show ?thesis
    unfolding s' constraints_hold_def
    by (simp add: m1 m2 list_all_iff del: set_map map_map)
  qed
qed

lemma sync_mission_keeps_constraints:
  assumes "constraints_hold s"
  shows "constraints_hold (sync_mission now i b s)"
proof -
  have seq: "missions_id_seq (sync_mission now i b s) = missions_id_seq s"
    "mission_photos_id_seq (sync_mission now i b s) = mission_photos_id_seq s"
    "inspections_id_seq (sync_mission now i b s) = inspections_id_seq s"
    by (simp_all add: sync_mission_def)
  have ids: "list_all (\<lambda>m. m_id m < k) (missions (sync_mission now i b s))
               = list_all (\<lambda>m. m_id m < k) (missions s)" for k
  proof -
    have a: "list_all (\<lambda>m. m_id m < k) xs = (\<forall>n \<in> set (map m_id xs). n < k)" for xs
      by (simp add: list_all_iff)
    show ?thesis unfolding a sync_mission_rows(3) ..
  qed
  from assms show ?thesis
    unfolding constraints_hold_def seq ids sync_mission_rows
    by simp
qed

lemma submitInspection_keeps_constraints:
  "constraints_hold s \<Longrightarrow> constraints_hold (snd (submitInspection e i b s))"
  using upsert_inspection_keeps_constraints[of s "db_now e" i b]
    sync_mission_keeps_constraints[of "snd (upsert_inspection (db_now e) i b s)" "db_now e" i b]
  by (auto simp: submitInspection_def split: prod.splits option.splits)

lemma sample_missions:
  "map m_id (missions sample_store) = [1]" "map observations (missions sample_store) = [None]"
  "map client_signature (missions sample_store) = [None]" "inspections sample_store = []"
  by (simp_all add: sample_store_def sample_mission_def new_mission_row_def scenario_body_def
      empty_store_def)

text \<open>
  Claim C4. As stated, the claim fails for a payload whose key count does not
  fit the INTEGER column: for the existing mission 1, which has no inspection
  yet, a submission with the key count \<open>2\<^sup>3\<^sup>1\<close> is answered with a server
  error (500); no inspection row is written and the mission keeps its
  observations and signature, which differ from the payload's.
\<close>

theorem submitInspection_refuses_large_count:
  "map m_id (missions sample_store) = [1] \<and> inspections sample_store = []
   \<and> keyCount large_key_count = Some 2147483648
   \<and> ib_observations large_key_count = Some ''scratch on the left door''
   \<and> ib_signature large_key_count = Some ''sig-1''
   \<and> submitInspection march_first 1 large_key_count sample_store
       = (Failure ServerError, sample_store)
   \<and> http_status (fst (submitInspection march_first 1 large_key_count sample_store)) = 500
   \<and> inspections (snd (submitInspection march_first 1 large_key_count sample_store)) = []
   \<and> map observations (missions (snd (submitInspection march_first 1 large_key_count sample_store)))
       = [None]
   \<and> map client_signature
        (missions (snd (submitInspection march_first 1 large_key_count sample_store))) = [None]"
proof -
  have "\<not> (integer_column (keyCount large_key_count)
            \<and> integer_column (optionalPhotos large_key_count))"
    by (simp add: large_key_count_def first_inspection_def integer_column_def integer_range_def)
  then have "submitInspection march_first 1 large_key_count sample_store
               = (Failure ServerError, sample_store)"
    by (simp add: submitInspection_def upsert_inspection_refused sample_envs)
  then show ?thesis
    by (simp add: sample_missions large_key_count_def first_inspection_def)
qed

text \<open>
  Claim C4, amended. In a store that satisfies the declared constraints,
  submitting an inspection for an existing mission \<open>i\<close> (both statements reaching
  the database) with a key count and an optional-photo count that are absent or
  within the INTEGER range succeeds and leaves exactly one inspection row for
  the mission, whether or not one existed before: all five inspection fields
  are those of the payload, the other inspections are untouched, and every
  mission row with id \<open>i\<close> carries the payload's observations and signature while
  the other missions are as before; the constraints still hold afterwards. With
  a count outside the INTEGER range (from \<open>-2\<^sup>3\<^sup>1\<close> to \<open>2\<^sup>3\<^sup>1 - 1\<close>) the submission
  is answered with a server error (500) and the store is unchanged.
\<close>

theorem submitInspection_upsert:
  assumes "constraints_hold s" "i \<in> set (map m_id (missions s))" "up e 0" "up e 1"
  shows "(integer_column v \<longleftrightarrow> (\<forall>x. v = Some x \<longrightarrow> - 2147483648 \<le> x \<and> x \<le> 2147483647))
    \<and> (integer_column (keyCount b) \<and> integer_column (optionalPhotos b) \<longrightarrow>
      (\<exists>row s'. submitInspection e i b s = (Success 200 row, s')
         \<and> filter (\<lambda>r. i_mission_id r = i) (inspections s') = [row]
         \<and> i_observations row = ib_observations b \<and> signature row = ib_signature b
         \<and> checklist row = ib_checklist b \<and> key_count row = keyCount b
         \<and> optional_photos_count row = optionalPhotos b
         \<and> filter (\<lambda>r. i_mission_id r \<noteq> i) (inspections s')
             = filter (\<lambda>r. i_mission_id r \<noteq> i) (inspections s)
         \<and> map m_id (missions s') = map m_id (missions s)
         \<and> (\<forall>m \<in> set (missions s'). m_id m = i
               \<longrightarrow> observations m = ib_observations b \<and> client_signature m = ib_signature b)
         \<and> (\<forall>m \<in> set (missions s'). m_id m \<noteq> i \<longrightarrow> m \<in> set (missions s))
         \<and> constraints_hold s'))
    \<and> (\<not> (integer_column (keyCount b) \<and> integer_column (optionalPhotos b))
         \<longrightarrow> submitInspection e i b s = (Failure ServerError, s))"
proof (intro conjI impI)
  show "integer_column v \<longleftrightarrow> (\<forall>x. v = Some x \<longrightarrow> - 2147483648 \<le> x \<and> x \<le> 2147483647)"
    by (rule integer_column_iff)
next
  assume fits: "integer_column (keyCount b) \<and> integer_column (optionalPhotos b)"
  from assms(1) have d: "distinct (map i_mission_id (inspections s))"
    by (simp add: constraints_hold_def)
  from fits have k: "integer_column (keyCount b)" and o: "integer_column (optionalPhotos b)"
    by blast+
  from upsert_inspection_result[OF d assms(2) k o, of "db_now e"]
  obtain row s1 where u: "upsert_inspection (db_now e) i b s = (Some row, s1)"
    and r: "filter (\<lambda>r. i_mission_id r = i) (inspections s1) = [row]"
      "filter (\<lambda>r. i_mission_id r \<noteq> i) (inspections s1)
         = filter (\<lambda>r. i_mission_id r \<noteq> i) (inspections s)"
      "missions s1 = missions s"
      "i_observations row = ib_observations b" "signature row = ib_signature b"
      "checklist row = ib_checklist b" "key_count row = keyCount b"
      "optional_photos_count row = optionalPhotos b"
    by blast
  let ?s' = "sync_mission (db_now e) i b s1"
  have res: "submitInspection e i b s = (Success 200 row, ?s')"
    using assms(3,4) u by (simp add: submitInspection_def)
  have c: "constraints_hold ?s'"
    using submitInspection_keeps_constraints[OF assms(1), of e i b] res by simp
  have ids: "map m_id (missions ?s') = map m_id (missions s)"
    using sync_mission_rows(3)[of "db_now e" i b s1] r(3) by simp
  have tgt: "\<forall>m \<in> set (missions ?s'). m_id m = i
           \<longrightarrow> observations m = ib_observations b \<and> client_signature m = ib_signature b"
    using sync_mission_target[of _ "db_now e" i b s1] by blast
  have oth: "\<forall>m \<in> set (missions ?s'). m_id m \<noteq> i \<longrightarrow> m \<in> set (missions s)"
    using sync_mission_others[of _ "db_now e" i b s1] r(3) by auto
  from res r c ids tgt oth
  show "\<exists>row s'. submitInspection e i b s = (Success 200 row, s')
         \<and> filter (\<lambda>r. i_mission_id r = i) (inspections s') = [row]
         \<and> i_observations row = ib_observations b \<and> signature row = ib_signature b
         \<and> checklist row = ib_checklist b \<and> key_count row = keyCount b
         \<and> optional_photos_count row = optionalPhotos b
         \<and> filter (\<lambda>r. i_mission_id r \<noteq> i) (inspections s')
             = filter (\<lambda>r. i_mission_id r \<noteq> i) (inspections s)
         \<and> map m_id (missions s') = map m_id (missions s)
         \<and> (\<forall>m \<in> set (missions s'). m_id m = i
               \<longrightarrow> observations m = ib_observations b \<and> client_signature m = ib_signature b)
         \<and> (\<forall>m \<in> set (missions s'). m_id m \<noteq> i \<longrightarrow> m \<in> set (missions s))
         \<and> constraints_hold s'"
    by (simp add: sync_mission_rows)
next
  assume "\<not> (integer_column (keyCount b) \<and> integer_column (optionalPhotos b))"
  then show "submitInspection e i b s = (Failure ServerError, s)"
    using assms(3) by (simp add: submitInspection_def upsert_inspection_refused)
qed

theorem submitInspection_upsert_witness:
  "(\<exists>row s1 row' s2.
      submitInspection march_first 1 first_inspection sample_store = (Success 200 row, s1)
    \<and> checklist row = Some (JObj [(''lights'', JBool True), (''tyres'', JStr ''worn'')])
    \<and> key_count row = Some 2
    \<and> submitInspection march_first 1 second_inspection s1 = (Success 200 row', s2)
    \<and> inspections s2 = [row']
    \<and> i_observations row' = None \<and> signature row' = Some ''sig-2''
    \<and> checklist row' = Some (JObj [(''lights'', JBool False)]) \<and> key_count row' = Some 1
    \<and> optional_photos_count row' = Some 3
    \<and> map observations (missions s2) = [None]
    \<and> map client_signature (missions s2) = [Some ''sig-2''])
   \<and> submitInspection march_first 1 large_key_count sample_store
       = (Failure ServerError, sample_store)"
proof -
  have i1: "1 \<in> set (map m_id (missions sample_store))" by (simp add: sample_facts)
  have f1: "integer_column (keyCount first_inspection)
              \<and> integer_column (optionalPhotos first_inspection)"
    and f2: "integer_column (keyCount second_inspection)
              \<and> integer_column (optionalPhotos second_inspection)"
    and f3: "\<not> (integer_column (keyCount large_key_count)
                  \<and> integer_column (optionalPhotos large_key_count))"
    by (simp_all add: first_inspection_def second_inspection_def large_key_count_def
        integer_column_def integer_range_def)
  note t1 = submitInspection_upsert[OF constraints_sample_store i1 sample_envs(1) sample_envs(1),
      THEN conjunct2]
  from t1[of first_inspection, THEN conjunct1, THEN mp, OF f1]
  obtain row s1 where
    a: "submitInspection march_first 1 first_inspection sample_store = (Success 200 row, s1)"
      "filter (\<lambda>r. i_mission_id r \<noteq> 1) (inspections s1)
         = filter (\<lambda>r. i_mission_id r \<noteq> 1) (inspections sample_store)"
      "map m_id (missions s1) = map m_id (missions sample_store)" "constraints_hold s1"
      "checklist row = ib_checklist first_inspection" "key_count row = keyCount first_inspection"
    by (elim exE conjE) (rule that)
  from t1[of large_key_count, THEN conjunct2, THEN mp, OF f3]
  have z: "submitInspection march_first 1 large_key_count sample_store
             = (Failure ServerError, sample_store)" .
  from a(3) have i2: "1 \<in> set (map m_id (missions s1))" by (simp add: sample_facts)
  from submitInspection_upsert[OF a(4) i2 sample_envs(1) sample_envs(1), of _ second_inspection,
      THEN conjunct2, THEN conjunct1, THEN mp, OF f2]
  obtain row' s2 where
    b: "submitInspection march_first 1 second_inspection s1 = (Success 200 row', s2)"
      "filter (\<lambda>r. i_mission_id r = 1) (inspections s2) = [row']"
      "i_observations row' = ib_observations second_inspection"
      "signature row' = ib_signature second_inspection"
      "checklist row' = ib_checklist second_inspection"
      "key_count row' = keyCount second_inspection"
      "optional_photos_count row' = optionalPhotos second_inspection"
      "filter (\<lambda>r. i_mission_id r \<noteq> 1) (inspections s2)
         = filter (\<lambda>r. i_mission_id r \<noteq> 1) (inspections s1)"
      "map m_id (missions s2) = map m_id (missions s1)"
      "\<forall>m \<in> set (missions s2). m_id m = 1
           \<longrightarrow> observations m = ib_observations second_inspection
               \<and> client_signature m = ib_signature second_inspection"
    by (elim exE conjE) (rule that)
  have "filter (\<lambda>r. i_mission_id r \<noteq> 1) (inspections s2) = []"
    using b(8) a(2) by (simp add: sample_store_def empty_store_def)
  then have "\<forall>r \<in> set (inspections s2). i_mission_id r = 1"
    by (auto simp: filter_empty_conv)
  then have "filter (\<lambda>r. i_mission_id r = 1) (inspections s2) = inspections s2"
    by (simp add: filter_id_conv)
  with b(2) have all: "inspections s2 = [row']" by simp
  from b(9) a(3) have "map m_id (missions s2) = [1]" by (simp add: sample_facts)
  then obtain m where m: "missions s2 = [m]" "m_id m = 1" by (cases "missions s2") auto
  with b(10) have "observations m = None" "client_signature m = Some ''sig-2''"
    by (simp_all add: second_inspection_def)
  with m have ms: "map observations (missions s2) = [None]"
    "map client_signature (missions s2) = [Some ''sig-2'']" by simp_all
  from a(1,5,6) b(1) all b(3-7) ms
  have "\<exists>row s1 row' s2.
      submitInspection march_first 1 first_inspection sample_store = (Success 200 row, s1)
    \<and> checklist row = Some (JObj [(''lights'', JBool True), (''tyres'', JStr ''worn'')])
    \<and> key_count row = Some 2
    \<and> submitInspection march_first 1 second_inspection s1 = (Success 200 row', s2)
    \<and> inspections s2 = [row']
    \<and> i_observations row' = None \<and> signature row' = Some ''sig-2''
    \<and> checklist row' = Some (JObj [(''lights'', JBool False)]) \<and> key_count row' = Some 1
    \<and> optional_photos_count row' = Some 3
    \<and> map observations (missions s2) = [None]
    \<and> map client_signature (missions s2) = [Some ''sig-2'']"
    by (simp add: first_inspection_def second_inspection_def)
  with z show ?thesis by blast
qed

lemma photo_hit_key:
  "(\<lambda>r. p_mission_id r = mid \<and> photo_type r = t)
     = (\<lambda>r. (p_mission_id r, photo_type r) = (mid, t))"
  by auto






subsection \<open>The read view\<close>

lemma string_of_nat_inj: "string_of_nat a = string_of_nat b \<Longrightarrow> a = b"
  by (metis decimal_string_of_nat)

lemma code_is_no_id:
  assumes "prefix ''FA-'' c"
  shows "c \<noteq> string_of_nat k"
proof
  assume "c = string_of_nat k"
  with assms digits_string_of_nat[of k] have "is_digit CHR ''F''"
    by (auto simp: prefix_def)
  then show False by (simp add: is_digit_range)
qed

lemma code_or_id_unique:
  assumes "distinct (map m_id (missions s))" "distinct (map mission_code (missions s))"
    and "\<forall>m \<in> set (missions s). prefix ''FA-'' (mission_code m)"
    and "m \<in> set (missions s)" "m' \<in> set (missions s)"
    and "code_or_id token m" "code_or_id token m'"
  shows "m' = m"
proof -
  have c: "mission_code m' = mission_code m \<Longrightarrow> m' = m"
    using assms(2,4,5) by (meson distinct_map inj_onD)
  have i: "m_id m' = m_id m \<Longrightarrow> m' = m"
    using assms(1,4,5) by (meson distinct_map inj_onD)
  from assms(3,4,5) have p: "prefix ''FA-'' (mission_code m)" "prefix ''FA-'' (mission_code m')"
    by blast+
  from assms(6,7) consider "mission_code m = token" "mission_code m' = token"
    | "string_of_nat (m_id m) = token" "string_of_nat (m_id m') = token"
    | "mission_code m = token" "string_of_nat (m_id m') = token"
    | "string_of_nat (m_id m) = token" "mission_code m' = token"
    by (auto simp: code_or_id_def)
  then show ?thesis
  proof cases
    case 1 then show ?thesis using c by simp
  next
    case 2 then show ?thesis using i string_of_nat_inj[of "m_id m'" "m_id m"] by simp
  next
    case 3 then show ?thesis using code_is_no_id[OF p(1), of "m_id m'"] by simp
  next
    case 4 then show ?thesis using code_is_no_id[OF p(2), of "m_id m"] by simp
  qed
qed

lemma aggregate_single:
  assumes "distinct (map i_mission_id (inspections s))"
  shows "\<exists>v. aggregate s m = [v] \<and> v_mission v = m
     \<and> v_photos v = map summary (sort_key uploaded_at
                        (filter (\<lambda>p. p_mission_id p = m_id m) (mission_photos s)))
     \<and> ((\<forall>i \<in> set (inspections s). i_mission_id i \<noteq> m_id m)
          \<longrightarrow> v_checklist v = None \<and> v_key_count v = None \<and> v_optional_photos_count v = None)
     \<and> (\<forall>i \<in> set (inspections s). i_mission_id i = m_id m
          \<longrightarrow> v_checklist v = checklist i \<and> v_key_count v = key_count i
              \<and> v_optional_photos_count v = optional_photos_count i)"
proof (cases "filter (\<lambda>i. i_mission_id i = m_id m) (inspections s)")
  case Nil
  then have "\<forall>i \<in> set (inspections s). i_mission_id i \<noteq> m_id m"
    by (auto simp: filter_empty_conv)
  with Nil show ?thesis by (simp add: aggregate_def)
next
  case (Cons i rest)
  then have "i \<in> set (filter (\<lambda>i. i_mission_id i = m_id m) (inspections s))" by simp
  then have i: "i \<in> set (inspections s)" "i_mission_id i = m_id m" by simp_all
  from filter_key_distinct[OF assms i(1)] i(2)
  have one: "filter (\<lambda>i. i_mission_id i = m_id m) (inspections s) = [i]" by simp
  have only: "\<forall>j \<in> set (inspections s). i_mission_id j = m_id m \<longrightarrow> j = i"
  proof (intro ballI impI)
    fix j assume "j \<in> set (inspections s)" "i_mission_id j = m_id m"
    then have "j \<in> set (filter (\<lambda>i. i_mission_id i = m_id m) (inspections s))" by simp
    with one show "j = i" by simp
  qed
  let ?v = "\<lparr> v_mission = m, v_checklist = checklist i, v_key_count = key_count i,
              v_optional_photos_count = optional_photos_count i,
              v_photos = map summary (sort_key uploaded_at
                 (filter (\<lambda>p. p_mission_id p = m_id m) (mission_photos s))) \<rparr>"
  have agg: "aggregate s m = [?v]"
    unfolding aggregate_def one by (simp add: inspection_columns_def)
  have "\<forall>j \<in> set (inspections s). i_mission_id j = m_id m
          \<longrightarrow> v_checklist ?v = checklist j \<and> v_key_count ?v = key_count j
              \<and> v_optional_photos_count ?v = optional_photos_count j"
    using only by simp
  moreover have "\<not> (\<forall>j \<in> set (inspections s). i_mission_id j \<noteq> m_id m)"
    using i by blast
  moreover have "v_mission ?v = m" "v_photos ?v = map summary (sort_key uploaded_at
                 (filter (\<lambda>p. p_mission_id p = m_id m) (mission_photos s)))" by simp_all
  ultimately show ?thesis using agg by blast
qed

lemma summary_times: "map ps_uploaded_at (map summary ps) = map uploaded_at ps"
  by (simp add: summary_def)

lemma getByCodeOrId_none:
  assumes "up e 0" "\<forall>m \<in> set (missions s). \<not> code_or_id token m"
  shows "getByCodeOrId e token s = Failure NotFoundError"
proof -
  from assms(2) have "filter (code_or_id token) (missions s) = []"
    by (simp add: filter_empty_conv)
  with assms(1) show ?thesis by (simp add: getByCodeOrId_def)
qed

lemma getByCodeOrId_found:
  assumes "up e 0" "constraints_hold s"
    and "\<forall>m \<in> set (missions s). prefix ''FA-'' (mission_code m)"
    and "m \<in> set (missions s)" "code_or_id token m"
  shows "\<exists>v. getByCodeOrId e token s = Success 200 v \<and> aggregate s m = [v]"
proof -
  from assms(2) have d: "distinct (map m_id (missions s))"
    "distinct (map mission_code (missions s))"
    "distinct (map i_mission_id (inspections s))"
    by (simp_all add: constraints_hold_def)
  have "filter (code_or_id token) (missions s) = filter (\<lambda>x. m_id x = m_id m) (missions s)"
  proof (rule filter_cong[OF refl])
    fix x assume x: "x \<in> set (missions s)"
    show "code_or_id token x = (m_id x = m_id m)"
    proof
      assume "code_or_id token x"
      from code_or_id_unique[OF d(1,2) assms(3,4) x assms(5) this] show "m_id x = m_id m"
        by simp
    next
      assume "m_id x = m_id m"
      with d(1) x assms(4) have "x = m" by (meson distinct_map inj_onD)
      with assms(5) show "code_or_id token x" by simp
    qed
  qed
  also have "\<dots> = [m]" using filter_key_distinct[OF d(1) assms(4)] .
  finally have f: "filter (code_or_id token) (missions s) = [m]" .
  from aggregate_single[OF d(3), of m] obtain v where "aggregate s m = [v]" by blast
  with f assms(1) show ?thesis by (simp add: getByCodeOrId_def)
qed

lemma summary_fields:
  "map ps_id (map summary ps) = map p_id ps"
  "map ps_type (map summary ps) = map photo_type ps"
  "map ps_url (map summary ps) = map storage_url ps"
  "map ps_filename (map summary ps) = map filename ps"
  by (simp_all add: summary_def)

text \<open>
  Claim C6. In a store that satisfies the declared constraints and whose mission
  codes all begin with \<^verbatim>\<open>FA-\<close> (as every code stored by a creation does), with the
  query reaching the database: a token that is neither the code nor the decimal
  id of a mission gives NotFoundError (404); a token that is the code or the id
  of a mission \<open>m\<close> gives the view of \<open>m\<close>: the mission row itself, the three
  inspection columns of its inspection (all NULL when it has none), and one
  summary for each of its photos, in the order of their upload times ascending,
  each summary carrying the id, type, locator, file name and upload time of its
  photo; the list is empty when the mission has no photo.
\<close>

theorem getByCodeOrId_contract:
  assumes "up e 0" "constraints_hold s"
    and "\<forall>m \<in> set (missions s). prefix ''FA-'' (mission_code m)"
  shows "((\<forall>m \<in> set (missions s). mission_code m \<noteq> token \<and> string_of_nat (m_id m) \<noteq> token)
            \<longrightarrow> getByCodeOrId e token s = Failure NotFoundError)
    \<and> (\<forall>m \<in> set (missions s). mission_code m = token \<or> string_of_nat (m_id m) = token \<longrightarrow>
         (\<exists>v. getByCodeOrId e token s = Success 200 v \<and> v_mission v = m
            \<and> ((\<forall>i \<in> set (inspections s). i_mission_id i \<noteq> m_id m)
                 \<longrightarrow> v_checklist v = None \<and> v_key_count v = None
                     \<and> v_optional_photos_count v = None)
            \<and> (\<forall>i \<in> set (inspections s). i_mission_id i = m_id m
                 \<longrightarrow> v_checklist v = checklist i \<and> v_key_count v = key_count i
                     \<and> v_optional_photos_count v = optional_photos_count i)
            \<and> v_photos v = map summary (sort_key uploaded_at
                   (filter (\<lambda>p. p_mission_id p = m_id m) (mission_photos s)))
            \<and> map ps_id (v_photos v) = map p_id (sort_key uploaded_at
                   (filter (\<lambda>p. p_mission_id p = m_id m) (mission_photos s)))
            \<and> map ps_type (v_photos v) = map photo_type (sort_key uploaded_at
                   (filter (\<lambda>p. p_mission_id p = m_id m) (mission_photos s)))
            \<and> map ps_url (v_photos v) = map storage_url (sort_key uploaded_at
                   (filter (\<lambda>p. p_mission_id p = m_id m) (mission_photos s)))
            \<and> map ps_filename (v_photos v) = map filename (sort_key uploaded_at
                   (filter (\<lambda>p. p_mission_id p = m_id m) (mission_photos s)))
            \<and> map ps_uploaded_at (v_photos v) = map uploaded_at (sort_key uploaded_at
                   (filter (\<lambda>p. p_mission_id p = m_id m) (mission_photos s)))
            \<and> sorted (map ps_uploaded_at (v_photos v))
            \<and> set (map ps_id (v_photos v))
                = p_id ` {p \<in> set (mission_photos s). p_mission_id p = m_id m}
            \<and> distinct (map ps_id (v_photos v))
            \<and> length (v_photos v)
                = length (filter (\<lambda>p. p_mission_id p = m_id m) (mission_photos s))
            \<and> ((\<forall>p \<in> set (mission_photos s). p_mission_id p \<noteq> m_id m) \<longrightarrow> v_photos v = [])))"
proof (intro conjI impI ballI)
  assume "\<forall>m \<in> set (missions s). mission_code m \<noteq> token \<and> string_of_nat (m_id m) \<noteq> token"
  then have "\<forall>m \<in> set (missions s). \<not> code_or_id token m" by (simp add: code_or_id_def)
  from getByCodeOrId_none[OF assms(1) this]
  show "getByCodeOrId e token s = Failure NotFoundError" .
next
  fix m assume m: "m \<in> set (missions s)"
    and t: "mission_code m = token \<or> string_of_nat (m_id m) = token"
  from t have c: "code_or_id token m" by (simp add: code_or_id_def)
  from getByCodeOrId_found[OF assms m c] obtain v
    where v: "getByCodeOrId e token s = Success 200 v" "aggregate s m = [v]" by blast
  from assms(2) have d: "distinct (map i_mission_id (inspections s))"
    and dp: "distinct (map p_id (mission_photos s))"
    by (simp_all add: constraints_hold_def)
  let ?ps = "filter (\<lambda>p. p_mission_id p = m_id m) (mission_photos s)"
  let ?sorted = "sort_key uploaded_at ?ps"
  from aggregate_single[OF d, of m] v(2)
  have a: "v_mission v = m" "v_photos v = map summary ?sorted"
    "(\<forall>i \<in> set (inspections s). i_mission_id i \<noteq> m_id m)
          \<longrightarrow> v_checklist v = None \<and> v_key_count v = None \<and> v_optional_photos_count v = None"
    "\<forall>i \<in> set (inspections s). i_mission_id i = m_id m
          \<longrightarrow> v_checklist v = checklist i \<and> v_key_count v = key_count i
              \<and> v_optional_photos_count v = optional_photos_count i"
    by auto
  have f: "map ps_id (v_photos v) = map p_id ?sorted"
    "map ps_type (v_photos v) = map photo_type ?sorted"
    "map ps_url (v_photos v) = map storage_url ?sorted"
    "map ps_filename (v_photos v) = map filename ?sorted"
    "map ps_uploaded_at (v_photos v) = map uploaded_at ?sorted"
    unfolding a(2) by (simp_all only: summary_fields summary_times)
  have s1: "sorted (map ps_uploaded_at (v_photos v))"
    unfolding f(5) by (rule sorted_sort_key)
  have s2: "set (map ps_id (v_photos v))
              = p_id ` {p \<in> set (mission_photos s). p_mission_id p = m_id m}"
    unfolding f(1) by auto
  have "distinct (map p_id ?ps)" using dp by (rule distinct_map_filter)
  then have s5: "distinct (map ps_id (v_photos v))"
    unfolding f(1) by (simp add: distinct_map)
  have s3: "length (v_photos v) = length ?ps" unfolding a(2) by simp
  have s4: "(\<forall>p \<in> set (mission_photos s). p_mission_id p \<noteq> m_id m) \<longrightarrow> v_photos v = []"
  proof
    assume "\<forall>p \<in> set (mission_photos s). p_mission_id p \<noteq> m_id m"
    then have "?ps = []" by (simp add: filter_empty_conv)
    then show "v_photos v = []" unfolding a(2) by simp
  qed
  show "\<exists>v. getByCodeOrId e token s = Success 200 v \<and> v_mission v = m
            \<and> ((\<forall>i \<in> set (inspections s). i_mission_id i \<noteq> m_id m)
                 \<longrightarrow> v_checklist v = None \<and> v_key_count v = None
                     \<and> v_optional_photos_count v = None)
            \<and> (\<forall>i \<in> set (inspections s). i_mission_id i = m_id m
                 \<longrightarrow> v_checklist v = checklist i \<and> v_key_count v = key_count i
                     \<and> v_optional_photos_count v = optional_photos_count i)
            \<and> v_photos v = map summary ?sorted
            \<and> map ps_id (v_photos v) = map p_id ?sorted
            \<and> map ps_type (v_photos v) = map photo_type ?sorted
            \<and> map ps_url (v_photos v) = map storage_url ?sorted
            \<and> map ps_filename (v_photos v) = map filename ?sorted
            \<and> map ps_uploaded_at (v_photos v) = map uploaded_at ?sorted
            \<and> sorted (map ps_uploaded_at (v_photos v))
            \<and> set (map ps_id (v_photos v))
                = p_id ` {p \<in> set (mission_photos s). p_mission_id p = m_id m}
            \<and> distinct (map ps_id (v_photos v))
            \<and> length (v_photos v) = length ?ps
            \<and> ((\<forall>p \<in> set (mission_photos s). p_mission_id p \<noteq> m_id m) \<longrightarrow> v_photos v = [])"
    by (intro exI[of _ v] conjI) (fact v(1) a f s1 s2 s3 s4 s5)+
qed

lemma read_store_facts:
  "missions read_store = [sample_mission]" "mission_photos read_store = [front_photo, rear_photo]"
  "inspections read_store = [sample_inspection]" "mission_code sample_mission = ''FA-20240229-001''"
  "string_of_nat (m_id sample_mission) = ''1''"
  "p_mission_id front_photo = 1" "p_mission_id rear_photo = 1"
  "uploaded_at front_photo = 1709290800" "uploaded_at rear_photo = 1709287300"
  "i_mission_id sample_inspection = 1"
  "checklist sample_inspection = Some (JObj [(''lights'', JBool True), (''tyres'', JStr ''worn'')])"
  "key_count sample_inspection = Some 2" "optional_photos_count sample_inspection = Some 0"
  "mission_photos sample_store = []" "inspections sample_store = []"
  by (simp_all add: read_store_def sample_store_def sample_mission_def empty_store_def
      front_photo_def rear_photo_def sample_inspection_def string_of_nat.simps digit_chars)

lemma mock_urls:
  "mockUrl ''007bff'' (Some ''front'')
     = ''https://via.placeholder.com/400x300/007bff/ffffff?text=front''"
  "mockUrl ''007bff'' (Some ''rear'')
     = ''https://via.placeholder.com/400x300/007bff/ffffff?text=rear''"
  by (simp_all add: mockUrl_def encodeURIComponent_def uri_unreserved_def)

lemma photo_fields:
  "p_id front_photo = 1" "photo_type front_photo = ''front''"
  "filename front_photo = ''1709290800000_retake.png''"
  "storage_url front_photo = ''https://via.placeholder.com/400x300/007bff/ffffff?text=front''"
  "p_id rear_photo = 2" "photo_type rear_photo = ''rear''"
  "filename rear_photo = ''1709287300000_rear.jpg''"
  "storage_url rear_photo = ''https://via.placeholder.com/400x300/007bff/ffffff?text=rear''"
  by (simp_all add: front_photo_def rear_photo_def mock_urls)

lemma constraints_read_store: "constraints_hold read_store"
  by (simp add: constraints_hold_def read_store_def sample_store_def sample_mission_def
      empty_store_def front_photo_def rear_photo_def sample_inspection_def)

theorem getByCodeOrId_contract_witness:
  "getByCodeOrId march_first ''FA-20240301-001'' read_store = Failure NotFoundError
   \<and> (\<exists>v. getByCodeOrId march_first ''1'' read_store = Success 200 v
         \<and> v_mission v = sample_mission
         \<and> v_checklist v = Some (JObj [(''lights'', JBool True), (''tyres'', JStr ''worn'')])
         \<and> v_key_count v = Some 2 \<and> v_optional_photos_count v = Some 0
         \<and> map ps_id (v_photos v) = [2, 1]
         \<and> map ps_type (v_photos v) = [''rear'', ''front'']
         \<and> map ps_url (v_photos v)
             = [''https://via.placeholder.com/400x300/007bff/ffffff?text=rear'',
                ''https://via.placeholder.com/400x300/007bff/ffffff?text=front'']
         \<and> map ps_filename (v_photos v)
             = [''1709287300000_rear.jpg'', ''1709290800000_retake.png'']
         \<and> map ps_uploaded_at (v_photos v) = [1709287300, 1709290800])
   \<and> (\<exists>v. getByCodeOrId march_first ''FA-20240229-001'' sample_store = Success 200 v
         \<and> v_mission v = sample_mission \<and> v_checklist v = None \<and> v_key_count v = None
         \<and> v_optional_photos_count v = None \<and> v_photos v = [])"
proof -
  have p1: "\<forall>m \<in> set (missions read_store). prefix ''FA-'' (mission_code m)"
    and p2: "\<forall>m \<in> set (missions sample_store). prefix ''FA-'' (mission_code m)"
    by (simp_all add: read_store_facts sample_facts)
  note r = getByCodeOrId_contract[OF sample_envs(1) constraints_read_store p1]
  note q = getByCodeOrId_contract[OF sample_envs(1) constraints_sample_store p2]
  have "\<forall>m \<in> set (missions read_store).
          mission_code m \<noteq> ''FA-20240301-001'' \<and> string_of_nat (m_id m) \<noteq> ''FA-20240301-001''"
    by (simp add: read_store_facts)
  from r[of "''FA-20240301-001''", THEN conjunct1, THEN mp, OF this]
  have 1: "getByCodeOrId march_first ''FA-20240301-001'' read_store = Failure NotFoundError" .
  have m1: "sample_mission \<in> set (missions read_store)"
    "mission_code sample_mission = ''1'' \<or> string_of_nat (m_id sample_mission) = ''1''"
    by (simp_all add: read_store_facts)
  let ?ps = "sort_key uploaded_at
        (filter (\<lambda>p. p_mission_id p = m_id sample_mission) (mission_photos read_store))"
  note t1 = r[of "''1''", THEN conjunct2, THEN bspec, OF m1(1), THEN mp, OF m1(2)]
  from t1 obtain v where v: "getByCodeOrId march_first ''1'' read_store = Success 200 v"
    "v_mission v = sample_mission"
    "\<forall>i \<in> set (inspections read_store). i_mission_id i = m_id sample_mission
                 \<longrightarrow> v_checklist v = checklist i \<and> v_key_count v = key_count i
                     \<and> v_optional_photos_count v = optional_photos_count i"
    "map ps_id (v_photos v) = map p_id ?ps" "map ps_type (v_photos v) = map photo_type ?ps"
    "map ps_url (v_photos v) = map storage_url ?ps"
    "map ps_filename (v_photos v) = map filename ?ps"
    "map ps_uploaded_at (v_photos v) = map uploaded_at ?ps"
    by (elim exE conjE) (rule that)
  have ps: "?ps = [rear_photo, front_photo]"
    by (simp add: read_store_facts sample_facts)
  from v(3) have k: "v_checklist v = Some (JObj [(''lights'', JBool True), (''tyres'', JStr ''worn'')])"
    "v_key_count v = Some 2" "v_optional_photos_count v = Some 0"
    by (simp_all add: read_store_facts sample_facts)
  have u: "map ps_id (v_photos v) = [2, 1]"
    "map ps_type (v_photos v) = [''rear'', ''front'']"
    "map ps_url (v_photos v)
             = [''https://via.placeholder.com/400x300/007bff/ffffff?text=rear'',
                ''https://via.placeholder.com/400x300/007bff/ffffff?text=front'']"
    "map ps_filename (v_photos v)
             = [''1709287300000_rear.jpg'', ''1709290800000_retake.png'']"
    "map ps_uploaded_at (v_photos v) = [1709287300, 1709290800]"
    unfolding v(4-8) ps by (simp_all only: list.map photo_fields read_store_facts)
  have 2: "\<exists>v. getByCodeOrId march_first ''1'' read_store = Success 200 v
         \<and> v_mission v = sample_mission
         \<and> v_checklist v = Some (JObj [(''lights'', JBool True), (''tyres'', JStr ''worn'')])
         \<and> v_key_count v = Some 2 \<and> v_optional_photos_count v = Some 0
         \<and> map ps_id (v_photos v) = [2, 1]
         \<and> map ps_type (v_photos v) = [''rear'', ''front'']
         \<and> map ps_url (v_photos v)
             = [''https://via.placeholder.com/400x300/007bff/ffffff?text=rear'',
                ''https://via.placeholder.com/400x300/007bff/ffffff?text=front'']
         \<and> map ps_filename (v_photos v)
             = [''1709287300000_rear.jpg'', ''1709290800000_retake.png'']
         \<and> map ps_uploaded_at (v_photos v) = [1709287300, 1709290800]"
    by (intro exI[of _ v] conjI) (fact v(1,2) k u)+
  have m2: "sample_mission \<in> set (missions sample_store)"
    "mission_code sample_mission = ''FA-20240229-001''
       \<or> string_of_nat (m_id sample_mission) = ''FA-20240229-001''"
    by (simp_all add: read_store_facts sample_facts)
  have e2: "\<forall>i \<in> set (inspections sample_store). i_mission_id i \<noteq> m_id sample_mission"
    "\<forall>p \<in> set (mission_photos sample_store). p_mission_id p \<noteq> m_id sample_mission"
    by (simp_all add: read_store_facts)
  note t3 = q[of "''FA-20240229-001''", THEN conjunct2, THEN bspec, OF m2(1), THEN mp, OF m2(2)]
  from t3 obtain w where w: "getByCodeOrId march_first ''FA-20240229-001'' sample_store = Success 200 w"
    "v_mission w = sample_mission"
    "(\<forall>i \<in> set (inspections sample_store). i_mission_id i \<noteq> m_id sample_mission)
       \<longrightarrow> v_checklist w = None \<and> v_key_count w = None \<and> v_optional_photos_count w = None"
    "(\<forall>p \<in> set (mission_photos sample_store). p_mission_id p \<noteq> m_id sample_mission)
       \<longrightarrow> v_photos w = []"
    by (elim exE conjE) (rule that)
  from w(3)[THEN mp, OF e2(1)] have n: "v_checklist w = None" "v_key_count w = None"
    "v_optional_photos_count w = None" by blast+
  note z = w(4)[THEN mp, OF e2(2)]
  have 3: "\<exists>v. getByCodeOrId march_first ''FA-20240229-001'' sample_store = Success 200 v
         \<and> v_mission v = sample_mission \<and> v_checklist v = None \<and> v_key_count v = None
         \<and> v_optional_photos_count v = None \<and> v_photos v = []"
    by (intro exI[of _ w] conjI) (fact w(1,2) n z)+
  show ?thesis
    by (intro conjI) (fact 1 2 3)+
qed

subsection \<open>Statistics\<close>

lemma avg_hours_empty: "missions s = [] \<Longrightarrow> avg_hours s = None"
  by (simp add: avg_hours_def)

text \<open>
  Claim C9. When its query answers, \<open>basicStats\<close> returns the number of all
  missions and the numbers of missions whose status is pending, in_progress,
  completed and cancelled; when the query fails it still answers with success
  (200) and all five counts 0. On an empty missions table (all four queries
  answering) \<open>advancedStats\<close> returns all-zero basic counts, no monthly row, no
  vehicle row and an average of 0 hours.
\<close>

theorem stats_contract:
  "(up e 0 \<longrightarrow> basicStats e s = Success 200
       \<lparr> st_total = length (missions s),
         st_pending = length (filter (\<lambda>m. status m = ''pending'') (missions s)),
         st_in_progress = length (filter (\<lambda>m. status m = ''in_progress'') (missions s)),
         st_completed = length (filter (\<lambda>m. status m = ''completed'') (missions s)),
         st_cancelled = length (filter (\<lambda>m. status m = ''cancelled'') (missions s)) \<rparr>)
   \<and> (\<not> up e 0 \<longrightarrow> basicStats e s = Success 200
       \<lparr> st_total = 0, st_pending = 0, st_in_progress = 0, st_completed = 0, st_cancelled = 0 \<rparr>
       \<and> http_status (basicStats e s) = 200)
   \<and> (missions s = [] \<and> up e 0 \<and> up e 1 \<and> up e 2 \<and> up e 3 \<longrightarrow>
        advancedStats trunc_month minus_12_months e s = Success 200
          \<lparr> basic = \<lparr> st_total = 0, st_pending = 0, st_in_progress = 0, st_completed = 0,
                      st_cancelled = 0 \<rparr>,
            monthly = [], topVehicles = [], avgProcessingHours = 0 \<rparr>)"
proof (intro conjI impI)
  show "basicStats e s = Success 200
       \<lparr> st_total = length (missions s),
         st_pending = length (filter (\<lambda>m. status m = ''pending'') (missions s)),
         st_in_progress = length (filter (\<lambda>m. status m = ''in_progress'') (missions s)),
         st_completed = length (filter (\<lambda>m. status m = ''completed'') (missions s)),
         st_cancelled = length (filter (\<lambda>m. status m = ''cancelled'') (missions s)) \<rparr>"
    if "up e 0"
    using that by (simp add: basicStats_def status_counts_def count_status_def)
  show "basicStats e s = Success 200
       \<lparr> st_total = 0, st_pending = 0, st_in_progress = 0, st_completed = 0, st_cancelled = 0 \<rparr>"
    if "\<not> up e 0" using that by (simp add: basicStats_def)
  show "http_status (basicStats e s) = 200" if "\<not> up e 0"
    using that by (simp add: basicStats_def)
  show "advancedStats trunc_month minus_12_months e s = Success 200
          \<lparr> basic = \<lparr> st_total = 0, st_pending = 0, st_in_progress = 0, st_completed = 0,
                      st_cancelled = 0 \<rparr>,
            monthly = [], topVehicles = [], avgProcessingHours = 0 \<rparr>"
    if "missions s = [] \<and> up e 0 \<and> up e 1 \<and> up e 2 \<and> up e 3"
    using that
    by (simp add: advancedStats_def status_counts_def count_status_def monthly_counts_def
        top_vehicles_def avg_hours_empty)
qed

theorem stats_contract_witness:
  "basicStats march_first sample_store = Success 200
       \<lparr> st_total = 1, st_pending = 1, st_in_progress = 0, st_completed = 0, st_cancelled = 0 \<rparr>
   \<and> basicStats offline sample_store = Success 200
       \<lparr> st_total = 0, st_pending = 0, st_in_progress = 0, st_completed = 0, st_cancelled = 0 \<rparr>
   \<and> http_status (basicStats offline sample_store) = 200
   \<and> advancedStats (\<lambda>t. t - t mod 2592000) (\<lambda>t. t - 31104000) march_first empty_store
       = Success 200
          \<lparr> basic = \<lparr> st_total = 0, st_pending = 0, st_in_progress = 0, st_completed = 0,
                      st_cancelled = 0 \<rparr>,
            monthly = [], topVehicles = [], avgProcessingHours = 0 \<rparr>"
proof -
  have off: "\<not> up offline 0" by (simp add: offline_def)
  have st: "status sample_mission = ''pending''" by (simp add: sample_mission_def)
  have h: "missions empty_store = [] \<and> up march_first 0 \<and> up march_first 1
            \<and> up march_first 2 \<and> up march_first 3"
    by (simp add: empty_store_def sample_envs)
  from stats_contract[where e = march_first and s = sample_store] sample_envs(1)[of 0]
  have 1: "basicStats march_first sample_store = Success 200
       \<lparr> st_total = 1, st_pending = 1, st_in_progress = 0, st_completed = 0, st_cancelled = 0 \<rparr>"
    by (simp add: sample_facts st)
  from stats_contract[where e = offline and s = sample_store] off
  have 2: "basicStats offline sample_store = Success 200
       \<lparr> st_total = 0, st_pending = 0, st_in_progress = 0, st_completed = 0, st_cancelled = 0 \<rparr>"
    and 3: "http_status (basicStats offline sample_store) = 200" by blast+
  from stats_contract[where e = march_first and s = empty_store
      and trunc_month = "\<lambda>t. t - t mod 2592000" and minus_12_months = "\<lambda>t. t - 31104000"] h
  have 4: "advancedStats (\<lambda>t. t - t mod 2592000) (\<lambda>t. t - 31104000) march_first empty_store
       = Success 200
          \<lparr> basic = \<lparr> st_total = 0, st_pending = 0, st_in_progress = 0, st_completed = 0,
                      st_cancelled = 0 \<rparr>,
            monthly = [], topVehicles = [], avgProcessingHours = 0 \<rparr>" by blast
  from 1 2 3 4 show ?thesis by blast
qed

subsection \<open>Routing\<close>

lemma lower_literals:
  "lower ''api'' = ''api''" "lower ''missions'' = ''missions''" "lower ''search'' = ''search''"
  by (simp_all add: lower_def lower_char_def)

lemma search_path: "path_segments ''/api/missions/search'' = Some [''api'', ''missions'', ''search'']"
  by (simp add: path_segments_def)

lemma dispatch_search:
  "dispatch GET ''/api/missions/search'' = (GetMission, [(''code'', ''search'')])"
  by (simp add: dispatch_def search_path routes_def lower_literals)

lemma search_shadowed:
  assumes "match_path [Lit ''api'', Lit ''missions'', Lit ''search''] xs = Some ps"
  shows "match_path [Lit ''api'', Lit ''missions'', Param ''code''] xs
           = Some [(''code'', xs ! 2)]"
proof -
  from assms obtain a b c where xs: "xs = [a, b, c]"
    by (cases xs; cases "tl xs"; cases "tl (tl xs)"; cases "tl (tl (tl xs))")
       (auto split: if_splits)
  with assms have l: "lower ''api'' = lower a" "lower ''missions'' = lower b"
    "lower ''search'' = lower c"
    by (auto split: if_splits)
  from l(3) have "c \<noteq> []" by (auto simp: lower_def)
  with xs l show ?thesis by simp
qed

lemma search_unreachable: "fst (first_match routes m xs) \<noteq> SearchMissions"
proof (cases "match_path [Lit ''api'', Lit ''missions'', Lit ''search''] xs")
  case None
  then show ?thesis
    by (cases m) (simp_all add: routes_def split: option.splits)
next
  case (Some ps)
  from search_shadowed[OF this] show ?thesis
    by (cases m) (simp_all add: routes_def split: option.splits)
qed

lemma dispatch_never_search: "fst (dispatch m p) \<noteq> SearchMissions"
  by (simp add: dispatch_def search_unreachable split: option.splits)

lemma id_is_not_search: "string_of_nat k \<noteq> ''search''"
proof
  assume "string_of_nat k = ''search''"
  with digits_string_of_nat[of k] have "is_digit CHR ''s''" by simp
  then show False by (simp add: is_digit_range)
qed

lemma other_methods:
  "verb \<noteq> GET \<Longrightarrow> dispatch verb ''/api/missions/search'' = (CatchAll, [])"
  by (cases verb) (simp_all add: dispatch_def search_path routes_def lower_literals)

lemma serve_search_path:
  "serve_GET e ''/api/missions/search'' f s = Mission_reply (getByCodeOrId e ''search'' s)"
  by (simp add: serve_GET_def dispatch_search param_def)

lemma serve_never_search: "serve_GET e p f s \<noteq> Search_reply r"
  using dispatch_never_search[of GET p]
  by (cases "dispatch GET p") (auto simp: serve_GET_def split: handler.splits)

text \<open>
  Claim C10. The route of the single-mission lookup stands before the search
  route in the route table, and the path \<^verbatim>\<open>/api/missions/search\<close> matches its
  pattern with the parameter \<open>code\<close> bound to \<^verbatim>\<open>search\<close>; so a GET request to that
  path is answered by the lookup handler with that token, whatever the query
  string. In every store without a mission whose code is \<^verbatim>\<open>search\<close> (no decimal
  id is that word) the answer is NotFoundError (404), the query reaching the
  database. No request of any method and path is dispatched to the search
  handler, and no GET request is answered by it; a request to that path with
  another method reaches the catch-all.
\<close>

theorem search_route_shadowed:
  "(GET, [Lit ''api'', Lit ''missions'', Param ''code''], GetMission)
      \<in> set (takeWhile (\<lambda>r. snd (snd r) \<noteq> SearchMissions) routes)
   \<and> (GET, [Lit ''api'', Lit ''missions'', Lit ''search''], SearchMissions) \<in> set routes
   \<and> dispatch GET ''/api/missions/search'' = (GetMission, [(''code'', ''search'')])
   \<and> serve_GET e ''/api/missions/search'' f s = Mission_reply (getByCodeOrId e ''search'' s)
   \<and> string_of_nat (m_id m) \<noteq> ''search''
   \<and> (up e 0 \<and> (\<forall>m \<in> set (missions s). mission_code m \<noteq> ''search'')
        \<longrightarrow> serve_GET e ''/api/missions/search'' f s = Mission_reply (Failure NotFoundError)
            \<and> http_status (getByCodeOrId e ''search'' s) = 404)
   \<and> (verb \<noteq> GET \<longrightarrow> dispatch verb ''/api/missions/search'' = (CatchAll, []))
   \<and> fst (dispatch verb p) \<noteq> SearchMissions
   \<and> serve_GET e p f s \<noteq> Search_reply r"
proof (intro conjI impI)
  show "dispatch verb ''/api/missions/search'' = (CatchAll, [])" if "verb \<noteq> GET"
    using that by (rule other_methods)
  show "(GET, [Lit ''api'', Lit ''missions'', Param ''code''], GetMission)
      \<in> set (takeWhile (\<lambda>r. snd (snd r) \<noteq> SearchMissions) routes)"
    by (simp add: routes_def)
  show "(GET, [Lit ''api'', Lit ''missions'', Lit ''search''], SearchMissions) \<in> set routes"
    by (simp add: routes_def)
  show "dispatch GET ''/api/missions/search'' = (GetMission, [(''code'', ''search'')])"
    by (rule dispatch_search)
  show "serve_GET e ''/api/missions/search'' f s = Mission_reply (getByCodeOrId e ''search'' s)"
    by (rule serve_search_path)
  show "string_of_nat (m_id m) \<noteq> ''search''" by (rule id_is_not_search)
  show "fst (dispatch verb p) \<noteq> SearchMissions" by (rule dispatch_never_search)
  show "serve_GET e p f s \<noteq> Search_reply r" by (rule serve_never_search)
next
  assume a: "up e 0 \<and> (\<forall>m \<in> set (missions s). mission_code m \<noteq> ''search'')"
  then have "\<forall>m \<in> set (missions s). \<not> code_or_id ''search'' m"
    by (simp add: code_or_id_def id_is_not_search)
  with a have n: "getByCodeOrId e ''search'' s = Failure NotFoundError"
    using getByCodeOrId_none[of e s "''search''"] by blast
  then show "serve_GET e ''/api/missions/search'' f s = Mission_reply (Failure NotFoundError)"
    by (simp add: serve_search_path)
  from n show "http_status (getByCodeOrId e ''search'' s) = 404" by simp
qed

theorem search_route_shadowed_witness:
  "serve_GET march_first ''/api/missions/search'' completed_ren completed_store
     = Mission_reply (Failure NotFoundError)
   \<and> http_status (getByCodeOrId march_first ''search'' completed_store) = 404
   \<and> dispatch POST ''/api/missions/search'' = (CatchAll, [])
   \<and> fst (dispatch GET ''/api/missions/search'') \<noteq> SearchMissions"
proof -
  have p: "POST \<noteq> GET" by simp
  have h: "up march_first 0 \<and> (\<forall>m \<in> set (missions completed_store). mission_code m \<noteq> ''search'')"
    by (simp add: sample_envs completed_store_def sample_store_def sample_mission_def)
  from search_route_shadowed[where e = march_first and s = completed_store and f = completed_ren
      and verb = GET and p = "''/api/missions/search''"] h
    search_route_shadowed[where verb = POST] p
  show ?thesis by blast
qed

subsection \<open>Search\<close>

lemma wildcard_free_Nil [simp]: "wildcard_free []"
  by (simp add: wildcard_free_def)

lemma conditions_are_spec:
  assumes "wildcard_free (text_value (query_q f))"
    "wildcard_free (text_value (query_vehicleBrand f))"
  shows "list_all (\<lambda>c. c m) (search_conditions f) = spec_matches f m"
proof -
  have q: "query_q f = Some q \<Longrightarrow> ilike hay (CHR ''%'' # q @ ''%'') = contains_ci q hay" for q hay
    using assms(1) ilike_contains[of q hay] by (simp add: text_value_def)
  have b: "query_vehicleBrand f = Some q
             \<Longrightarrow> ilike hay (CHR ''%'' # q @ ''%'') = contains_ci q hay"
    for q hay
    using assms(2) ilike_contains[of q hay] by (simp add: text_value_def)
  show ?thesis
    unfolding search_conditions_def spec_matches_def
    by (cases "query_q f"; cases "query_status f"; cases "query_dateFrom f";
        cases "query_dateTo f"; cases "query_vehicleBrand f")
       (simp_all add: falsy_def text_value_def q b)
qed

lemma search_is_spec:
  assumes "up e 0" "wildcard_free (text_value (query_q f))"
    "wildcard_free (text_value (query_vehicleBrand f))"
  shows "search e f s = Success 200
           (take 100 (sort_key (\<lambda>m. - int (created_at m))
              (filter (spec_matches f) (missions s))))"
proof -
  have "(\<lambda>m. list_all (\<lambda>c. c m) (search_conditions f)) = spec_matches f"
    using conditions_are_spec[OF assms(2,3)] by auto
  with assms(1) show ?thesis by (simp add: search_def)
qed

lemma newest_first:
  "sorted_wrt (\<lambda>a b. created_at b \<le> created_at a) (sort_key (\<lambda>m. - int (created_at m)) xs)"
proof -
  have "sorted (map (\<lambda>m. - int (created_at m)) (sort_key (\<lambda>m. - int (created_at m)) xs))"
    by (rule sorted_sort_key)
  then show ?thesis by (simp add: sorted_map)
qed

lemma take_most_recent:
  assumes "sorted_wrt (\<lambda>a b. created_at b \<le> created_at a) xs"
    and "m \<in> set xs" "m \<notin> set (take n xs)" "r \<in> set (take n xs)"
  shows "created_at m \<le> created_at r"
proof -
  from assms(2,3) have "m \<in> set (drop n xs)"
    by (metis Un_iff append_take_drop_id set_append)
  moreover have "\<forall>x \<in> set (take n xs). \<forall>y \<in> set (drop n xs). created_at y \<le> created_at x"
  proof -
    from assms(1) have "sorted_wrt (\<lambda>a b. created_at b \<le> created_at a) (take n xs @ drop n xs)"
      by simp
    then show ?thesis unfolding sorted_wrt_append by blast
  qed
  ultimately show ?thesis using assms(4) by blast
qed

lemma one_char_wildcard: "s \<noteq> [] \<Longrightarrow> ilike s ''%_%''"
proof -
  assume "s \<noteq> []"
  then obtain c t where s: "lower s = c # t" by (cases s) (auto simp: lower_def)
  have "like_match ''%'' t" using like_percent[of "[]" t] by simp
  then have "like_match ''_%'' (c # t)" by (simp add: like_match.simps(2))
  then have "like_match ''%_%'' (c # t)" by (simp add: like_match.simps(2))
  moreover have "lower ''%_%'' = ''%_%''" by (simp add: lower_def lower_char_def)
  ultimately show ?thesis by (simp add: ilike_def s)
qed

lemma sublist_single: "sublist [c] ys = (c \<in> set ys)"
  by (induction ys) (auto simp: sublist_Cons_right)

lemma sample_texts:
  "lower (mission_code sample_mission) = ''fa-20240229-001''"
  "lower (client_name sample_mission) = ''a''"
  "lower (vehicle_brand sample_mission) = ''renault''"
  "lower (vehicle_model sample_mission) = ''clio''"
  "lower ''_'' = ''_''" "lower ''ren'' = ''ren''" "lower ''Renault'' = ''renault''"
  by (simp_all add: sample_mission_def new_mission_row_def scenario_body_def text_value_def
      lower_def lower_char_def char_of_eq_iff)

lemma ren_in_Renault: "contains_ci ''ren'' ''Renault''"
proof -
  have "''renault'' = [] @ ''ren'' @ ''ault''" by simp
  then have "sublist ''ren'' ''renault''" unfolding sublist_def by blast
  then show ?thesis by (simp add: contains_ci_def sample_texts)
qed

text \<open>
  Claim C8. As stated, the claim fails for a filter text that contains a LIKE
  wildcard: the handler puts the text between two \<^verbatim>\<open>%\<close> without escaping it. The
  free text \<^verbatim>\<open>_\<close> selects the sample mission although no underscore occurs in its
  code, client name, brand or model.
\<close>

theorem search_wildcard_is_no_substring:
  "search march_first underscore_query sample_store = Success 200 [sample_mission]
   \<and> \<not> contains_ci ''_'' (mission_code sample_mission)
   \<and> \<not> contains_ci ''_'' (client_name sample_mission)
   \<and> \<not> contains_ci ''_'' (vehicle_brand sample_mission)
   \<and> \<not> contains_ci ''_'' (vehicle_model sample_mission)"
proof -
  have "mission_code sample_mission \<noteq> []" by (simp add: sample_mission_def)
  from one_char_wildcard[OF this]
  have "list_all (\<lambda>c. c sample_mission) (search_conditions underscore_query)"
    by (simp add: search_conditions_def underscore_query_def no_filters_def falsy_def
        text_value_def)
  then have "search march_first underscore_query sample_store = Success 200 [sample_mission]"
    by (simp add: search_def sample_envs sample_facts)
  moreover have "\<not> contains_ci ''_'' (mission_code sample_mission)"
    "\<not> contains_ci ''_'' (client_name sample_mission)"
    "\<not> contains_ci ''_'' (vehicle_brand sample_mission)"
    "\<not> contains_ci ''_'' (vehicle_model sample_mission)"
    by (simp_all add: contains_ci_def sample_texts sublist_single)
  ultimately show ?thesis by blast
qed

text \<open>
  Claim C8, amended. For filter texts without the LIKE wildcard characters
  (\<^verbatim>\<open>%\<close>, \<^verbatim>\<open>_\<close> and the backslash), the query reaching the database: the result
  is the missions that satisfy every filter given (free text occurring without
  regard to case in code, client name, brand or model; status equal; creation
  time within the inclusive bounds; brand text occurring without regard to case
  in the brand), newest first, the first 100 of them, so that any matching
  mission left out is no newer than those returned; without any filter these
  are the 100 most recent missions. A completed mission of brand Renault matches
  the filters status completed and brand ren.
\<close>

theorem search_contract:
  assumes "up e 0" "wildcard_free (text_value (query_q f))"
    "wildcard_free (text_value (query_vehicleBrand f))"
  shows "\<exists>rows. search e f s = Success 200 rows
     \<and> rows = take 100 (sort_key (\<lambda>m. - int (created_at m))
                          (filter (spec_matches f) (missions s)))
     \<and> (\<forall>m \<in> set rows. m \<in> set (missions s) \<and> spec_matches f m)
     \<and> length rows = min 100 (length (filter (spec_matches f) (missions s)))
     \<and> sorted_wrt (\<lambda>a b. created_at b \<le> created_at a) rows
     \<and> (\<forall>m \<in> set (missions s). spec_matches f m \<and> m \<notin> set rows
           \<longrightarrow> (\<forall>r \<in> set rows. created_at m \<le> created_at r))
     \<and> (query_q f = None \<and> query_status f = None \<and> query_dateFrom f = None
         \<and> query_dateTo f = None \<and> query_vehicleBrand f = None
          \<longrightarrow> rows = take 100 (sort_key (\<lambda>m. - int (created_at m)) (missions s)))
     \<and> (\<forall>m \<in> set (missions s).
           query_q f = None \<and> query_status f = Some ''completed'' \<and> query_dateFrom f = None
           \<and> query_dateTo f = None \<and> query_vehicleBrand f = Some ''ren''
           \<and> vehicle_brand m = ''Renault'' \<and> status m = ''completed''
           \<longrightarrow> spec_matches f m \<and> (length (missions s) \<le> 100 \<longrightarrow> m \<in> set rows))"
proof -
  let ?all = "sort_key (\<lambda>m. - int (created_at m)) (filter (spec_matches f) (missions s))"
  let ?rows = "take 100 ?all"
  have 1: "search e f s = Success 200 ?rows" using assms by (rule search_is_spec)
  have 2: "\<forall>m \<in> set ?rows. m \<in> set (missions s) \<and> spec_matches f m"
    by (auto dest: in_set_takeD)
  have 3: "length ?rows = min 100 (length (filter (spec_matches f) (missions s)))"
    by (simp add: min.commute)
  have srt: "sorted_wrt (\<lambda>a b. created_at b \<le> created_at a) ?all" by (rule newest_first)
  then have 4: "sorted_wrt (\<lambda>a b. created_at b \<le> created_at a) ?rows" by simp
  have 5: "\<forall>m \<in> set (missions s). spec_matches f m \<and> m \<notin> set ?rows
           \<longrightarrow> (\<forall>r \<in> set ?rows. created_at m \<le> created_at r)"
  proof (intro ballI impI)
    fix m r assume "m \<in> set (missions s)" "spec_matches f m \<and> m \<notin> set ?rows" "r \<in> set ?rows"
    then have "m \<in> set ?all" "m \<notin> set ?rows" "r \<in> set ?rows" by simp_all
    from take_most_recent[OF srt this] show "created_at m \<le> created_at r" .
  qed
  have 6: "query_q f = None \<and> query_status f = None \<and> query_dateFrom f = None
         \<and> query_dateTo f = None \<and> query_vehicleBrand f = None
          \<longrightarrow> ?rows = take 100 (sort_key (\<lambda>m. - int (created_at m)) (missions s))"
    by (simp add: spec_matches_def)
  have 7: "\<forall>m \<in> set (missions s).
           query_q f = None \<and> query_status f = Some ''completed'' \<and> query_dateFrom f = None
           \<and> query_dateTo f = None \<and> query_vehicleBrand f = Some ''ren''
           \<and> vehicle_brand m = ''Renault'' \<and> status m = ''completed''
           \<longrightarrow> spec_matches f m \<and> (length (missions s) \<le> 100 \<longrightarrow> m \<in> set ?rows)"
  proof (intro ballI impI)
    fix m assume m: "m \<in> set (missions s)"
      and a: "query_q f = None \<and> query_status f = Some ''completed'' \<and> query_dateFrom f = None
           \<and> query_dateTo f = None \<and> query_vehicleBrand f = Some ''ren''
           \<and> vehicle_brand m = ''Renault'' \<and> status m = ''completed''"
    then have sm: "spec_matches f m" by (simp add: spec_matches_def ren_in_Renault)
    have "m \<in> set ?rows" if "length (missions s) \<le> 100"
    proof -
      have "length ?all \<le> length (missions s)" by simp
      with that have "length ?all \<le> 100" by linarith
      then have "?rows = ?all" by simp
      with m sm show ?thesis by simp
    qed
    with sm show "spec_matches f m \<and> (length (missions s) \<le> 100 \<longrightarrow> m \<in> set ?rows)" by blast
  qed
  from 1 2 3 4 5 6 7 show ?thesis by blast
qed


theorem search_contract_witness:
  "search march_first completed_ren completed_store
     = Success 200 [sample_mission\<lparr>status := ''completed''\<rparr>]
   \<and> search march_first no_filters sample_store = Success 200 [sample_mission]"
proof -
  let ?m = "sample_mission\<lparr>status := ''completed''\<rparr>"
  have w: "wildcard_free (text_value (query_q completed_ren))"
    "wildcard_free (text_value (query_vehicleBrand completed_ren))"
    "wildcard_free (text_value (query_q no_filters))"
    "wildcard_free (text_value (query_vehicleBrand no_filters))"
    by (simp_all add: completed_ren_def no_filters_def text_value_def wildcard_free_def)
  have ms: "missions completed_store = [?m]" by (simp add: completed_store_def)
  have f: "query_q completed_ren = None \<and> query_status completed_ren = Some ''completed''
           \<and> query_dateFrom completed_ren = None
           \<and> query_dateTo completed_ren = None \<and> query_vehicleBrand completed_ren = Some ''ren''
           \<and> vehicle_brand ?m = ''Renault'' \<and> status ?m = ''completed''"
    by (simp add: completed_ren_def sample_mission_def new_mission_row_def scenario_body_def
        text_value_def)
  from search_contract[OF sample_envs(1) w(1,2), of completed_store]
  obtain rows where r: "search march_first completed_ren completed_store = Success 200 rows"
    "\<forall>m \<in> set rows. m \<in> set (missions completed_store) \<and> spec_matches completed_ren m"
    "length rows = min 100 (length (filter (spec_matches completed_ren) (missions completed_store)))"
    "\<forall>m \<in> set (missions completed_store).
           query_q completed_ren = None \<and> query_status completed_ren = Some ''completed''
           \<and> query_dateFrom completed_ren = None
           \<and> query_dateTo completed_ren = None \<and> query_vehicleBrand completed_ren = Some ''ren''
           \<and> vehicle_brand m = ''Renault'' \<and> status m = ''completed''
           \<longrightarrow> spec_matches completed_ren m
               \<and> (length (missions completed_store) \<le> 100 \<longrightarrow> m \<in> set rows)"
    by blast
  from r(4) f have "spec_matches completed_ren ?m" by (simp add: ms)
  with r(3) have "length rows = 1" by (simp add: ms)
  moreover from r(2) have "\<forall>m \<in> set rows. m = ?m" by (simp add: ms)
  ultimately have "rows = [?m]" by (cases rows) auto
  with r(1) have 1: "search march_first completed_ren completed_store = Success 200 [?m]"
    by simp
  have n: "query_q no_filters = None \<and> query_status no_filters = None
         \<and> query_dateFrom no_filters = None
         \<and> query_dateTo no_filters = None \<and> query_vehicleBrand no_filters = None"
    by (simp add: no_filters_def)
  from search_contract[OF sample_envs(1) w(3,4), of sample_store] n
  obtain rows' where "search march_first no_filters sample_store = Success 200 rows'"
    "rows' = take 100 (sort_key (\<lambda>m. - int (created_at m)) (missions sample_store))"
    by blast
  then have 2: "search march_first no_filters sample_store = Success 200 [sample_mission]"
    by (simp add: sample_facts)
  from 1 2 show ?thesis by blast
qed

end
